(* ===== verification/JS_Prelude.thy ===== *)
theory JS_Prelude
  imports Complex_Main
begin

text \<open>
  Shared vocabulary of the development: the numbers, clocks and containers of the browser
  runtime as the watch-together front end uses them, the generic notion of a reachable state,
  and the lemmas the component theories share.

  JavaScript numbers. A finite double is a rational number, so the model computes on
  \<^typ>\<open>rat\<close>; the rounding of the last bit is not modelled. Where the source tests
  \<open>Number.isFinite\<close> or starts from an infinity, the value is a \<open>jsnum\<close>, which adds the
  two infinities and NaN with the comparison rules of the language (every comparison with
  NaN is false).
\<close>

section \<open>Collections of rules\<close>

named_theorems js_defs \<open>definitions of the runtime's helper functions\<close>
named_theorems log_simps \<open>what an operation adds to the log of visible effects\<close>
named_theorems frame_simps \<open>fields an operation leaves alone\<close>

section \<open>Numbers\<close>

type_synonym ms = rat

datatype jsnum = NaN | NegInf | PosInf | Num rat

instantiation jsnum :: "{plus, minus, ord}"
begin

fun plus_jsnum :: "jsnum \<Rightarrow> jsnum \<Rightarrow> jsnum" where
  "plus_jsnum NaN y = NaN"
| "plus_jsnum x NaN = NaN"
| "plus_jsnum (Num a) (Num b) = Num (a + b)"
| "plus_jsnum PosInf NegInf = NaN"
| "plus_jsnum NegInf PosInf = NaN"
| "plus_jsnum PosInf y = PosInf"
| "plus_jsnum NegInf y = NegInf"
| "plus_jsnum (Num a) y = y"

fun minus_jsnum :: "jsnum \<Rightarrow> jsnum \<Rightarrow> jsnum" where
  "minus_jsnum x NaN = NaN"
| "minus_jsnum NaN y = NaN"
| "minus_jsnum (Num a) (Num b) = Num (a - b)"
| "minus_jsnum PosInf PosInf = NaN"
| "minus_jsnum NegInf NegInf = NaN"
| "minus_jsnum PosInf y = PosInf"
| "minus_jsnum NegInf y = NegInf"
| "minus_jsnum (Num a) PosInf = NegInf"
| "minus_jsnum (Num a) NegInf = PosInf"

fun less_eq_jsnum :: "jsnum \<Rightarrow> jsnum \<Rightarrow> bool" where
  "less_eq_jsnum NaN y = False"
| "less_eq_jsnum x NaN = False"
| "less_eq_jsnum (Num a) (Num b) = (a \<le> b)"
| "less_eq_jsnum NegInf y = True"
| "less_eq_jsnum x PosInf = True"
| "less_eq_jsnum PosInf y = False"
| "less_eq_jsnum x NegInf = False"

fun less_jsnum :: "jsnum \<Rightarrow> jsnum \<Rightarrow> bool" where
  "less_jsnum NaN y = False"
| "less_jsnum x NaN = False"
| "less_jsnum (Num a) (Num b) = (a < b)"
| "less_jsnum NegInf NegInf = False"
| "less_jsnum PosInf PosInf = False"
| "less_jsnum NegInf y = True"
| "less_jsnum x PosInf = True"
| "less_jsnum PosInf y = False"
| "less_jsnum x NegInf = False"

instance ..

end

text \<open>\<open>Number.isFinite\<close>, and the product with a positive constant (the source only scales
  seconds to milliseconds).\<close>

fun isFinite :: "jsnum \<Rightarrow> bool" where
  "isFinite (Num a) = True"
| "isFinite x = False"

fun js_scale :: "jsnum \<Rightarrow> rat \<Rightarrow> jsnum" where
  "js_scale (Num a) k = Num (a * k)"
| "js_scale x k = x"

fun finite_part :: "jsnum \<Rightarrow> rat" where
  "finite_part (Num a) = a"
| "finite_part x = 0"

text \<open>\<open>Math.round\<close> rounds halves upwards; \<open>Math.sign\<close>.\<close>

definition Math_round :: "rat \<Rightarrow> rat" where
  [js_defs]: "Math_round x = of_int \<lfloor>x + 1 / 2\<rfloor>"

fun js_round :: "jsnum \<Rightarrow> jsnum" where
  "js_round (Num a) = Num (Math_round a)"
| "js_round x = x"

definition Math_sign :: "rat \<Rightarrow> int" where
  [js_defs]: "Math_sign x = (if 0 < x then 1 else if x < 0 then - 1 else 0)"

text \<open>A number is falsy when it is absent or zero.\<close>

definition truthy_num :: "rat option \<Rightarrow> bool" where
  [js_defs]: "truthy_num x = (case x of None \<Rightarrow> False | Some n \<Rightarrow> n \<noteq> 0)"

lemma isFinite_iff: "isFinite x \<longleftrightarrow> (\<exists>a. x = Num a)"
  by (cases x) auto

lemma jsnum_minus_finiteD: "isFinite (x - y) \<Longrightarrow> isFinite x \<and> isFinite y"
  by (cases x; cases y) auto

lemma Math_round_bounds: "Math_round x \<le> x + 1 / 2" "x - 1 / 2 < Math_round x"
proof -
  show "Math_round x \<le> x + 1 / 2"
    unfolding Math_round_def by (rule of_int_floor_le)
  have "x + 1 / 2 < of_int \<lfloor>x + 1 / 2\<rfloor> + 1"
    using floor_correct [of "x + 1 / 2"] by simp
  then show "x - 1 / 2 < Math_round x"
    by (simp add: Math_round_def)
qed

section \<open>JSON values\<close>

text \<open>
  What \<open>JSON.parse\<close> returns. The text grammar is not modelled: a definition that parses
  takes the parser as an argument, with \<^term>\<open>None\<close> for a syntax error. Reading a property
  of a value that is not an object, or that has no such property, gives \<open>undefined\<close>
  (\<^term>\<open>None\<close>); reading it from \<open>null\<close> or \<open>undefined\<close> throws.
\<close>

datatype json =
    JNull
  | JBool bool
  | JNum jsnum
  | JStr string
  | JArr "json list"
  | JObj "(string \<times> json) list"

fun jget :: "string \<Rightarrow> json \<Rightarrow> json option" where
  "jget k (JObj fs) = map_of fs k"
| "jget k x = None"

text \<open>A property read as a number; one that is absent or has another type reads as NaN.\<close>

fun jnum :: "json option \<Rightarrow> jsnum" where
  "jnum (Some (JNum n)) = n"
| "jnum x = NaN"

section \<open>Reachable states and invariants\<close>

text \<open>
  A component is a set of initial states and a labelled step relation; the label is the event
  the browser delivers. An invariant is proved once per component by interpreting the locale
  below on its step relation.
\<close>

inductive reachable :: "('s \<Rightarrow> bool) \<Rightarrow> ('s \<Rightarrow> 'e \<Rightarrow> 's \<Rightarrow> bool) \<Rightarrow> 's \<Rightarrow> bool"
  for init :: "'s \<Rightarrow> bool" and step :: "'s \<Rightarrow> 'e \<Rightarrow> 's \<Rightarrow> bool" where
  reachable_init: "init s \<Longrightarrow> reachable init step s"
| reachable_step: "reachable init step s \<Longrightarrow> step s e s' \<Longrightarrow> reachable init step s'"

locale invariant_system =
  fixes init :: "'s \<Rightarrow> bool"
    and step :: "'s \<Rightarrow> 'e \<Rightarrow> 's \<Rightarrow> bool"
    and inv :: "'s \<Rightarrow> bool"
  assumes inv_init: "init s \<Longrightarrow> inv s"
    and inv_step: "inv s \<Longrightarrow> step s e s' \<Longrightarrow> inv s'"
begin

lemma inv_reachable: "reachable init step s \<Longrightarrow> inv s"
  by (induction rule: reachable.induct) (auto intro: inv_init inv_step)

end

section \<open>Lists as JavaScript arrays and ordered sets\<close>

text \<open>\<open>Array.prototype.slice(-n)\<close>: the last \<open>n\<close> elements.\<close>

definition slice_last :: "nat \<Rightarrow> 'a list \<Rightarrow> 'a list" where
  [js_defs]: "slice_last n xs = drop (length xs - n) xs"

lemma length_slice_last [simp]: "length (slice_last n xs) = min n (length xs)"
  by (auto simp: slice_last_def)

lemma set_slice_last: "set (slice_last n xs) \<subseteq> set xs"
  by (simp add: slice_last_def set_drop_subset)

lemma slice_last_short [simp]: "length xs \<le> n \<Longrightarrow> slice_last n xs = xs"
  by (simp add: slice_last_def)

lemma distinct_slice_last: "distinct xs \<Longrightarrow> distinct (slice_last n xs)"
  by (simp add: slice_last_def)

text \<open>Elements of a sorted list: an initial segment is bounded by what follows it.\<close>

lemma sorted_take_le_drop:
  "sorted xs \<Longrightarrow> x \<in> set (take n xs) \<Longrightarrow> y \<in> set (drop n xs) \<Longrightarrow> x \<le> y"
  by (metis append_take_drop_id sorted_append)

end
