(* ===== verification/PlaybackModel.thy ===== *)
theory PlaybackModel
  imports JS_Prelude
begin

text \<open>
  The playback state the server publishes and the timeline arithmetic on it:
  \<open>web/src/realtime/protocol.ts\<close> (the state and the message envelope),
  \<open>web/src/player/PlaybackModel.ts\<close>, and, for the agreement with the server, the Go function
  \<open>Expected\<close> of \<open>internal/rooms/state.go\<close>.
\<close>

section \<open>Protocol types\<close>

datatype PlaybackPhase = No_media | Loading | Paused | Playing | Buffering | Ended

record PlaybackState =
  mediaId :: "string option"
  revision :: int
  timelineEpoch :: "int option"
  phase :: PlaybackPhase
  anchorPositionMs :: rat
  anchorServerTimeMs :: rat
  playbackRate :: rat
  durationMs :: "rat option"
  resumeIntent :: "PlaybackPhase option"

definition PROTOCOL_VERSION :: rat where
  "PROTOCOL_VERSION = 1"

text \<open>Only the fields the client reads are kept; \<open>v\<close> has been checked and \<open>type\<close> is a string.\<close>

record Envelope =
  type :: string
  requestId :: "json option"
  payload :: "json option"

datatype parse_error = SyntaxError | Invalid_message | Unsupported_protocol

text \<open>
  \<open>!value || typeof value !== "object"\<close> refuses everything but a non-null object; an array is
  an object without the two properties.
\<close>

definition parseEnvelope :: "(string \<Rightarrow> json option) \<Rightarrow> string \<Rightarrow> parse_error + Envelope" where
  "parseEnvelope JSON_parse raw =
     (case JSON_parse raw of
        None \<Rightarrow> Inl SyntaxError
      | Some value \<Rightarrow>
          (case value of
             JObj fs \<Rightarrow>
               (case (jget ''v'' value, jget ''type'' value) of
                  (Some (JNum v), Some (JStr t)) \<Rightarrow>
                    if v \<noteq> Num PROTOCOL_VERSION then Inl Unsupported_protocol
                    else Inr \<lparr>type = t, requestId = jget ''requestId'' value,
                              payload = jget ''payload'' value\<rparr>
                | _ \<Rightarrow> Inl Unsupported_protocol)
           | JArr _ \<Rightarrow> Inl Unsupported_protocol
           | _ \<Rightarrow> Inl Invalid_message))"

section \<open>Timeline arithmetic\<close>

definition expectedPosition :: "PlaybackState \<Rightarrow> rat \<Rightarrow> rat" where
  "expectedPosition state serverNowMs =
     (let position =
            (if phase state = Playing \<and> serverNowMs > anchorServerTimeMs state
             then anchorPositionMs state
                    + (serverNowMs - anchorServerTimeMs state) * playbackRate state
             else anchorPositionMs state)
      in max 0 (case durationMs state of
                  Some d \<Rightarrow> if d \<noteq> 0 then min position d else position
                | None \<Rightarrow> position))"

definition acceptRevision :: "int \<Rightarrow> int \<Rightarrow> bool" where
  "acceptRevision lastRevision nextRevision \<longleftrightarrow> nextRevision > lastRevision"

section \<open>The server's timeline\<close>

text \<open>
  The Go structure's fields the computation reads. Times and positions are \<open>int64\<close> milliseconds: an
  \<^typ>\<open>int\<close>, with the wrap-around of Go's arithmetic written out by \<open>i64\<close>. The product is a rational, and
  its conversion to \<open>int64\<close> truncates towards zero.
\<close>

record ServerState =
  Phase :: PlaybackPhase
  AnchorPositionMs :: int
  AnchorServerTimeMs :: int
  PlaybackRate :: rat
  DurationMs :: int

definition i64 :: "int \<Rightarrow> int" where
  "i64 x = (x + 2 ^ 63) mod 2 ^ 64 - 2 ^ 63"

definition go_int64 :: "rat \<Rightarrow> int" where
  "go_int64 x = (if 0 \<le> x then \<lfloor>x\<rfloor> else \<lceil>x\<rceil>)"

definition Expected :: "'a ServerState_scheme \<Rightarrow> int \<Rightarrow> int" where
  "Expected s now =
     (let p = (if Phase s = Playing \<and> now > AnchorServerTimeMs s
               then i64 (AnchorPositionMs s
                      + go_int64 (of_int (i64 (now - AnchorServerTimeMs s)) * PlaybackRate s))
               else AnchorPositionMs s)
      in if p < 0 then 0
         else if DurationMs s > 0 \<and> p > DurationMs s then DurationMs s
         else p)"

text \<open>
  The states in which nothing overflows: the anchor and the time since it are whole numbers JavaScript has
  exactly (285 thousand years of film, and a quarter of that of time).
\<close>

definition in_range :: "'a ServerState_scheme \<Rightarrow> int \<Rightarrow> bool" where
  "in_range s now \<longleftrightarrow> \<bar>AnchorPositionMs s\<bar> \<le> 2 ^ 53 \<and> now - AnchorServerTimeMs s \<le> 2 ^ 51"

text \<open>What the client sees of a server state: \<open>omitempty\<close> drops a zero duration.\<close>

definition client_view :: "'a ServerState_scheme \<Rightarrow> PlaybackState \<Rightarrow> bool" where
  "client_view g c \<longleftrightarrow>
     phase c = Phase g \<and>
     anchorPositionMs c = of_int (AnchorPositionMs g) \<and>
     anchorServerTimeMs c = of_int (AnchorServerTimeMs g) \<and>
     playbackRate c = PlaybackRate g \<and>
     durationMs c = (if DurationMs g = 0 then None else Some (of_int (DurationMs g)))"

section \<open>Lemmas\<close>

text \<open>The unclamped position, shared by the proofs.\<close>

definition raw_position :: "PlaybackState \<Rightarrow> rat \<Rightarrow> rat" where
  "raw_position s t =
     (if phase s = Playing
      then anchorPositionMs s + max 0 (t - anchorServerTimeMs s) * playbackRate s
      else anchorPositionMs s)"

lemma expectedPosition_alt:
  "expectedPosition s t =
     max 0 (case durationMs s of
              Some d \<Rightarrow> if d \<noteq> 0 then min (raw_position s t) d else raw_position s t
            | None \<Rightarrow> raw_position s t)"
  by (auto simp: expectedPosition_def raw_position_def max_def split: option.splits)

lemma raw_position_step:
  assumes "0 \<le> playbackRate s" and "t \<le> t'"
  shows "raw_position s t \<le> raw_position s t'"
    and "raw_position s t' - raw_position s t \<le> (t' - t) * playbackRate s"
proof -
  let ?f = "\<lambda>u. max 0 (u - anchorServerTimeMs s)"
  have mono: "?f t \<le> ?f t'" and lip: "?f t' - ?f t \<le> t' - t"
    using assms(2) by auto
  from mult_right_mono [OF mono assms(1)] show "raw_position s t \<le> raw_position s t'"
    by (simp add: raw_position_def)
  from mult_right_mono [OF lip assms(1)] assms
  show "raw_position s t' - raw_position s t \<le> (t' - t) * playbackRate s"
    by (simp add: raw_position_def left_diff_distrib mult_right_mono)
qed

section \<open>Properties\<close>

text \<open>
  The position the room timeline asks for is never negative and, when the duration is
  known, never beyond the end of the film.
\<close>

theorem expectedPosition_range:
  "0 \<le> expectedPosition s t \<and> (\<forall>d. durationMs s = Some d \<longrightarrow> 0 < d \<longrightarrow> expectedPosition s t \<le> d)"
  by (auto simp: expectedPosition_def Let_def split: option.splits)

theorem expectedPosition_range_witness:
  "expectedPosition \<lparr>mediaId = Some ''m'', revision = 1, timelineEpoch = Some 0, phase = Playing,
      anchorPositionMs = 10000, anchorServerTimeMs = 100000, playbackRate = 1,
      durationMs = Some 120000, resumeIntent = None\<rparr> 500000 \<le> 120000"
proof -
  let ?s = "\<lparr>mediaId = Some ''m'', revision = 1, timelineEpoch = Some 0, phase = Playing,
      anchorPositionMs = 10000, anchorServerTimeMs = 100000, playbackRate = 1,
      durationMs = Some 120000, resumeIntent = None\<rparr>"
  have "durationMs ?s = Some 120000" and "(0::rat) < 120000" by simp_all
  with expectedPosition_range [of ?s 500000] show ?thesis by blast
qed

lemma expectedPosition_step:
  assumes "0 \<le> playbackRate s" and "t \<le> t'"
  shows "expectedPosition s t \<le> expectedPosition s t'" and "expectedPosition s t' - expectedPosition s t \<le> (t' - t) * playbackRate s"
  using raw_position_step [OF assms] by (auto simp: expectedPosition_alt split: option.splits)

text \<open>
  The timeline never runs backwards and never faster than the room's playback rate:
  over any interval of server time the expected position grows by at least nothing and at
  most the interval times the rate.
\<close>

theorem expectedPosition_progress:
  assumes "0 \<le> playbackRate s" and "t \<le> t'"
  shows "expectedPosition s t \<le> expectedPosition s t' \<and>
         expectedPosition s t' - expectedPosition s t \<le> (t' - t) * playbackRate s"
  using expectedPosition_step [OF assms] by blast

theorem expectedPosition_progress_witness:
  "expectedPosition \<lparr>mediaId = None, revision = 1, timelineEpoch = None, phase = Playing,
      anchorPositionMs = 10000, anchorServerTimeMs = 100000, playbackRate = 2,
      durationMs = None, resumeIntent = None\<rparr> 101000
   - expectedPosition \<lparr>mediaId = None, revision = 1, timelineEpoch = None, phase = Playing,
      anchorPositionMs = 10000, anchorServerTimeMs = 100000, playbackRate = 2,
      durationMs = None, resumeIntent = None\<rparr> 100500 \<le> 1000"
  using expectedPosition_progress [of "\<lparr>mediaId = None, revision = 1, timelineEpoch = None,
      phase = Playing, anchorPositionMs = 10000, anchorServerTimeMs = 100000, playbackRate = 2,
      durationMs = None, resumeIntent = None\<rparr>" 100500 101000]
  by simp

lemma i64_id: "- (2 ^ 63) \<le> x \<Longrightarrow> x < 2 ^ 63 \<Longrightarrow> i64 x = x"
  by (simp add: i64_def)

lemma i64_bounds: "- (2 ^ 63) \<le> i64 x \<and> i64 x < 2 ^ 63"
  by (simp add: i64_def)

lemma no_overflow:
  assumes "in_range g now" and "now > AnchorServerTimeMs g" and "0 \<le> PlaybackRate g" and "PlaybackRate g \<le> 3"
  shows "i64 (AnchorPositionMs g + go_int64 (of_int (i64 (now - AnchorServerTimeMs g)) * PlaybackRate g)) =
         AnchorPositionMs g + go_int64 (of_int (now - AnchorServerTimeMs g) * PlaybackRate g)"
proof -
  let ?d = "now - AnchorServerTimeMs g"
  have d: "0 \<le> ?d" "?d \<le> 2 ^ 51" using assms(1,2) by (simp_all add: in_range_def)
  then have "(of_int ?d :: rat) \<le> of_int (2 ^ 51)" by (simp only: of_int_le_iff)
  then have "of_int ?d * PlaybackRate g \<le> of_int (2 ^ 51) * 3" using d(1) assms(3,4) by (intro mult_mono) simp_all
  moreover have nn: "0 \<le> of_int ?d * PlaybackRate g" using d(1) assms(3) by simp
  ultimately have "0 \<le> go_int64 (of_int ?d * PlaybackRate g)" "go_int64 (of_int ?d * PlaybackRate g) \<le> 2 ^ 51 * 3"
    by (simp_all add: go_int64_def floor_le_iff le_floor_iff)
  moreover have "\<bar>AnchorPositionMs g\<bar> \<le> 2 ^ 53" using assms(1) by (simp add: in_range_def)
  ultimately have "i64 (AnchorPositionMs g + go_int64 (of_int ?d * PlaybackRate g)) = AnchorPositionMs g + go_int64 (of_int ?d * PlaybackRate g)"
    by (intro i64_id) auto
  moreover have "i64 ?d = ?d" using d by (intro i64_id) auto
  ultimately show ?thesis by simp
qed

text \<open>
  Out of this range server and client part: the server takes a command's position up to \<open>2 ^ 63 - 1\<close> when the
  film's length is not known, its own sum wraps to a negative number a millisecond later, and it answers zero,
  while the client is at the end of that range.
\<close>

lemma position_wraps:
  assumes "client_view g c" and "Phase g = Playing" and "AnchorPositionMs g = 2 ^ 63 - 1" and "DurationMs g = 0"
    and "PlaybackRate g = 1" and "now = AnchorServerTimeMs g + 1"
  shows "Expected g now = 0 \<and> expectedPosition c (of_int now) = 2 ^ 63"
  using assms by (simp add: Expected_def i64_def go_int64_def expectedPosition_def client_view_def Let_def)

lemma client_server_near:
  assumes view: "client_view g c" and rate: "0 \<le> PlaybackRate g" "PlaybackRate g \<le> 3" and dur: "0 \<le> DurationMs g"
    and range: "in_range g now"
  shows "of_int (Expected g now) \<le> expectedPosition c (of_int now) \<and>
         expectedPosition c (of_int now) < of_int (Expected g now) + 1"
proof -
  let ?adv = "of_int (now - AnchorServerTimeMs g) * PlaybackRate g"
  define p where "p = (if Phase g = Playing \<and> now > AnchorServerTimeMs g
      then AnchorPositionMs g + go_int64 ?adv else AnchorPositionMs g)"
  have near: "of_int p \<le> raw_position c (of_int now) \<and> raw_position c (of_int now) < of_int p + 1"
  proof (cases "Phase g = Playing \<and> now > AnchorServerTimeMs g")
    case True
    with rate(1) have nn: "0 \<le> ?adv" by simp
    then have "of_int (go_int64 ?adv) \<le> ?adv \<and> ?adv < of_int (go_int64 ?adv) + 1"
      using floor_correct [of ?adv] by (simp add: go_int64_def)
    moreover have "raw_position c (of_int now) = of_int (AnchorPositionMs g) + ?adv"
      using True view by (simp add: raw_position_def client_view_def)
    ultimately show ?thesis using True by (simp add: p_def)
  next
    case False
    then have "raw_position c (of_int now) = of_int (AnchorPositionMs g)"
      using view by (auto simp: raw_position_def client_view_def)
    with False show ?thesis by (auto simp: p_def)
  qed
  have go: "Expected g now = (if p < 0 then 0 else if DurationMs g > 0 \<and> p > DurationMs g
      then DurationMs g else p)"
    using no_overflow [OF range _ rate] by (auto simp: Expected_def p_def Let_def)
  have ts: "expectedPosition c (of_int now) = max 0 (if DurationMs g = 0
      then raw_position c (of_int now) else min (raw_position c (of_int now)) (of_int (DurationMs g)))"
    using view by (simp add: expectedPosition_alt client_view_def)
  have cast: "of_int p + 1 = (of_int (p + 1) :: rat)" by simp
  show ?thesis
  proof (cases "p < 0")
    case True
    then have "(of_int (p + 1) :: rat) \<le> 0" by linarith
    with near cast have "raw_position c (of_int now) < 0" by linarith
    with True show ?thesis by (auto simp: go ts min_def)
  next
    case False
    then have "0 \<le> raw_position c (of_int now)" using near by linarith
    with near False dur show ?thesis by (auto simp: go ts min_def)
  qed
qed

text \<open>
  Client and server agree on the timeline: for a state the server publishes, with a
  nonnegative rate and a nonnegative duration, the client's expected position is the server's
  own \<open>Expected\<close> value up to the fraction of a millisecond the server truncates, as long as
  nothing overflows.
\<close>

theorem client_server_agree:
  assumes "client_view g c" and "0 \<le> PlaybackRate g" and "PlaybackRate g \<le> 3" and "0 \<le> DurationMs g" and "in_range g now"
  shows "of_int (Expected g now) \<le> expectedPosition c (of_int now) \<and>
         expectedPosition c (of_int now) < of_int (Expected g now) + 1"
  using assms by (rule client_server_near)

theorem client_server_agree_witness:
  "expectedPosition \<lparr>mediaId = None, revision = 1, timelineEpoch = None, phase = Playing,
      anchorPositionMs = 10000, anchorServerTimeMs = 100000, playbackRate = 5 / 4,
      durationMs = Some 120000, resumeIntent = None\<rparr> (of_int 100333)
   < of_int (Expected \<lparr>Phase = Playing, AnchorPositionMs = 10000, AnchorServerTimeMs = 100000,
      PlaybackRate = 5 / 4, DurationMs = 120000\<rparr> 100333) + 1"
  using client_server_agree [of "\<lparr>Phase = Playing, AnchorPositionMs = 10000,
      AnchorServerTimeMs = 100000, PlaybackRate = 5 / 4, DurationMs = 120000\<rparr>"
      "\<lparr>mediaId = None, revision = 1, timelineEpoch = None, phase = Playing,
      anchorPositionMs = 10000, anchorServerTimeMs = 100000, playbackRate = 5 / 4,
      durationMs = Some 120000, resumeIntent = None\<rparr>" 100333]
  by (simp add: client_view_def in_range_def)

end
