(* ===== verification/ServerPlayback.thy ===== *)
theory ServerPlayback
  imports PlaybackModel "HOL-Library.Monad_Syntax"
begin

text \<open>
  The server's timeline, \<open>internal/rooms/state.go\<close> and the part of \<open>internal/rooms/actor.go\<close> that changes it:
  the state with its revision, the decoding of a command's payload, the commands of the playback, and the
  samples of the host's position. Go's \<open>int64\<close> are \<^typ>\<open>int\<close>: decoding checks the bounds, as
  \<open>encoding/json\<close> does, and the position of the timeline, which adds a time to a position a client has sent,
  wraps around as the source does. No other sum can: epochs and revisions count up from zero, clock times are
  the present ones, a drift is the difference of two positions that are not negative, and the thousand
  milliseconds of grace are added to a duration of the database, where only a measured one of at most a week is
  written (\<open>client.ready\<close>).
\<close>

section \<open>The state\<close>

definition ScheduleLeadMs :: int where "ScheduleLeadMs = 350"
definition HostDriftThresholdMs :: int where "HostDriftThresholdMs = 750"
definition HostDriftConfirmations :: int where "HostDriftConfirmations = 2"
definition HostAnchorMinIntervalMs :: int where "HostAnchorMinIntervalMs = 15000"

lemmas server_consts = ScheduleLeadMs_def HostDriftThresholdMs_def HostDriftConfirmations_def HostAnchorMinIntervalMs_def

text \<open>An empty \<open>ResumeIntent\<close> is \<^term>\<open>None\<close>.\<close>

record ServerPlayback = ServerState +
  MediaID :: string
  Revision :: int
  TimelineEpoch :: int
  ResumeIntent :: "PlaybackPhase option"

text \<open>What a client reads from the published state: \<open>omitempty\<close> drops an empty text and a zero duration.\<close>

definition published :: "ServerPlayback \<Rightarrow> PlaybackState" where
  "published s =
     \<lparr>mediaId = (if MediaID s = [] then None else Some (MediaID s)), revision = Revision s,
      timelineEpoch = Some (TimelineEpoch s), phase = Phase s, anchorPositionMs = of_int (AnchorPositionMs s),
      anchorServerTimeMs = of_int (AnchorServerTimeMs s), playbackRate = PlaybackRate s,
      durationMs = (if DurationMs s = 0 then None else Some (of_int (DurationMs s))), resumeIntent = ResumeIntent s\<rparr>"

lemma published_view: "client_view s (published s)"
  by (simp add: client_view_def published_def)

definition validRate :: "rat \<Rightarrow> bool" where
  "validRate v \<longleftrightarrow> list_ex (\<lambda>x. \<bar>v - x\<bar> < 1 / 10000) [1 / 2, 3 / 4, 1, 5 / 4, 3 / 2, 2]"

lemma validRate_bounds: "validRate v \<Longrightarrow> 0 < v \<and> v < 20001 / 10000"
  by (auto simp: validRate_def abs_if split: if_splits)

section \<open>Decoding a payload\<close>

text \<open>A field of a structure: absent or \<open>null\<close> it keeps its zero value, of a wrong kind it is an error.\<close>

definition go_field :: "(json \<Rightarrow> 'a option) \<Rightarrow> 'a \<Rightarrow> string \<Rightarrow> json \<Rightarrow> 'a option" where
  "go_field f zero k v =
     (case jget k v of None \<Rightarrow> Some zero | Some JNull \<Rightarrow> Some zero | Some x \<Rightarrow> f x)"

fun go_int :: "json \<Rightarrow> int option" where
  "go_int (JNum (Num x)) =
     (if x = of_int \<lfloor>x\<rfloor> \<and> - (2 ^ 63) \<le> \<lfloor>x\<rfloor> \<and> \<lfloor>x\<rfloor> < 2 ^ 63 then Some \<lfloor>x\<rfloor> else None)"
| "go_int x = None"

fun go_float :: "json \<Rightarrow> rat option" where
  "go_float (JNum (Num x)) = Some x"
| "go_float x = None"

fun go_bool :: "json \<Rightarrow> bool option" where
  "go_bool (JBool b) = Some b"
| "go_bool x = None"

fun go_string :: "json \<Rightarrow> string option" where
  "go_string (JStr s) = Some s"
| "go_string x = None"

text \<open>A structure is decoded from an object, or left as it is by \<open>null\<close>.\<close>

fun go_struct :: "json \<Rightarrow> bool" where
  "go_struct (JObj fs) = True"
| "go_struct JNull = True"
| "go_struct x = False"

record Payload =
  p_PositionMs :: int
  p_PlaybackRate :: rat
  p_Paused :: bool
  p_ReadyState :: int
  p_TargetUserID :: string
  p_MediaID :: string
  p_DurationMs :: int

definition decode_payload :: "json \<Rightarrow> Payload option" where
  "decode_payload v =
     (if \<not> go_struct v then None
      else do {
        pos \<leftarrow> go_field go_int 0 ''positionMs'' v;
        rate \<leftarrow> go_field go_float 0 ''playbackRate'' v;
        paused \<leftarrow> go_field go_bool False ''paused'' v;
        ready \<leftarrow> go_field go_int 0 ''readyState'' v;
        target \<leftarrow> go_field go_string [] ''targetUserId'' v;
        media \<leftarrow> go_field go_string [] ''mediaId'' v;
        duration \<leftarrow> go_field go_int 0 ''durationMs'' v;
        Some \<lparr>p_PositionMs = pos, p_PlaybackRate = rate, p_Paused = paused, p_ReadyState = ready,
              p_TargetUserID = target, p_MediaID = media, p_DurationMs = duration\<rparr>
      })"

record Ready =
  r_Ready :: bool
  r_MediaID :: string
  r_DurationMs :: int
  r_VideoWidth :: int
  r_VideoHeight :: int

definition decode_ready :: "json \<Rightarrow> Ready option" where
  "decode_ready v =
     (if \<not> go_struct v then None
      else do {
        ready \<leftarrow> go_field go_bool False ''ready'' v;
        media \<leftarrow> go_field go_string [] ''mediaId'' v;
        duration \<leftarrow> go_field go_int 0 ''durationMs'' v;
        width \<leftarrow> go_field go_int 0 ''videoWidth'' v;
        height \<leftarrow> go_field go_int 0 ''videoHeight'' v;
        Some \<lparr>r_Ready = ready, r_MediaID = media, r_DurationMs = duration, r_VideoWidth = width, r_VideoHeight = height\<rparr>
      })"

section \<open>The host's samples\<close>

text \<open>The fields of the actor that belong to the timeline.\<close>

record Timeline =
  tl_playback :: ServerPlayback
  hostDriftSamples :: int
  hostDriftDirection :: int
  lastHostAnchorUpdateMs :: int

definition resetHostDriftTracking :: "'a Timeline_scheme \<Rightarrow> 'a Timeline_scheme" where
  "resetHostDriftTracking a = a\<lparr>hostDriftSamples := 0, hostDriftDirection := 0\<rparr>"

definition set_anchor :: "int \<Rightarrow> int \<Rightarrow> 'a Timeline_scheme \<Rightarrow> 'a Timeline_scheme" where
  "set_anchor pos t a = a\<lparr>tl_playback := (tl_playback a)\<lparr>AnchorPositionMs := pos, AnchorServerTimeMs := t\<rparr>\<rparr>"

definition set_phase :: "PlaybackPhase \<Rightarrow> 'a Timeline_scheme \<Rightarrow> 'a Timeline_scheme" where
  "set_phase x a = a\<lparr>tl_playback := (tl_playback a)\<lparr>Phase := x\<rparr>\<rparr>"

text \<open>The sample of a sustained drift: the direction and the number of samples in it.\<close>

definition count_drift :: "int \<Rightarrow> 'a Timeline_scheme \<Rightarrow> 'a Timeline_scheme" where
  "count_drift direction a =
     (if direction \<noteq> hostDriftDirection a then a\<lparr>hostDriftDirection := direction, hostDriftSamples := 1\<rparr>
      else a\<lparr>hostDriftSamples := hostDriftSamples a + 1\<rparr>)"

definition acceptHostAnchorSample :: "int \<Rightarrow> int \<Rightarrow> bool \<Rightarrow> int \<Rightarrow> 'a Timeline_scheme \<Rightarrow> bool \<times> 'a Timeline_scheme" where
  "acceptHostAnchorSample now positionMs paused readyState a =
     (if Phase (tl_playback a) \<noteq> Playing \<or> paused \<or> readyState < 3 then (False, resetHostDriftTracking a)
      else
        let drift = positionMs - Expected (tl_playback a) now in
        if \<bar>drift\<bar> < HostDriftThresholdMs then (False, resetHostDriftTracking a)
        else
          let a1 = count_drift (if drift < 0 then - 1 else 1) a in
          if hostDriftSamples a1 < HostDriftConfirmations then (False, a1)
          else if lastHostAnchorUpdateMs a1 > 0 \<and> now - lastHostAnchorUpdateMs a1 < HostAnchorMinIntervalMs then (False, a1)
          else (True, resetHostDriftTracking ((set_anchor positionMs now a1)\<lparr>lastHostAnchorUpdateMs := now\<rparr>)))"

section \<open>The commands of the playback\<close>

datatype server_error = NOT_HOST | ROOM_CLOSED | ROOM_FULL | INVALID_COMMAND | INVALID_POSITION | NOT_MEMBER | DB_error string

text \<open>The \<open>switch\<close> of \<open>apply\<close>: whether the state has changed, or an error; what was changed before an error stays.\<close>

definition playback_switch :: "int \<Rightarrow> string \<Rightarrow> Payload \<Rightarrow> 'a Timeline_scheme \<Rightarrow> (server_error + bool) \<times> 'a Timeline_scheme" where
  "playback_switch now t p a =
     (let r = resetHostDriftTracking a; s = tl_playback a in
      if t = ''cmd.playback.play'' then
        (Inr True, set_anchor (p_PositionMs p) (now + ScheduleLeadMs) (set_phase Playing r))
      else if t = ''cmd.playback.pause'' then
        (Inr True, set_anchor (p_PositionMs p) now (set_phase Paused r))
      else if t = ''cmd.playback.seek'' then
        (Inr True, set_anchor (p_PositionMs p) (if Phase s = Playing then now + ScheduleLeadMs else now)
           (r\<lparr>tl_playback := s\<lparr>TimelineEpoch := TimelineEpoch s + 1\<rparr>\<rparr>))
      else if t = ''cmd.playback.rate'' then
        (if \<not> validRate (p_PlaybackRate p) then (Inl INVALID_COMMAND, r)
         else (Inr True, set_anchor (Expected s now) now (r\<lparr>tl_playback := s\<lparr>PlaybackRate := p_PlaybackRate p\<rparr>\<rparr>)))
      else if t = ''cmd.playback.host_buffering'' then
        (Inr True, set_anchor (p_PositionMs p) now
           (r\<lparr>tl_playback := s\<lparr>Phase := Buffering, ResumeIntent := Some Playing\<rparr>\<rparr>))
      else if t = ''cmd.playback.host_ready'' then
        (if Phase s = Buffering \<and> ResumeIntent s = Some Playing
         then (Inr True, set_anchor (AnchorPositionMs s) (now + ScheduleLeadMs) (set_phase Playing r))
         else (Inr False, r))
      else if t = ''telemetry.host.playback'' then
        (let (ok, a1) = acceptHostAnchorSample now (p_PositionMs p) (p_Paused p) (p_ReadyState p) a in (Inr ok, a1))
      else if t = ''cmd.playback.ended'' then
        (Inr True, set_anchor (p_PositionMs p) now (set_phase Ended r))
      else (Inl INVALID_COMMAND, a))"

text \<open>The commands that reach the \<open>switch\<close>, from the check of the position to the new revision.\<close>

definition next_revision :: "'a Timeline_scheme \<Rightarrow> 'a Timeline_scheme" where
  "next_revision a = a\<lparr>tl_playback := (tl_playback a)\<lparr>Revision := Revision (tl_playback a) + 1\<rparr>\<rparr>"

definition playback_command :: "int \<Rightarrow> string \<Rightarrow> Payload \<Rightarrow> 'a Timeline_scheme \<Rightarrow> (server_error + bool) \<times> 'a Timeline_scheme" where
  "playback_command now t p a =
     (if p_PositionMs p < 0 \<or> DurationMs (tl_playback a) > 0 \<and> p_PositionMs p > DurationMs (tl_playback a) + 1000
      then (Inl INVALID_POSITION, a)
      else case playback_switch now t p a of
             (Inr True, a1) \<Rightarrow> (Inr True, next_revision a1)
           | (x, a1) \<Rightarrow> (x, a1))"

section \<open>The timeline stays well formed\<close>

definition timeline_ok :: "ServerPlayback \<Rightarrow> bool" where
  "timeline_ok s \<longleftrightarrow> 0 \<le> AnchorPositionMs s \<and> validRate (PlaybackRate s) \<and> 0 \<le> DurationMs s"

lemma Expected_nonneg: "0 \<le> DurationMs s \<Longrightarrow> 0 \<le> Expected s now"
  by (simp add: Expected_def Let_def)

lemma reset_fields [simp]:
  "tl_playback (resetHostDriftTracking a) = tl_playback a" "lastHostAnchorUpdateMs (resetHostDriftTracking a) = lastHostAnchorUpdateMs a"
  "hostDriftSamples (resetHostDriftTracking a) = 0"
  by (simp_all add: resetHostDriftTracking_def)

lemma set_anchor_fields [simp]:
  "tl_playback (set_anchor pos t a) = (tl_playback a)\<lparr>AnchorPositionMs := pos, AnchorServerTimeMs := t\<rparr>"
  "lastHostAnchorUpdateMs (set_anchor pos t a) = lastHostAnchorUpdateMs a" "hostDriftSamples (set_anchor pos t a) = hostDriftSamples a"
  by (simp_all add: set_anchor_def)

lemma set_phase_fields [simp]:
  "tl_playback (set_phase x a) = (tl_playback a)\<lparr>Phase := x\<rparr>"
  "lastHostAnchorUpdateMs (set_phase x a) = lastHostAnchorUpdateMs a" "hostDriftSamples (set_phase x a) = hostDriftSamples a"
  by (simp_all add: set_phase_def)

lemma next_revision_fields [simp]:
  "tl_playback (next_revision a) = (tl_playback a)\<lparr>Revision := Revision (tl_playback a) + 1\<rparr>"
  "lastHostAnchorUpdateMs (next_revision a) = lastHostAnchorUpdateMs a" "hostDriftSamples (next_revision a) = hostDriftSamples a"
  by (simp_all add: next_revision_def)

lemma count_drift_fields [simp]:
  "tl_playback (count_drift d a) = tl_playback a" "lastHostAnchorUpdateMs (count_drift d a) = lastHostAnchorUpdateMs a"
  by (simp_all add: count_drift_def)

text \<open>A sample that is accepted moves the anchor to it; one that is not leaves the timeline alone.\<close>

lemma sample_cases:
  obtains (accepted) a1 where "acceptHostAnchorSample now pos paused ready a =
      (True, resetHostDriftTracking ((set_anchor pos now a1)\<lparr>lastHostAnchorUpdateMs := now\<rparr>))"
    "tl_playback a1 = tl_playback a" "1 \<le> hostDriftSamples a" "HostDriftThresholdMs \<le> \<bar>pos - Expected (tl_playback a) now\<bar>"
    "0 < lastHostAnchorUpdateMs a \<longrightarrow> lastHostAnchorUpdateMs a + HostAnchorMinIntervalMs \<le> now"
  | (ignored) a1 where "acceptHostAnchorSample now pos paused ready a = (False, a1)" "tl_playback a1 = tl_playback a"
    "lastHostAnchorUpdateMs a1 = lastHostAnchorUpdateMs a"
    "hostDriftSamples a1 = 0 \<or> hostDriftSamples a1 = 1 \<or> hostDriftSamples a1 = hostDriftSamples a + 1"
proof -
  show ?thesis
  proof (cases "Phase (tl_playback a) \<noteq> Playing \<or> paused \<or> ready < 3 \<or> \<bar>pos - Expected (tl_playback a) now\<bar> < HostDriftThresholdMs")
    case True
    show ?thesis by (rule ignored [of "resetHostDriftTracking a"]) (use True in \<open>auto simp: acceptHostAnchorSample_def Let_def\<close>)
  next
    case False
    define a1 where "a1 = count_drift (if pos - Expected (tl_playback a) now < 0 then - 1 else 1) a"
    have a1: "hostDriftSamples a1 = 1 \<or> hostDriftSamples a1 = hostDriftSamples a + 1" by (simp add: a1_def count_drift_def)
    let ?early = "lastHostAnchorUpdateMs a > 0 \<and> now - lastHostAnchorUpdateMs a < HostAnchorMinIntervalMs"
    show ?thesis
    proof (cases "hostDriftSamples a1 < HostDriftConfirmations \<or> ?early")
      case True
      show ?thesis
        by (rule ignored [of a1]) (use False True a1 in \<open>auto simp: acceptHostAnchorSample_def Let_def a1_def\<close>)
    next
      case yes: False
      show ?thesis
        by (rule accepted [of a1]) (use False yes a1 in \<open>auto simp: acceptHostAnchorSample_def Let_def a1_def server_consts\<close>)
    qed
  qed
qed

lemma either_way: "(b \<Longrightarrow> Q x) \<Longrightarrow> (\<not> b \<Longrightarrow> Q y) \<Longrightarrow> Q (if b then x else y)"
  by simp

text \<open>The results of the \<open>switch\<close>, for proofs that do not look at the command.\<close>

lemma playback_switch_cases:
  assumes play: "\<And>ph t'. Q (Inr True, set_anchor (p_PositionMs p) t' (set_phase ph (resetHostDriftTracking a)))"
    and seek: "\<And>t' n. Q (Inr True, set_anchor (p_PositionMs p) t'
        ((resetHostDriftTracking a)\<lparr>tl_playback := (tl_playback a)\<lparr>TimelineEpoch := n\<rparr>\<rparr>))"
    and rate: "validRate (p_PlaybackRate p) \<Longrightarrow> Q (Inr True, set_anchor (Expected (tl_playback a) now) now
        ((resetHostDriftTracking a)\<lparr>tl_playback := (tl_playback a)\<lparr>PlaybackRate := p_PlaybackRate p\<rparr>\<rparr>))"
    and buffering: "Q (Inr True, set_anchor (p_PositionMs p) now
        ((resetHostDriftTracking a)\<lparr>tl_playback := (tl_playback a)\<lparr>Phase := Buffering, ResumeIntent := Some Playing\<rparr>\<rparr>))"
    and ready: "Q (Inr True, set_anchor (AnchorPositionMs (tl_playback a)) (now + ScheduleLeadMs) (set_phase Playing (resetHostDriftTracking a)))"
    and kept: "\<And>x. x \<noteq> Inr True \<Longrightarrow> Q (x, resetHostDriftTracking a)" "\<And>x. x \<noteq> Inr True \<Longrightarrow> Q (x, a)"
    and sample: "t = ''telemetry.host.playback'' \<Longrightarrow>
        Q (let (ok, a1) = acceptHostAnchorSample now (p_PositionMs p) (p_Paused p) (p_ReadyState p) a in (Inr ok, a1))"
  shows "Q (playback_switch now t p a)"
  unfolding playback_switch_def Let_def
  by (intro either_way [where Q = Q] play seek buffering ready kept)
    (simp_all add: kept rate sample [unfolded Let_def])

lemma playback_switch_ok:
  assumes "timeline_ok (tl_playback a)" and "0 \<le> p_PositionMs p"
  shows "timeline_ok (tl_playback (snd (playback_switch now t p a)))"
proof -
  have e: "0 \<le> Expected (tl_playback a) now" using assms(1) by (simp add: Expected_nonneg timeline_ok_def)
  show ?thesis
  proof (rule playback_switch_cases [of "\<lambda>r. timeline_ok (tl_playback (snd r))" p a now t])
    show "timeline_ok (tl_playback (snd (let (ok, a1) =
        acceptHostAnchorSample now (p_PositionMs p) (p_Paused p) (p_ReadyState p) a in (Inr ok, a1))))"
      by (cases rule: sample_cases [of now "p_PositionMs p" "p_Paused p" "p_ReadyState p" a])
        (use assms in \<open>simp_all add: timeline_ok_def\<close>)
  qed (use assms e in \<open>simp_all add: timeline_ok_def\<close>)
qed

lemma playback_command_ok:
  assumes "timeline_ok (tl_playback a)"
  shows "timeline_ok (tl_playback (snd (playback_command now t p a)))"
  using playback_switch_ok [OF assms, of p now t] assms
  by (auto simp: playback_command_def timeline_ok_def split: prod.splits sum.splits bool.splits)

text \<open>A command either leaves the published state as it is, or says that it has changed and gives it the next revision.\<close>

lemma playback_switch_unchanged:
  "fst (playback_switch now t p a) \<noteq> Inr True \<longrightarrow> tl_playback (snd (playback_switch now t p a)) = tl_playback a"
  by (rule playback_switch_cases [of "\<lambda>r. fst r \<noteq> Inr True \<longrightarrow> tl_playback (snd r) = tl_playback a"])
    (simp_all add: Let_def, cases rule: sample_cases [of now "p_PositionMs p" "p_Paused p" "p_ReadyState p" a], simp_all)

lemma playback_switch_revision: "Revision (tl_playback (snd (playback_switch now t p a))) = Revision (tl_playback a)"
  by (rule playback_switch_cases [of "\<lambda>r. Revision (tl_playback (snd r)) = Revision (tl_playback a)"])
    (simp_all add: Let_def, cases rule: sample_cases [of now "p_PositionMs p" "p_Paused p" "p_ReadyState p" a], simp_all)

lemma playback_switch_more: "Timeline.more (snd (playback_switch now t p a)) = Timeline.more a"
  by (rule playback_switch_cases [of "\<lambda>r. Timeline.more (snd r) = Timeline.more a"])
    (simp_all add: Let_def resetHostDriftTracking_def set_anchor_def set_phase_def acceptHostAnchorSample_def count_drift_def)

lemma playback_command_more: "Timeline.more (snd (playback_command now t p a)) = Timeline.more a"
  using playback_switch_more [of now t p a]
  by (auto simp: playback_command_def next_revision_def split: prod.splits sum.splits bool.splits)

lemma playback_command_revision:
  "fst (playback_command now t p a) = Inr True \<Longrightarrow> Revision (tl_playback (snd (playback_command now t p a))) = Revision (tl_playback a) + 1"
  "fst (playback_command now t p a) \<noteq> Inr True \<Longrightarrow> tl_playback (snd (playback_command now t p a)) = tl_playback a"
  using playback_switch_revision [of now t p a] playback_switch_unchanged [of now t p a]
  by (auto simp: playback_command_def split: prod.splits sum.splits bool.splits if_splits)

section \<open>The host's samples move the anchor rarely\<close>

type_synonym command = "int \<times> string \<times> Payload"

fun run_commands :: "command list \<Rightarrow> 'a Timeline_scheme \<Rightarrow> int list \<times> 'a Timeline_scheme" where
  "run_commands [] a = ([], a)"
| "run_commands ((now, t, p) # cs) a =
     (let (x, a1) = playback_command now t p a; (rs, a2) = run_commands cs a1
      in (if t = ''telemetry.host.playback'' \<and> x = Inr True then now # rs else rs, a2))"

text \<open>The times of the refreshes, and the samples.\<close>

definition refreshes :: "command list \<Rightarrow> 'a Timeline_scheme \<Rightarrow> int list" where
  "refreshes cs a = fst (run_commands cs a)"

definition telemetry_count :: "command list \<Rightarrow> nat" where
  "telemetry_count cs = length (filter (\<lambda>(now, t, p). t = ''telemetry.host.playback'') cs)"

lemma refreshes_Cons:
  "refreshes ((now, t, p) # cs) a =
     (if t = ''telemetry.host.playback'' \<and> fst (playback_command now t p a) = Inr True then [now] else []) @
     refreshes cs (snd (playback_command now t p a))"
  by (cases "playback_command now t p a") (auto simp: refreshes_def split: prod.splits)

lemma command_tracking:
  assumes "t \<noteq> ''telemetry.host.playback''"
  shows "lastHostAnchorUpdateMs (snd (playback_command now t p a)) = lastHostAnchorUpdateMs a"
    and "hostDriftSamples (snd (playback_command now t p a)) \<in> {0, hostDriftSamples a}"
  using assms by (auto simp: playback_command_def playback_switch_def Let_def split: if_splits)

lemma sample_tracking:
  obtains (refreshed) "fst (playback_command now ''telemetry.host.playback'' p a) = Inr True"
    "hostDriftSamples (snd (playback_command now ''telemetry.host.playback'' p a)) = 0"
    "lastHostAnchorUpdateMs (snd (playback_command now ''telemetry.host.playback'' p a)) = now"
    "1 \<le> hostDriftSamples a" "0 < lastHostAnchorUpdateMs a \<longrightarrow> lastHostAnchorUpdateMs a + HostAnchorMinIntervalMs \<le> now"
  | (kept) "fst (playback_command now ''telemetry.host.playback'' p a) \<noteq> Inr True"
    "lastHostAnchorUpdateMs (snd (playback_command now ''telemetry.host.playback'' p a)) = lastHostAnchorUpdateMs a"
    "hostDriftSamples (snd (playback_command now ''telemetry.host.playback'' p a)) \<in> {0, 1, hostDriftSamples a, hostDriftSamples a + 1}"
proof (cases "p_PositionMs p < 0 \<or> DurationMs (tl_playback a) > 0 \<and> p_PositionMs p > DurationMs (tl_playback a) + 1000")
  case True
  then show ?thesis by (intro kept) (auto simp: playback_command_def)
next
  case False
  then have c: "playback_command now ''telemetry.host.playback'' p a =
      (let (ok, a1) = acceptHostAnchorSample now (p_PositionMs p) (p_Paused p) (p_ReadyState p) a
       in (Inr ok, if ok then next_revision a1 else a1))"
    by (auto simp: playback_command_def playback_switch_def Let_def split: prod.splits bool.splits)
  show ?thesis
    by (cases rule: sample_cases [of now "p_PositionMs p" "p_Paused p" "p_ReadyState p" a])
      (use c refreshed kept in \<open>auto simp: Let_def\<close>)
qed

lemma refreshes_spaced:
  assumes "sorted (map fst cs)" and "\<forall>c \<in> set cs. 0 < fst c" and "\<forall>c \<in> set cs. lastHostAnchorUpdateMs a \<le> fst c"
    and "0 \<le> lastHostAnchorUpdateMs a"
  shows "sorted_wrt (\<lambda>x y. x + HostAnchorMinIntervalMs \<le> y)
           ((if lastHostAnchorUpdateMs a = 0 then [] else [lastHostAnchorUpdateMs a]) @ refreshes cs a)"
  using assms
proof (induction cs arbitrary: a)
  case (Cons c cs)
  obtain now t p where c: "c = (now, t, p)" by (cases c)
  let ?a = "snd (playback_command now t p a)"
  have later: "sorted (map fst cs)" "\<forall>c \<in> set cs. 0 < fst c" "\<forall>c \<in> set cs. now \<le> fst c" and now: "0 < now" "lastHostAnchorUpdateMs a \<le> now"
    using Cons.prems by (auto simp: c)
  have keep: "sorted_wrt (\<lambda>x y. x + HostAnchorMinIntervalMs \<le> y)
      ((if lastHostAnchorUpdateMs a = 0 then [] else [lastHostAnchorUpdateMs a]) @ refreshes cs ?a)"
    if "lastHostAnchorUpdateMs ?a = lastHostAnchorUpdateMs a"
    using Cons.IH [of ?a] later now that Cons.prems(4) by force
  show ?case
  proof (cases "t = ''telemetry.host.playback''")
    case False
    then show ?thesis using keep [OF command_tracking(1) [OF False]] by (simp add: c refreshes_Cons)
  next
    case True
    show ?thesis
    proof (cases rule: sample_tracking [of now p a])
      case refreshed
      have "sorted_wrt (\<lambda>x y. x + HostAnchorMinIntervalMs \<le> y) (now # refreshes cs ?a)"
        using Cons.IH [of ?a] later now refreshed(3) by (simp add: True split: if_splits)
      moreover have "now + HostAnchorMinIntervalMs \<le> y" if "y \<in> set (refreshes cs ?a)" for y
        using calculation that by simp
      ultimately show ?thesis using refreshed(1,5) Cons.prems(4) by (force simp: c refreshes_Cons True server_consts)
    next
      case kept
      then show ?thesis using keep by (simp add: c refreshes_Cons True)
    qed
  qed
qed (simp add: refreshes_def)

lemma refreshes_counted:
  assumes "0 \<le> hostDriftSamples a"
  shows "2 * int (length (refreshes cs a)) \<le> int (telemetry_count cs) + min 1 (hostDriftSamples a)"
  using assms
proof (induction cs arbitrary: a)
  case (Cons c cs)
  obtain now t p where c: "c = (now, t, p)" by (cases c)
  let ?a = "snd (playback_command now t p a)"
  show ?case
  proof (cases "t = ''telemetry.host.playback''")
    case False
    then show ?thesis using Cons.IH [of ?a] command_tracking(2) [OF False, of now p a] Cons.prems
      by (auto simp: c refreshes_Cons telemetry_count_def)
  next
    case True
    show ?thesis
      by (cases rule: sample_tracking [of now p a])
        (use Cons.IH [of ?a] Cons.prems in \<open>auto simp: c refreshes_Cons telemetry_count_def True\<close>)
  qed
qed (simp add: refreshes_def telemetry_count_def)

text \<open>
  C37. The host's telemetry is no feedback loop: however the host's samples and the commands of the playback are
  mixed, two refreshes of the anchor by telemetry are at least fifteen seconds apart, at least two samples
  are spent on each, and so their number is bounded by the length of the run.
\<close>

theorem host_anchor_rare:
  assumes "sorted (map fst cs)" and "\<forall>c \<in> set cs. 0 < fst c" and "hostDriftSamples a = 0" and "lastHostAnchorUpdateMs a = 0"
  shows "sorted_wrt (\<lambda>x y. x + 15000 \<le> y) (refreshes cs a) \<and> 2 * length (refreshes cs a) \<le> telemetry_count cs"
proof
  have "\<forall>c \<in> set cs. lastHostAnchorUpdateMs a \<le> fst c" using assms(2,4) by auto
  from refreshes_spaced [OF assms(1,2) this] assms(4) show "sorted_wrt (\<lambda>x y. x + 15000 \<le> y) (refreshes cs a)"
    by (simp add: server_consts)
  show "2 * length (refreshes cs a) \<le> telemetry_count cs" using refreshes_counted [of a cs] assms(3) by simp
qed

definition demo_playback :: ServerPlayback where
  "demo_playback = \<lparr>Phase = Playing, AnchorPositionMs = 1000, AnchorServerTimeMs = 1000, PlaybackRate = 1, DurationMs = 0,
     MediaID = ''m'', Revision = 3, TimelineEpoch = 1, ResumeIntent = None\<rparr>"

definition demo_timeline :: Timeline where
  "demo_timeline = \<lparr>tl_playback = demo_playback, hostDriftSamples = 0, hostDriftDirection = 0, lastHostAnchorUpdateMs = 0\<rparr>"

definition demo_sample :: "int \<Rightarrow> Payload" where
  "demo_sample pos = \<lparr>p_PositionMs = pos, p_PlaybackRate = 0, p_Paused = False, p_ReadyState = 4, p_TargetUserID = [], p_MediaID = [], p_DurationMs = 0\<rparr>"

definition demo_telemetry :: "command list" where
  "demo_telemetry = map (\<lambda>(now, pos). (now, ''telemetry.host.playback'', demo_sample pos)) [(2000, 3000), (7000, 8000), (12000, 14000), (17000, 20000)]"

theorem host_anchor_rare_witness:
  "refreshes demo_telemetry demo_timeline = [7000] \<and> 2 * length (refreshes demo_telemetry demo_timeline) \<le> 4"
proof -
  have "sorted (map fst demo_telemetry)" by code_simp
  moreover have "\<forall>c \<in> set demo_telemetry. 0 < fst c" by code_simp
  moreover have "hostDriftSamples demo_timeline = 0" "lastHostAnchorUpdateMs demo_timeline = 0" by code_simp+
  ultimately have "2 * length (refreshes demo_telemetry demo_timeline) \<le> telemetry_count demo_telemetry"
    using host_anchor_rare [of demo_telemetry demo_timeline] by blast
  moreover have "telemetry_count demo_telemetry = 4" "refreshes demo_telemetry demo_timeline = [7000]" by code_simp+
  ultimately show ?thesis by simp
qed

end
