(* ===== verification/Types.thy ===== *)
theory Types
  imports JS_Prelude
begin

text \<open>
  The data of the HTTP interface that the pages share, \<open>web/src/types.ts\<close>. An optional property is an
  \<open>option\<close>; a union of string literals is a datatype.
\<close>

datatype user_role = USER | SUPER_ADMIN

record Identity =
  id_role :: "user_role option"
  id_username :: "string option"
  id_id :: string
  id_nickname :: string
  id_roomId :: "string option"
  id_guest :: bool

datatype room_status = OPEN_ROOM | HOST_DISCONNECTED | CLOSED_STATUS

record Room =
  rm_id :: string
  rm_code :: string
  rm_title :: string
  hostUserId :: string
  rm_mediaId :: "string option"
  rm_status :: room_status
  maxMembers :: rat
  rm_createdAtMs :: rat

record Media =
  md_id :: string
  originalFilename :: string
  mimeType :: string
  md_sizeBytes :: rat
  md_durationMs :: "rat option"
  md_status :: string

datatype role = Host_role | Member_role
datatype mkind = User_kind | Guest_kind

record Member =
  mb_id :: string
  nickname :: string
  mb_role :: role
  mb_kind :: mkind
  online :: bool
  mb_ready :: bool

record ChatMessage =
  cm_id :: string
  cm_senderId :: string
  cm_senderNickname :: string
  cm_senderKind :: string
  cm_content :: string
  mediaPositionMs :: "rat option"
  createdAtMs :: rat

text \<open>
  The error line of a page: empty, one of its own texts, the message of an error that was thrown, or
  the \<open>TypeError\<close> of reading a property of \<open>undefined\<close>.
\<close>

datatype page_error = No_error | Room_closed_text | Maintenance_text | Error_text string | Type_error

end
