(* ===== verification/RoomActor.thy ===== *)
theory RoomActor
  imports ServerPlayback Types "HOL-Library.AList"
begin

text \<open>
  The room on the server, \<open>internal/rooms/actor.go\<close>: one goroutine that owns the room, its members and its
  timeline, and takes its messages one after the other. A message is handled in one step with one reading of
  the clock. The database, and whether a connection's buffer is full, are given per step; a connection is a
  number. The order of a Go map is not fixed: the list of members is one such order. The grace timer of an
  absent host sends a message, which arrives at any later time. The envelope's own time stamp and revision,
  and the moment a member joined, are left out: nobody reads them.
\<close>

section \<open>The room\<close>

record ServerRoom =
  sr_ID :: string
  sr_Title :: string
  sr_HostUserID :: string
  sr_Status :: room_status
  sr_MediaID :: "string option"
  sr_MaxMembers :: int

record RtMember =
  rt_identity :: Identity
  rt_client :: nat
  rt_ready :: bool

record Checkpoint =
  ck_MediaID :: "string option"
  ck_PositionMs :: int
  ck_PlaybackRate :: rat
  ck_Phase :: PlaybackPhase

datatype db_call =
    UpdateRoomStatus room_status
  | TransferHost string string
  | DeleteGuestSession string
  | LeaveMember string
  | CloseRoom
  | SetRoomMedia string
  | ReopenRoom
  | UpdateRoomTitle string
  | UpdateMediaMetadata string int int int
  | SaveCheckpoint Checkpoint

datatype server_event =
    Ev_snapshot ServerRoom ServerPlayback "Member list"
  | Ev_member_joined Identity
  | Ev_member_left string
  | Ev_playback ServerPlayback
  | Ev_host_changed string
  | Ev_room_closed
  | Ev_room_updated string
  | Ev_shutdown
  | Ev_other string

datatype actor_out =
    Deliver nat server_event
  | Disconnect nat nat
  | Db db_call

text \<open>\<open>ac_timers\<close> are the armed grace timers with the host they wait for, \<open>ac_hostTimer\<close> the one the actor
  remembers, \<open>ac_expiring\<close> the messages of timers that have run out.\<close>

record Actor = Timeline +
  ac_room :: ServerRoom
  ac_members :: "(string \<times> RtMember) list"
  ac_clients :: int
  ac_timers :: "(nat \<times> string) list"
  ac_hostTimer :: "nat option"
  ac_nextTimer :: nat
  ac_expiring :: "string list"
  ac_stopped :: bool
  ac_out :: "actor_out list"

record senv =
  se_now :: int
  se_slow :: "nat \<Rightarrow> bool"
  se_fails :: "db_call \<Rightarrow> string option"
  se_dbMembers :: "string list"

definition member_at :: "string \<Rightarrow> Actor \<Rightarrow> RtMember option" where
  "member_at i a = map_of (ac_members a) i"

section \<open>Talking to the outside\<close>

definition act :: "actor_out list \<Rightarrow> Actor \<Rightarrow> Actor" where
  "act xs a = a\<lparr>ac_out := ac_out a @ xs\<rparr>"

definition send_to :: "senv \<Rightarrow> nat \<Rightarrow> server_event \<Rightarrow> actor_out list" where
  "send_to e c ev = (if se_slow e c then [] else [Deliver c ev])"

definition broadcast_to :: "senv \<Rightarrow> server_event \<Rightarrow> (string \<times> RtMember) list \<Rightarrow> actor_out list" where
  "broadcast_to e ev ms =
     concat (map (\<lambda>(i, m). if se_slow e (rt_client m) then [Disconnect (rt_client m) 1013] else [Deliver (rt_client m) ev]) ms)"

definition broadcast :: "senv \<Rightarrow> server_event \<Rightarrow> Actor \<Rightarrow> Actor" where
  "broadcast e ev a = act (broadcast_to e ev (ac_members a)) a"

definition persistCheckpoint :: "senv \<Rightarrow> Actor \<Rightarrow> Actor" where
  "persistCheckpoint e a =
     (let s = tl_playback a in
      act [Db (SaveCheckpoint \<lparr>ck_MediaID = sr_MediaID (ac_room a),
             ck_PositionMs = (if Phase s = Playing then Expected s (se_now e) else AnchorPositionMs s),
             ck_PlaybackRate = PlaybackRate s, ck_Phase = Phase s\<rparr>)] a)"

definition member_view :: "ServerRoom \<Rightarrow> string \<times> RtMember \<Rightarrow> Member" where
  "member_view r x =
     (case x of (i, m) \<Rightarrow>
        \<lparr>mb_id = id_id (rt_identity m), nickname = id_nickname (rt_identity m),
         mb_role = (if id_id (rt_identity m) = sr_HostUserID r then Host_role else Member_role),
         mb_kind = (if id_guest (rt_identity m) then Guest_kind else User_kind), online = True, mb_ready = rt_ready m\<rparr>)"

text \<open>The host comes first.\<close>

definition snapshot_members :: "Actor \<Rightarrow> Member list" where
  "snapshot_members a =
     (let l = map (member_view (ac_room a)) (ac_members a)
      in filter (\<lambda>m. mb_role m = Host_role) l @ filter (\<lambda>m. mb_role m \<noteq> Host_role) l)"

definition snapshot :: "Actor \<Rightarrow> server_event" where
  "snapshot a = Ev_snapshot (ac_room a) (tl_playback a) (snapshot_members a)"

definition set_status :: "room_status \<Rightarrow> Actor \<Rightarrow> Actor" where
  "set_status st a = a\<lparr>ac_room := (ac_room a)\<lparr>sr_Status := st\<rparr>\<rparr>"

definition set_host :: "string \<Rightarrow> Actor \<Rightarrow> Actor" where
  "set_host i a = a\<lparr>ac_room := (ac_room a)\<lparr>sr_HostUserID := i\<rparr>\<rparr>"

text \<open>The state with the next revision, told to everyone; \<open>f\<close> is what has changed.\<close>

definition publish :: "senv \<Rightarrow> (ServerPlayback \<Rightarrow> ServerPlayback) \<Rightarrow> Actor \<Rightarrow> Actor" where
  "publish e f a =
     (let s = f (tl_playback a); s' = s\<lparr>Revision := Revision s + 1\<rparr>
      in broadcast e (Ev_playback s') (a\<lparr>tl_playback := s'\<rparr>))"

section \<open>Joining and leaving\<close>

definition NewActor :: "ServerRoom \<Rightarrow> Checkpoint option \<Rightarrow> Actor" where
  "NewActor r ck =
     (let pb = \<lparr>Phase = (case sr_MediaID r of None \<Rightarrow> No_media | Some m \<Rightarrow> Paused), AnchorPositionMs = 0,
                AnchorServerTimeMs = 0, PlaybackRate = 1, DurationMs = 0,
                MediaID = (case sr_MediaID r of None \<Rightarrow> [] | Some m \<Rightarrow> m), Revision = 0, TimelineEpoch = 0, ResumeIntent = None\<rparr>;
          pb' = (case ck of None \<Rightarrow> pb
                 | Some c \<Rightarrow> pb\<lparr>MediaID := (case ck_MediaID c of None \<Rightarrow> [] | Some m \<Rightarrow> m), AnchorPositionMs := ck_PositionMs c,
                              PlaybackRate := ck_PlaybackRate c, Phase := Paused\<rparr>)
      in \<lparr>tl_playback = pb', hostDriftSamples = 0, hostDriftDirection = 0, lastHostAnchorUpdateMs = 0, ac_room = r,
          ac_members = [], ac_clients = 0, ac_timers = [], ac_hostTimer = None, ac_nextTimer = 0, ac_expiring = [],
          ac_stopped = False, ac_out = []\<rparr>)"

definition stop_hostTimer :: "Actor \<Rightarrow> Actor" where
  "stop_hostTimer a =
     (case ac_hostTimer a of None \<Rightarrow> a | Some h \<Rightarrow> a\<lparr>ac_timers := filter (\<lambda>(k, i). k \<noteq> h) (ac_timers a)\<rparr>)"

definition host_returns :: "senv \<Rightarrow> Actor \<Rightarrow> Actor" where
  "host_returns e a = act [Db (UpdateRoomStatus OPEN_ROOM)] (set_status OPEN_ROOM (stop_hostTimer a))"

definition join_room_as :: "senv \<Rightarrow> Identity \<Rightarrow> nat \<Rightarrow> Actor \<Rightarrow> server_error option \<times> Actor" where
  "join_room_as e i c a =
     (if sr_Status (ac_room a) = CLOSED_STATUS then (Some ROOM_CLOSED, a)
      else if member_at (id_id i) a = None \<and> int (length (ac_members a)) \<ge> sr_MaxMembers (ac_room a) then (Some ROOM_FULL, a)
      else
        let a1 = (case member_at (id_id i) a of
                    Some old \<Rightarrow> act [Disconnect (rt_client old) 4001] a
                  | None \<Rightarrow> a\<lparr>ac_clients := ac_clients a + 1\<rparr>);
            a2 = a1\<lparr>ac_members := AList.update (id_id i) \<lparr>rt_identity = i, rt_client = c, rt_ready = False\<rparr> (ac_members a1)\<rparr>;
            a3 = (if id_id i = sr_HostUserID (ac_room a2) \<and> sr_Status (ac_room a2) = HOST_DISCONNECTED then host_returns e a2 else a2)
        in (None, broadcast e (Ev_member_joined i) (act (send_to e c (snapshot a3)) a3)))"

text \<open>The host has left an open room: the room is paused where it is, and the grace timer is armed.\<close>

definition host_leaves :: "senv \<Rightarrow> string \<Rightarrow> Actor \<Rightarrow> Actor" where
  "host_leaves e i a =
     (let now = se_now e;
          a1 = act [Db (UpdateRoomStatus HOST_DISCONNECTED)] (set_status HOST_DISCONNECTED a);
          a2 = publish e (\<lambda>s. s\<lparr>AnchorPositionMs := Expected s now, AnchorServerTimeMs := now, Phase := Paused\<rparr>) a1;
          a3 = persistCheckpoint e a2
      in a3\<lparr>ac_hostTimer := Some (ac_nextTimer a3), ac_timers := ac_timers a3 @ [(ac_nextTimer a3, i)],
            ac_nextTimer := Suc (ac_nextTimer a3)\<rparr>)"

definition leave_room_as :: "senv \<Rightarrow> string \<Rightarrow> nat option \<Rightarrow> Actor \<Rightarrow> Actor" where
  "leave_room_as e i c a =
     (case member_at i a of
        None \<Rightarrow> a
      | Some m \<Rightarrow>
          if c \<noteq> None \<and> c \<noteq> Some (rt_client m) then a
          else
            let a1 = broadcast e (Ev_member_left i) (a\<lparr>ac_members := AList.delete i (ac_members a), ac_clients := ac_clients a - 1\<rparr>)
            in if i = sr_HostUserID (ac_room a1) \<and> sr_Status (ac_room a1) = OPEN_ROOM then host_leaves e i a1 else a1)"

text \<open>The first user of the room, in the order of the database, that is here and not a guest.\<close>

definition successor :: "senv \<Rightarrow> string \<Rightarrow> Actor \<Rightarrow> string option" where
  "successor e hostID a =
     List.find (\<lambda>i. i \<noteq> hostID \<and> (case member_at i a of None \<Rightarrow> False | Some m \<Rightarrow> \<not> id_guest (rt_identity m))) (se_dbMembers e)"

definition expire_host :: "senv \<Rightarrow> string \<Rightarrow> Actor \<Rightarrow> Actor" where
  "expire_host e hostID a =
     (if sr_Status (ac_room a) \<noteq> HOST_DISCONNECTED \<or> sr_HostUserID (ac_room a) \<noteq> hostID then a
      else case successor e hostID a of
             None \<Rightarrow> a
           | Some next \<Rightarrow>
               broadcast e (Ev_host_changed next)
                 (act [Db (TransferHost (sr_HostUserID (ac_room a)) next)] (set_status OPEN_ROOM (set_host next a))))"

section \<open>Commands\<close>

type_synonym reply = "server_error + ServerPlayback option"

definition is_admin_command :: "string \<Rightarrow> bool" where
  "is_admin_command t \<longleftrightarrow> take 9 t = ''cmd.room.''"

definition client_ready :: "senv \<Rightarrow> Identity \<Rightarrow> json \<Rightarrow> Actor \<Rightarrow> reply \<times> Actor" where
  "client_ready e i v a =
     (case decode_ready v of
        None \<Rightarrow> (Inl INVALID_COMMAND, a)
      | Some p \<Rightarrow>
          let a1 = (case member_at (id_id i) a of
                      None \<Rightarrow> a
                    | Some m \<Rightarrow> a\<lparr>ac_members := AList.update (id_id i) (m\<lparr>rt_ready := r_Ready p\<rparr>) (ac_members a)\<rparr>)
          in if id_id i = sr_HostUserID (ac_room a1) \<and> r_Ready p \<and> r_MediaID p = MediaID (tl_playback a1) \<and>
                r_DurationMs p > 0 \<and> r_DurationMs p \<le> 7 * 24 * 60 * 60 * 1000
             then
               let a2 = publish e (\<lambda>s. s\<lparr>DurationMs := r_DurationMs p\<rparr>)
                          (act [Db (UpdateMediaMetadata (r_MediaID p) (r_DurationMs p) (r_VideoWidth p) (r_VideoHeight p))] a1)
               in (Inr (Some (tl_playback a2)), a2)
             else (Inr None, a1))"

definition transfer_host :: "senv \<Rightarrow> Payload \<Rightarrow> Actor \<Rightarrow> reply \<times> Actor" where
  "transfer_host e p a =
     (case member_at (p_TargetUserID p) a of
        None \<Rightarrow> (Inl INVALID_COMMAND, a)
      | Some target \<Rightarrow>
          if id_guest (rt_identity target) then (Inl INVALID_COMMAND, a)
          else
            let call = TransferHost (sr_HostUserID (ac_room a)) (p_TargetUserID p); a1 = act [Db call] a
            in case se_fails e call of
                 Some m \<Rightarrow> (Inl (DB_error m), a1)
               | None \<Rightarrow> (Inr None, broadcast e (Ev_host_changed (p_TargetUserID p)) (set_host (p_TargetUserID p) a1)))"

definition kick_member :: "senv \<Rightarrow> Payload \<Rightarrow> Actor \<Rightarrow> reply \<times> Actor" where
  "kick_member e p a =
     (case member_at (p_TargetUserID p) a of
        None \<Rightarrow> (Inl INVALID_COMMAND, a)
      | Some target \<Rightarrow>
          if p_TargetUserID p = sr_HostUserID (ac_room a) then (Inl INVALID_COMMAND, a)
          else
            let a1 = a\<lparr>ac_members := AList.delete (p_TargetUserID p) (ac_members a), ac_clients := ac_clients a - 1\<rparr>;
                a2 = act [Db (if id_guest (rt_identity target) then DeleteGuestSession (p_TargetUserID p) else LeaveMember (p_TargetUserID p)),
                          Disconnect (rt_client target) 1008] a1
            in (Inr None, broadcast e (Ev_member_left (p_TargetUserID p)) a2))"

definition close_room_now :: "senv \<Rightarrow> Actor \<Rightarrow> reply \<times> Actor" where
  "close_room_now e a =
     (let a1 = act [Db CloseRoom] (set_status CLOSED_STATUS a) in
      case se_fails e CloseRoom of
        Some m \<Rightarrow> (Inl (DB_error m), a1)
      | None \<Rightarrow>
          let a2 = broadcast e Ev_room_closed a1;
              a3 = act (map (\<lambda>(i, m). Disconnect (rt_client m) 1000) (ac_members a2)) a2
          in (Inr None, a3\<lparr>ac_members := [], ac_clients := 0\<rparr>))"

definition set_media :: "senv \<Rightarrow> Payload \<Rightarrow> Actor \<Rightarrow> reply \<times> Actor" where
  "set_media e p a =
     (if p_MediaID p = [] \<or> p_DurationMs p < 0 then (Inl INVALID_COMMAND, a)
      else
        let a1 = act [Db (SetRoomMedia (p_MediaID p))] a in
        case se_fails e (SetRoomMedia (p_MediaID p)) of
          Some m \<Rightarrow> (Inl (DB_error m), a1)
        | None \<Rightarrow>
            let a2 = a1\<lparr>ac_room := (ac_room a1)\<lparr>sr_MediaID := Some (p_MediaID p)\<rparr>\<rparr>;
                a3 = publish e (\<lambda>s. s\<lparr>MediaID := p_MediaID p, DurationMs := p_DurationMs p, Phase := Loading, AnchorPositionMs := 0,
                       AnchorServerTimeMs := se_now e, PlaybackRate := 1, TimelineEpoch := TimelineEpoch s + 1\<rparr>) a2;
                a4 = persistCheckpoint e a3
            in (Inr (Some (tl_playback a3)), a4))"

text \<open>The commands of the playback: a change is told to everyone and saved.\<close>

definition command_playback :: "senv \<Rightarrow> string \<Rightarrow> Payload \<Rightarrow> Actor \<Rightarrow> reply \<times> Actor" where
  "command_playback e t p a =
     (case playback_command (se_now e) t p a of
        (Inl err, a1) \<Rightarrow> (Inl err, a1)
      | (Inr False, a1) \<Rightarrow> (Inr None, a1)
      | (Inr True, a1) \<Rightarrow>
          (Inr (Some (tl_playback a1)), persistCheckpoint e (broadcast e (Ev_playback (tl_playback a1)) a1)))"

definition apply_command :: "senv \<Rightarrow> Identity \<Rightarrow> string \<Rightarrow> json \<Rightarrow> Actor \<Rightarrow> reply \<times> Actor" where
  "apply_command e i t v a =
     (if member_at (id_id i) a = None \<and> \<not> is_admin_command t then (Inl NOT_MEMBER, a)
      else if t = ''client.ready'' then client_ready e i v a
      else if t = ''telemetry.member.playback'' \<or> t = ''presence.typing'' then (Inr None, a)
      else if id_id i \<noteq> sr_HostUserID (ac_room a) \<and> \<not> (is_admin_command t \<and> \<not> id_guest i \<and> id_role i = Some SUPER_ADMIN)
      then (Inl NOT_HOST, a)
      else case decode_payload v of
             None \<Rightarrow> (Inl INVALID_COMMAND, a)
           | Some p \<Rightarrow>
               if t = ''cmd.room.transfer_host'' then transfer_host e p a
               else if t = ''cmd.room.kick'' then kick_member e p a
               else if t = ''cmd.room.close'' then close_room_now e a
               else if t = ''cmd.room.media'' then set_media e p a
               else command_playback e t p a)"

section \<open>The messages of the actor\<close>

definition reopen_room :: "senv \<Rightarrow> Actor \<Rightarrow> server_error option \<times> Actor" where
  "reopen_room e a =
     (if sr_Status (ac_room a) \<noteq> CLOSED_STATUS then (None, a)
      else
        let a1 = act [Db ReopenRoom] a in
        case se_fails e ReopenRoom of
          Some m \<Rightarrow> (Some (DB_error m), a1)
        | None \<Rightarrow> (None, set_status HOST_DISCONNECTED a1))"

definition rename_room :: "senv \<Rightarrow> string \<Rightarrow> Actor \<Rightarrow> server_error option \<times> Actor" where
  "rename_room e title a =
     (let a1 = act [Db (UpdateRoomTitle title)] a in
      case se_fails e (UpdateRoomTitle title) of
        Some m \<Rightarrow> (Some (DB_error m), a1)
      | None \<Rightarrow> (None, broadcast e (Ev_room_updated title) (a1\<lparr>ac_room := (ac_room a1)\<lparr>sr_Title := title\<rparr>\<rparr>)))"

definition shut_down :: "senv \<Rightarrow> Actor \<Rightarrow> Actor" where
  "shut_down e a =
     (let a1 = stop_hostTimer a;
          a2 = act (concat (map (\<lambda>(i, m). send_to e (rt_client m) Ev_shutdown @ [Disconnect (rt_client m) 1001]) (ac_members a1))) a1
      in (persistCheckpoint e a2)\<lparr>ac_stopped := True\<rparr>)"

datatype actor_msg =
    Join_req Identity nat
  | Leave_req string "nat option"
  | Expire_host string
  | Command_req Identity string json
  | Ready_req string bool
  | Broadcast_req string
  | Checkpoint_req
  | Reopen_req
  | Rename_req string
  | Close_req
  | Grace_over nat

text \<open>\<open>Grace_over\<close> is not a message: a timer runs out and sends its own. The answer of a message that only asks
  for a snapshot is \<^const>\<open>snapshot\<close> and changes nothing.\<close>

fun receive_msg :: "senv \<Rightarrow> actor_msg \<Rightarrow> Actor \<Rightarrow> Actor" where
  "receive_msg e (Join_req i c) a = snd (join_room_as e i c a)"
| "receive_msg e (Leave_req i c) a = leave_room_as e i c a"
| "receive_msg e (Expire_host i) a = expire_host e i (a\<lparr>ac_expiring := remove1 i (ac_expiring a)\<rparr>)"
| "receive_msg e (Command_req i t v) a = snd (apply_command e i t v a)"
| "receive_msg e (Ready_req i b) a =
     (case member_at i a of
        None \<Rightarrow> a
      | Some m \<Rightarrow> a\<lparr>ac_members := AList.update i (m\<lparr>rt_ready := b\<rparr>) (ac_members a)\<rparr>)"
| "receive_msg e (Broadcast_req t) a = broadcast e (Ev_other t) a"
| "receive_msg e Checkpoint_req a = (if Phase (tl_playback a) = Playing then persistCheckpoint e a else a)"
| "receive_msg e Reopen_req a = snd (reopen_room e a)"
| "receive_msg e (Rename_req title) a = snd (rename_room e title a)"
| "receive_msg e Close_req a = shut_down e a"
| "receive_msg e (Grace_over h) a =
     (case map_of (ac_timers a) h of
        None \<Rightarrow> a
      | Some i \<Rightarrow> a\<lparr>ac_timers := filter (\<lambda>(k, j). k \<noteq> h) (ac_timers a), ac_expiring := ac_expiring a @ [i]\<rparr>)"

fun possible :: "actor_msg \<Rightarrow> Actor \<Rightarrow> bool" where
  "possible (Expire_host i) a = (i \<in> set (ac_expiring a))"
| "possible m a = True"

inductive actor_trans :: "Actor \<Rightarrow> senv \<times> actor_msg \<Rightarrow> Actor \<Rightarrow> bool" where
  actor_trans: "\<not> ac_stopped a \<Longrightarrow> possible m a \<Longrightarrow> actor_trans a (e, m) (receive_msg e m a)"

inductive_cases actor_transE: "actor_trans a l a'"

text \<open>The room starts as the database has it: with no member, and a checkpoint that a room has saved.\<close>

definition checkpoint_ok :: "Checkpoint \<Rightarrow> bool" where
  "checkpoint_ok c \<longleftrightarrow> 0 \<le> ck_PositionMs c \<and> validRate (ck_PlaybackRate c)"

definition actor_init :: "Actor \<Rightarrow> bool" where
  "actor_init a \<longleftrightarrow> (\<exists>r ck. a = NewActor r ck \<and> (case ck of None \<Rightarrow> True | Some c \<Rightarrow> checkpoint_ok c))"

abbreviation actor_reachable :: "Actor \<Rightarrow> bool" where
  "actor_reachable \<equiv> reachable actor_init actor_trans"

end
