(* ===== verification/RoomActor_Props.thy ===== *)
theory RoomActor_Props
  imports RoomActor
begin

text \<open>
  What the room on the server keeps: its books, the order of the states it publishes, who may change what, and
  what closing a room forgets.
\<close>

section \<open>The states that are published\<close>

fun event_states :: "server_event \<Rightarrow> ServerPlayback set" where
  "event_states (Ev_snapshot r s ms) = {s}"
| "event_states (Ev_playback s) = {s}"
| "event_states ev = {}"

fun out_states :: "actor_out \<Rightarrow> ServerPlayback set" where
  "out_states (Deliver c ev) = event_states ev"
| "out_states x = {}"

definition states_in :: "actor_out list \<Rightarrow> ServerPlayback set" where
  "states_in xs = (\<Union>x \<in> set xs. out_states x)"

lemma states_in_simps [simp]:
  "states_in [] = {}" "states_in (x # xs) = out_states x \<union> states_in xs" "states_in (xs @ ys) = states_in xs \<union> states_in ys"
  by (auto simp: states_in_def)

lemma states_in_disconnect [simp]: "states_in (map (\<lambda>(i, m). Disconnect (rt_client m) n) ms) = {}"
  by (auto simp: states_in_def)

lemma states_in_shutdown [simp]:
  "states_in (concat (map (\<lambda>(i, m). send_to e (rt_client m) Ev_shutdown @ [Disconnect (rt_client m) n]) ms)) = {}"
  by (auto simp: states_in_def send_to_def)

lemma states_in_broadcast [dest!]: "x \<in> states_in (broadcast_to e ev ms) \<Longrightarrow> x \<in> event_states ev"
  by (auto simp: states_in_def broadcast_to_def split: if_splits)

lemma states_in_send [dest!]: "x \<in> states_in (send_to e c ev) \<Longrightarrow> x \<in> event_states ev"
  by (simp add: send_to_def split: if_splits)

lemma snapshot_states [simp]: "event_states (snapshot a) = {tl_playback a}"
  by (simp add: snapshot_def)

abbreviation current :: "Actor \<Rightarrow> ServerPlayback" where
  "current a \<equiv> tl_playback a"

definition out_pubs :: "Actor \<Rightarrow> ServerPlayback set" where
  "out_pubs a = states_in (ac_out a)"

lemma fields [simp]:
  "ac_out (act xs a) = ac_out a @ xs" "current (act xs a) = current a" "ac_members (act xs a) = ac_members a"
  "ac_room (act xs a) = ac_room a" "ac_clients (act xs a) = ac_clients a"
  "ac_out (broadcast e ev a) = ac_out a @ broadcast_to e ev (ac_members a)" "current (broadcast e ev a) = current a"
  "ac_members (broadcast e ev a) = ac_members a" "ac_room (broadcast e ev a) = ac_room a" "ac_clients (broadcast e ev a) = ac_clients a"
  "ac_out (set_status st a) = ac_out a" "current (set_status st a) = current a" "ac_members (set_status st a) = ac_members a"
  "ac_room (set_status st a) = (ac_room a)\<lparr>sr_Status := st\<rparr>" "ac_clients (set_status st a) = ac_clients a"
  "ac_out (set_host i a) = ac_out a" "current (set_host i a) = current a" "ac_members (set_host i a) = ac_members a"
  "ac_room (set_host i a) = (ac_room a)\<lparr>sr_HostUserID := i\<rparr>" "ac_clients (set_host i a) = ac_clients a"
  by (simp_all add: act_def broadcast_def set_status_def set_host_def)

lemma fields2 [simp]:
  "states_in (ac_out (persistCheckpoint e a)) = states_in (ac_out a)" "current (persistCheckpoint e a) = current a"
  "ac_members (persistCheckpoint e a) = ac_members a" "ac_room (persistCheckpoint e a) = ac_room a" "ac_clients (persistCheckpoint e a) = ac_clients a"
  "ac_out (stop_hostTimer a) = ac_out a" "current (stop_hostTimer a) = current a" "ac_members (stop_hostTimer a) = ac_members a"
  "ac_room (stop_hostTimer a) = ac_room a" "ac_clients (stop_hostTimer a) = ac_clients a"
  by (simp_all add: persistCheckpoint_def stop_hostTimer_def Let_def split: option.splits)

lemma publish_fields [simp]:
  "current (publish e f a) = (f (current a))\<lparr>Revision := Revision (f (current a)) + 1\<rparr>"
  "ac_out (publish e f a) = ac_out a @ broadcast_to e (Ev_playback (current (publish e f a))) (ac_members a)"
  "ac_members (publish e f a) = ac_members a" "ac_room (publish e f a) = ac_room a" "ac_clients (publish e f a) = ac_clients a"
  by (simp_all add: publish_def Let_def)

text \<open>A step leaves the state as it is, or gives it the next revision; it publishes no other state than the one it ends with.\<close>

definition advances :: "Actor \<Rightarrow> Actor \<Rightarrow> bool" where
  "advances a a' \<longleftrightarrow>
     (current a' = current a \<or> Revision (current a') = Revision (current a) + 1) \<and>
     out_pubs a \<subseteq> out_pubs a' \<and> out_pubs a' \<subseteq> insert (current a') (out_pubs a)"

lemma advancesI:
  assumes "current a' = current a \<or> Revision (current a') = Revision (current a) + 1"
    and "states_in (ac_out a') = states_in (ac_out a) \<union> S" and "S \<subseteq> {current a'}"
  shows "advances a a'"
  using assms by (auto simp: advances_def out_pubs_def)

lemma no_states [simp]:
  "event_states ev = {} \<Longrightarrow> states_in (broadcast_to e ev ms) = {}" "event_states ev = {} \<Longrightarrow> states_in (send_to e c ev) = {}"
  by blast+

lemma advances_join: "advances a (snd (join_room_as e i c a))"
  by (auto simp: join_room_as_def host_returns_def advances_def out_pubs_def Let_def split: option.splits)

lemma advances_host_leaves: "advances a (host_leaves e i a)"
  by (auto simp: host_leaves_def Let_def advances_def out_pubs_def)

lemma advances_quiet: "current b = current a \<Longrightarrow> states_in (ac_out b) = states_in (ac_out a) \<Longrightarrow> advances b c \<Longrightarrow> advances a c"
  by (auto simp: advances_def out_pubs_def)

lemma advances_same: "current b = current a \<Longrightarrow> states_in (ac_out b) = states_in (ac_out a) \<Longrightarrow> advances a b"
  by (auto simp: advances_def out_pubs_def)

lemma advances_leave: "advances a (leave_room_as e i c a)"
  by (auto simp: leave_room_as_def Let_def split: option.splits intro: advances_same advances_quiet [OF _ _ advances_host_leaves])

lemma advances_expire: "advances a (expire_host e i a)"
  by (auto simp: expire_host_def Let_def split: option.splits intro: advances_same)

lemma advances_ready: "advances a (snd (client_ready e i v a))"
proof (cases "decode_ready v")
  case (Some p)
  show ?thesis
    by (auto simp: client_ready_def Some Let_def advances_def out_pubs_def split: option.splits)
qed (simp add: client_ready_def advances_same)

lemma advances_media: "advances a (snd (set_media e p a))"
  by (auto simp: set_media_def Let_def advances_def out_pubs_def split: option.splits)

lemma advances_admin:
  "advances a (snd (transfer_host e p a))" "advances a (snd (kick_member e p a))" "advances a (snd (close_room_now e a))"
  by (auto simp: transfer_host_def kick_member_def close_room_now_def Let_def split: option.splits intro!: advances_same)

lemma same_more:
  "Timeline.more b = Timeline.more a \<Longrightarrow> ac_out b = ac_out a \<and> ac_members b = ac_members a \<and> ac_room b = ac_room a \<and> ac_clients b = ac_clients a"
  for a b :: Actor
  by (cases a; cases b) simp

lemma playback_command_frame:
  "ac_out (snd (playback_command now t p a)) = ac_out a" "ac_members (snd (playback_command now t p a)) = ac_members a"
  "ac_room (snd (playback_command now t p a)) = ac_room a" "ac_clients (snd (playback_command now t p a)) = ac_clients a"
  for a :: Actor
  using same_more [OF playback_command_more [of now t p a]] by blast+

lemma command_playback_cases:
  obtains (changed) b where "command_playback e t p a =
      (Inr (Some (current b)), persistCheckpoint e (broadcast e (Ev_playback (current b)) b))"
    "b = snd (playback_command (se_now e) t p a)" "fst (playback_command (se_now e) t p a) = Inr True"
  | (kept) "snd (command_playback e t p a) = snd (playback_command (se_now e) t p a)"
    "fst (playback_command (se_now e) t p a) \<noteq> Inr True"
proof (cases "playback_command (se_now e) t p a")
  case (Pair x b)
  show ?thesis
  proof (cases "x = Inr True")
    case True
    show ?thesis by (rule changed [of b]) (simp_all add: command_playback_def Pair True)
  next
    case False
    show ?thesis by (rule kept) (use False in \<open>simp_all add: command_playback_def Pair split: sum.splits bool.splits\<close>)
  qed
qed

lemma advances_playback: "advances a (snd (command_playback e t p a))"
proof (cases rule: command_playback_cases [of e t p a])
  case (changed b)
  have "ac_out b = ac_out a" "Revision (current b) = Revision (current a) + 1"
    using playback_command_frame(1) [of "se_now e" t p a] playback_command_revision(1) [OF changed(3)] by (simp_all add: changed(2))
  then show ?thesis by (auto simp: changed(1) advances_def out_pubs_def)
next
  case kept
  then show ?thesis
    using playback_command_frame(1) [of "se_now e" t p a] playback_command_revision(2) [OF kept(2)] by (simp add: advances_same)
qed

lemma advances_apply: "advances a (snd (apply_command e i t v a))"
proof -
  have "advances a a" by (rule advances_same) simp_all
  then show ?thesis
    by (simp add: apply_command_def advances_ready advances_media advances_admin advances_playback split: option.splits)
qed

lemma advances_msg: "advances a (receive_msg e m a)"
proof (cases m)
  case (Expire_host i)
  show ?thesis unfolding Expire_host receive_msg.simps by (rule advances_quiet [OF _ _ advances_expire]) simp_all
qed (auto simp: advances_join advances_leave advances_apply reopen_room_def rename_room_def shut_down_def Let_def
      split: option.splits intro!: advances_same)

section \<open>The invariant\<close>

definition pubs_ok :: "Actor \<Rightarrow> bool" where
  "pubs_ok a \<longleftrightarrow>
     0 \<le> Revision (current a) \<and>
     (\<forall>s \<in> out_pubs a. Revision s \<le> Revision (current a) \<and> (Revision s = Revision (current a) \<longrightarrow> s = current a)) \<and>
     (\<forall>s \<in> out_pubs a. \<forall>t \<in> out_pubs a. Revision s = Revision t \<longrightarrow> s = t)"

lemma pubs_ok_advances:
  assumes "pubs_ok a" and "advances a a'"
  shows "pubs_ok a'"
proof -
  have sub: "out_pubs a' \<subseteq> insert (current a') (out_pubs a)" using assms(2) by (simp add: advances_def)
  have old: "Revision s \<le> Revision (current a)" "Revision s = Revision (current a) \<Longrightarrow> s = current a" if "s \<in> out_pubs a" for s
    using assms(1) that by (simp_all add: pubs_ok_def)
  have one: "s = t" if "s \<in> out_pubs a" "t \<in> out_pubs a" "Revision s = Revision t" for s t
    using assms(1) that by (simp add: pubs_ok_def)
  have newest: "Revision s \<le> Revision (current a')" "Revision s = Revision (current a') \<Longrightarrow> s = current a'"
    if "s \<in> out_pubs a'" for s
  proof -
    have "s = current a' \<or> s \<in> out_pubs a" using sub that by blast
    moreover have "current a' = current a \<or> Revision (current a') = Revision (current a) + 1" using assms(2) by (simp add: advances_def)
    ultimately show "Revision s \<le> Revision (current a')" "Revision s = Revision (current a') \<Longrightarrow> s = current a'"
      using old [of s] by auto
  qed
  have "s = t" if "s \<in> out_pubs a'" "t \<in> out_pubs a'" "Revision s = Revision t" for s t
  proof (cases "s = current a' \<or> t = current a'")
    case True
    then show ?thesis using newest(2) [OF that(1)] newest(2) [OF that(2)] that(3) by auto
  next
    case False
    then show ?thesis using sub that one [of s t] by blast
  qed
  moreover have "0 \<le> Revision (current a')" using assms by (auto simp: advances_def pubs_ok_def)
  ultimately show ?thesis using newest unfolding pubs_ok_def by blast
qed

text \<open>The roll: one entry for a member, filed under the identity, counted, and no more than fit.\<close>

definition roll_ok :: "int \<Rightarrow> int \<Rightarrow> (string \<times> RtMember) list \<Rightarrow> bool" where
  "roll_ok most n ms \<longleftrightarrow>
     distinct (map fst ms) \<and> n = int (length ms) \<and> int (length ms) \<le> max 0 most \<and> (\<forall>(i, m) \<in> set ms. id_id (rt_identity m) = i)"

definition books_ok :: "Actor \<Rightarrow> bool" where
  "books_ok a \<longleftrightarrow> roll_ok (sr_MaxMembers (ac_room a)) (ac_clients a) (ac_members a) \<and> timeline_ok (current a)"

lemma length_update: "length (AList.update k v xs) = (if map_of xs k = None then Suc (length xs) else length xs)"
  by (induction xs) auto

lemma length_delete: "distinct (map fst xs) \<Longrightarrow> map_of xs k = Some v \<Longrightarrow> length xs = Suc (length (AList.delete k xs))"
proof (induction xs)
  case (Cons x xs)
  obtain j w where x: "x = (j, w)" by (cases x)
  show ?case
  proof (cases "j = k")
    case True
    with Cons.prems have "k \<notin> fst ` set xs" by (auto simp: x)
    then show ?thesis using True by (simp add: x)
  next
    case False
    then show ?thesis using Cons by (auto simp: x)
  qed
qed simp

lemma set_update: "set (AList.update k v xs) \<subseteq> insert (k, v) (set xs)"
  by (induction xs) auto

lemma set_delete: "set (AList.delete k xs) \<subseteq> set xs"
  by (auto simp: AList.delete_eq)

lemma roll_change:
  assumes "roll_ok most n ms" and "map_of ms i = Some old" and "id_id (rt_identity m) = i"
  shows "roll_ok most n (AList.update i m ms)"
  using assms set_update [of i m ms] by (auto simp: roll_ok_def length_update distinct_update)

lemma roll_add:
  assumes "roll_ok most n ms" and "map_of ms i = None" and "id_id (rt_identity m) = i" and "int (length ms) < most"
  shows "roll_ok most (n + 1) (AList.update i m ms)"
  using assms set_update [of i m ms] by (auto simp: roll_ok_def length_update distinct_update)

lemma roll_remove:
  assumes "roll_ok most n ms" and "map_of ms i = Some m"
  shows "roll_ok most (n - 1) (AList.delete i ms)"
proof -
  have "length ms = Suc (length (AList.delete i ms))" using assms by (intro length_delete) (simp_all add: roll_ok_def)
  then show ?thesis using assms(1) set_delete [of i ms] by (auto simp: roll_ok_def distinct_delete)
qed

lemma books_same:
  "books_ok a \<Longrightarrow> ac_members b = ac_members a \<Longrightarrow> ac_clients b = ac_clients a \<Longrightarrow> sr_MaxMembers (ac_room b) = sr_MaxMembers (ac_room a) \<Longrightarrow>
   timeline_ok (current b) \<Longrightarrow> books_ok b"
  by (simp add: books_ok_def)

lemma books_timeline: "books_ok a \<Longrightarrow> timeline_ok (current a)"
  by (simp add: books_ok_def)

lemma books_join:
  assumes "books_ok a"
  shows "books_ok (snd (join_room_as e i c a))"
proof (cases "member_at (id_id i) a")
  case None
  then show ?thesis using assms
    by (auto simp: join_room_as_def host_returns_def Let_def books_ok_def member_at_def intro!: roll_add)
next
  case (Some old)
  then show ?thesis using assms
    by (auto simp: join_room_as_def host_returns_def Let_def books_ok_def member_at_def intro!: roll_change)
qed

lemma books_host_leaves: "books_ok a \<Longrightarrow> books_ok (host_leaves e i a)"
  using Expected_nonneg [of "current a" "se_now e"] by (simp add: host_leaves_def Let_def books_ok_def timeline_ok_def)

lemma books_leave: "books_ok a \<Longrightarrow> books_ok (leave_room_as e i c a)"
proof -
  assume ok: "books_ok a"
  have "books_ok (broadcast e ev (a\<lparr>ac_members := AList.delete i (ac_members a), ac_clients := ac_clients a - 1\<rparr>))"
    if "member_at i a = Some m" for ev m
    using ok that by (simp add: books_ok_def member_at_def roll_remove)
  then show ?thesis using ok by (auto simp: leave_room_as_def Let_def books_host_leaves split: option.splits)
qed

lemma books_expire: "books_ok a \<Longrightarrow> books_ok (expire_host e i a)"
  by (auto simp: expire_host_def books_ok_def split: option.splits)

lemma books_ready_flag:
  assumes "books_ok a" and "member_at i a = Some m"
  shows "books_ok (a\<lparr>ac_members := AList.update i (m\<lparr>rt_ready := b\<rparr>) (ac_members a)\<rparr>)"
proof -
  have roll: "roll_ok (sr_MaxMembers (ac_room a)) (ac_clients a) (ac_members a)" using assms(1) by (simp add: books_ok_def)
  moreover have "(i, m) \<in> set (ac_members a)" using assms(2) by (simp add: member_at_def map_of_SomeD)
  ultimately have "id_id (rt_identity (m\<lparr>rt_ready := b\<rparr>)) = i" by (auto simp: roll_ok_def)
  from roll_change [OF roll _ this] assms show ?thesis by (simp add: books_ok_def member_at_def)
qed

lemma books_ready: "books_ok a \<Longrightarrow> books_ok (snd (client_ready e i v a))"
proof (cases "decode_ready v")
  case (Some p)
  assume ok: "books_ok a"
  define a1 where "a1 = (case member_at (id_id i) a of None \<Rightarrow> a
      | Some m \<Rightarrow> a\<lparr>ac_members := AList.update (id_id i) (m\<lparr>rt_ready := r_Ready p\<rparr>) (ac_members a)\<rparr>)"
  have ok1: "books_ok a1" using ok by (auto simp: a1_def books_ready_flag split: option.splits)
  have eq: "snd (client_ready e i v a) = a1 \<or> (0 < r_DurationMs p \<and> snd (client_ready e i v a) =
      publish e (\<lambda>s. s\<lparr>DurationMs := r_DurationMs p\<rparr>)
        (act [Db (UpdateMediaMetadata (r_MediaID p) (r_DurationMs p) (r_VideoWidth p) (r_VideoHeight p))] a1))"
    by (auto simp: client_ready_def Some Let_def a1_def)
  then show ?thesis using ok1 by (auto simp: books_ok_def timeline_ok_def)
qed (simp add: client_ready_def)

lemma books_apply: "books_ok a \<Longrightarrow> books_ok (snd (apply_command e i t v a))"
proof -
  assume ok: "books_ok a"
  have kick: "books_ok (snd (kick_member e p a))" for p
    using ok by (auto simp: kick_member_def Let_def books_ok_def member_at_def roll_remove split: option.splits)
  have close: "books_ok (snd (close_room_now e a))"
    using ok by (auto simp: close_room_now_def Let_def books_ok_def roll_ok_def split: option.splits)
  have media: "books_ok (snd (set_media e p a))" for p
    using ok by (auto simp: set_media_def Let_def books_ok_def timeline_ok_def validRate_def split: option.splits)
  have transfer: "books_ok (snd (transfer_host e p a))" for p
    using ok by (auto simp: transfer_host_def Let_def books_ok_def split: option.splits)
  have playback: "books_ok (snd (command_playback e t p a))" for p
  proof -
    have "books_ok (snd (playback_command (se_now e) t p a))"
      using ok by (simp add: books_ok_def playback_command_frame playback_command_ok)
    then show ?thesis by (cases rule: command_playback_cases [of e t p a]) (simp_all add: books_ok_def)
  qed
  show ?thesis using ok by (simp add: apply_command_def books_ready kick close media transfer playback split: option.splits)
qed

lemma books_msg:
  assumes "books_ok a"
  shows "books_ok (receive_msg e m a)"
proof (cases m)
  case (Expire_host i)
  have "books_ok (a\<lparr>ac_expiring := remove1 i (ac_expiring a)\<rparr>)" using assms by (simp add: books_ok_def)
  then show ?thesis using Expire_host books_expire by simp
next
  case (Join_req i c)
  then show ?thesis using assms by (simp add: books_join)
next
  case (Leave_req i c)
  then show ?thesis using assms by (simp add: books_leave)
next
  case (Command_req i t v)
  then show ?thesis using assms by (simp add: books_apply)
next
  case (Ready_req i b)
  then show ?thesis using assms by (simp add: books_ready_flag split: option.split)
qed (use assms in \<open>simp_all add: books_ok_def reopen_room_def rename_room_def shut_down_def Let_def split: option.splits\<close>)

definition actor_ok :: "Actor \<Rightarrow> bool" where
  "actor_ok a \<longleftrightarrow> pubs_ok a \<and> books_ok a"

lemma actor_ok_init: "actor_init a \<Longrightarrow> actor_ok a"
proof -
  assume "actor_init a"
  then obtain r ck where a: "a = NewActor r ck" "case ck of None \<Rightarrow> True | Some c \<Rightarrow> checkpoint_ok c" by (auto simp: actor_init_def)
  have "validRate 1" by (simp add: validRate_def)
  then show ?thesis using a(2)
    by (auto simp: a(1) actor_ok_def pubs_ok_def out_pubs_def books_ok_def roll_ok_def timeline_ok_def NewActor_def checkpoint_ok_def
        split: option.splits)
qed

interpretation actor_inv: invariant_system actor_init actor_trans actor_ok
proof unfold_locales
  show "actor_init a \<Longrightarrow> actor_ok a" for a by (rule actor_ok_init)
  show "actor_ok a \<Longrightarrow> actor_trans a l a' \<Longrightarrow> actor_ok a'" for a l a'
    by (auto elim!: actor_transE simp: actor_ok_def books_msg intro: pubs_ok_advances [OF _ advances_msg])
qed

text \<open>
  C36. The room on the server keeps its books: whoever joins, leaves, is replaced or removed, there is one entry
  for a member, filed under the identity; no more members than the room allows; the counter of the
  connections is their number; the timeline has a position that is not negative, a rate that is offered, and a
  duration that is not negative.
\<close>

theorem actor_books:
  assumes "actor_reachable a"
  shows "distinct (map fst (ac_members a)) \<and> ac_clients a = int (length (ac_members a)) \<and>
         int (length (ac_members a)) \<le> max 0 (sr_MaxMembers (ac_room a)) \<and>
         0 \<le> AnchorPositionMs (current a) \<and> validRate (PlaybackRate (current a)) \<and> 0 \<le> DurationMs (current a)"
  using actor_inv.inv_reachable [OF assms] by (simp add: actor_ok_def books_ok_def roll_ok_def timeline_ok_def)

text \<open>
  C7. The states of a room are a history: in whatever order members, timers, commands and answers of the database
  come, no published state is newer than the room's own, two published states with the same revision are the
  same state, and a step that changes the state gives it the next revision.
\<close>

theorem server_publishes_history:
  assumes "actor_reachable a" and "s \<in> out_pubs a"
  shows "Revision s \<le> Revision (current a) \<and> (Revision s = Revision (current a) \<longrightarrow> s = current a) \<and>
         (\<forall>t \<in> out_pubs a. Revision s = Revision t \<longrightarrow> s = t) \<and>
         (current (receive_msg e m a) = current a \<or> Revision (current (receive_msg e m a)) = Revision (current a) + 1)"
  using actor_inv.inv_reachable [OF assms(1)] assms(2) advances_msg [of a e m]
  by (simp add: actor_ok_def pubs_ok_def advances_def)

section \<open>Who moves the timeline\<close>

lemma admin_no_playback:
  assumes "is_admin_command t"
  shows "current (snd (command_playback e t p a)) = current a"
proof -
  have "t \<noteq> ''cmd.playback.play''" "t \<noteq> ''cmd.playback.pause''" "t \<noteq> ''cmd.playback.seek''" "t \<noteq> ''cmd.playback.rate''"
    "t \<noteq> ''cmd.playback.host_buffering''" "t \<noteq> ''cmd.playback.host_ready''" "t \<noteq> ''telemetry.host.playback''" "t \<noteq> ''cmd.playback.ended''"
    using assms by (auto simp: is_admin_command_def)
  then have "fst (playback_switch (se_now e) t p a) \<noteq> Inr True"
    by (simp only: playback_switch_def Let_def if_False) simp
  then have "fst (playback_command (se_now e) t p a) \<noteq> Inr True"
    by (auto simp: playback_command_def split: prod.splits sum.splits bool.splits)
  then show ?thesis
    by (cases rule: command_playback_cases [of e t p a]) (use playback_command_revision(2) in auto)
qed

lemma apply_moves:
  assumes "current (snd (apply_command e i t v a)) \<noteq> current a"
  shows "(id_id i = sr_HostUserID (ac_room a) \<and> member_at (id_id i) a \<noteq> None) \<or>
         t = ''cmd.room.media'' \<and> (id_id i = sr_HostUserID (ac_room a) \<or> \<not> id_guest i \<and> id_role i = Some SUPER_ADMIN)"
proof -
  have quiet: "current (snd (transfer_host e p a)) = current a" "current (snd (kick_member e p a)) = current a"
    "current (snd (close_room_now e a)) = current a" for p
    by (auto simp: transfer_host_def kick_member_def close_room_now_def Let_def split: option.splits)
  have ready: "current (snd (client_ready e i v a)) \<noteq> current a \<Longrightarrow> id_id i = sr_HostUserID (ac_room a)"
    by (auto simp: client_ready_def Let_def split: option.splits if_splits)
  show ?thesis
  proof (cases "is_admin_command t")
    case True
    then have "t \<noteq> ''client.ready''" by (auto simp: is_admin_command_def)
    moreover have "t = ''cmd.room.media''" if "t \<noteq> ''client.ready''"
    proof (rule ccontr)
      assume "t \<noteq> ''cmd.room.media''"
      then have "current (snd (apply_command e i t v a)) = current a"
        unfolding apply_command_def using that quiet admin_no_playback [OF True]
        by (simp only: if_False) (intro either_way [where Q = "\<lambda>r. current (snd r) = current a"]; simp split: option.split)
      then show False using assms by simp
    qed
    moreover have "id_id i = sr_HostUserID (ac_room a) \<or> \<not> id_guest i \<and> id_role i = Some SUPER_ADMIN"
    proof (rule ccontr)
      assume "\<not> ?thesis"
      then have "snd (apply_command e i t v a) = a" using calculation True by (simp add: apply_command_def)
      then show False using assms by simp
    qed
    ultimately show ?thesis by blast
  next
    case False
    have "member_at (id_id i) a \<noteq> None" using assms False by (simp add: apply_command_def split: if_splits)
    moreover have "id_id i = sr_HostUserID (ac_room a)"
    proof (cases "t = ''client.ready''")
      case True
      then show ?thesis using assms ready calculation by (simp add: apply_command_def)
    next
      case other: False
      show ?thesis
      proof (rule ccontr)
        assume "\<not> ?thesis"
        then have "snd (apply_command e i t v a) = a" using other False calculation unfolding apply_command_def
          by (simp only: if_False) (intro either_way [where Q = "\<lambda>r. snd r = a"]; simp)
        then show False using assms by simp
      qed
    qed
    ultimately show ?thesis by blast
  qed
qed

lemma media_loads:
  assumes "current (snd (apply_command e i ''cmd.room.media'' v a)) \<noteq> current a"
  shows "Phase (current (snd (apply_command e i ''cmd.room.media'' v a))) = Loading \<and>
         AnchorPositionMs (current (snd (apply_command e i ''cmd.room.media'' v a))) = 0"
  using assms by (auto simp: apply_command_def set_media_def Let_def split: option.splits if_splits)

text \<open>
  C6. Who moves the room: if a step of the room changes its state, it was a command of the current host, connected
  to the room; or the choice of a film by the host or a super administrator, in the room or not, which starts
  loading from the beginning; or the leaving of the host from an open room, which pauses it at the position it had then.
  Nobody else's command, and no joining, timer, renaming, closing or opening again, changes the state.
\<close>

theorem who_moves_the_room:
  assumes "current (receive_msg e m a) \<noteq> current a"
  shows "(\<exists>i t v. m = Command_req i t v \<and> id_id i = sr_HostUserID (ac_room a) \<and> member_at (id_id i) a \<noteq> None) \<or>
         (\<exists>i v. m = Command_req i ''cmd.room.media'' v \<and>
            (id_id i = sr_HostUserID (ac_room a) \<or> \<not> id_guest i \<and> id_role i = Some SUPER_ADMIN) \<and>
            Phase (current (receive_msg e m a)) = Loading \<and> AnchorPositionMs (current (receive_msg e m a)) = 0) \<or>
         (\<exists>c. m = Leave_req (sr_HostUserID (ac_room a)) c \<and> member_at (sr_HostUserID (ac_room a)) a \<noteq> None \<and>
            sr_Status (ac_room a) = OPEN_ROOM \<and>
            Phase (current (receive_msg e m a)) = Paused \<and>
            AnchorPositionMs (current (receive_msg e m a)) = Expected (current a) (se_now e))"
proof (cases m)
  case (Command_req i t v)
  then show ?thesis using apply_moves [of e i t v a] media_loads [of e i v a] assms by auto
next
  case (Leave_req i c)
  then show ?thesis using assms
    by (auto simp: leave_room_as_def host_leaves_def Let_def split: option.splits if_splits)
next
  case (Join_req i c)
  then show ?thesis using assms by (simp add: join_room_as_def host_returns_def Let_def split: option.splits if_splits)
next
  case (Expire_host i)
  then show ?thesis using assms by (simp add: expire_host_def Let_def split: option.splits if_splits)
qed (use assms in \<open>simp_all add: reopen_room_def rename_room_def shut_down_def Let_def split: option.splits if_splits\<close>)

section \<open>A room\<close>

definition demo_server_room :: ServerRoom where
  "demo_server_room = \<lparr>sr_ID = ''r'', sr_Title = ''t'', sr_HostUserID = ''u'', sr_Status = OPEN_ROOM, sr_MediaID = Some ''m'', sr_MaxMembers = 4\<rparr>"

definition demo_person :: "string \<Rightarrow> Identity" where
  "demo_person i = \<lparr>id_role = Some USER, id_username = Some i, id_id = i, id_nickname = i, id_roomId = None, id_guest = False\<rparr>"

definition calm :: "int \<Rightarrow> senv" where
  "calm t = \<lparr>se_now = t, se_slow = (\<lambda>c. False), se_fails = (\<lambda>c. None), se_dbMembers = [''u'', ''v'']\<rparr>"

fun actor_run :: "(senv \<times> actor_msg) list \<Rightarrow> Actor \<Rightarrow> Actor" where
  "actor_run [] a = a"
| "actor_run ((e, m) # ms) a = actor_run ms (receive_msg e m a)"

fun actor_playable :: "(senv \<times> actor_msg) list \<Rightarrow> Actor \<Rightarrow> bool" where
  "actor_playable [] a = True"
| "actor_playable ((e, m) # ms) a = (\<not> ac_stopped a \<and> possible m a \<and> actor_playable ms (receive_msg e m a))"

lemma actor_run_reachable: "actor_reachable a \<Longrightarrow> actor_playable ms a \<Longrightarrow> actor_reachable (actor_run ms a)"
  by (induction ms a rule: actor_run.induct) (auto intro: reachable_step actor_trans simp del: receive_msg.simps possible.simps)

definition demo_msgs :: "(senv \<times> actor_msg) list" where
  "demo_msgs = [(calm 1000, Join_req (demo_person ''u'') 1), (calm 2000, Join_req (demo_person ''v'') 2),
     (calm 3000, Command_req (demo_person ''u'') ''cmd.playback.play'' (JObj [(''positionMs'', JNum (Num 500))]))]"

definition demo_actor :: Actor where
  "demo_actor = actor_run demo_msgs (NewActor demo_server_room None)"

lemma demo_actor_reachable: "actor_reachable demo_actor"
  unfolding demo_actor_def
proof (rule actor_run_reachable)
  show "actor_reachable (NewActor demo_server_room None)" by (rule reachable_init) (force simp: actor_init_def)
  show "actor_playable demo_msgs (NewActor demo_server_room None)" by code_simp
qed

theorem actor_books_witness: "ac_clients demo_actor = 2 \<and> validRate (PlaybackRate (current demo_actor))"
proof -
  have "length (ac_members demo_actor) = 2" by code_simp
  with actor_books [OF demo_actor_reachable] show ?thesis by simp
qed

theorem server_publishes_history_witness: "\<exists>s. s \<in> out_pubs demo_actor \<and> Revision s = 1 \<and> Revision s \<le> Revision (current demo_actor)"
proof -
  have "list_ex (\<lambda>x. x = Deliver 2 (Ev_playback (current demo_actor))) (ac_out demo_actor)" "Revision (current demo_actor) = 1" by code_simp+
  then have p: "current demo_actor \<in> out_pubs demo_actor" "Revision (current demo_actor) = 1"
    by (auto simp: list_ex_iff out_pubs_def states_in_def intro: bexI [of _ "Deliver 2 (Ev_playback (current demo_actor))"])
  from server_publishes_history [OF demo_actor_reachable p(1)] p show ?thesis by blast
qed

theorem who_moves_the_room_witness:
  "\<exists>c. Leave_req ''u'' (Some 1) = Leave_req (sr_HostUserID (ac_room demo_actor)) c \<and> Phase (current (receive_msg (calm 9000) (Leave_req ''u'' (Some 1)) demo_actor)) = Paused"
proof -
  have "Phase (current (receive_msg (calm 9000) (Leave_req ''u'' (Some 1)) demo_actor)) = Paused" "Phase (current demo_actor) = Playing"
    by code_simp+
  then have "current (receive_msg (calm 9000) (Leave_req ''u'' (Some 1)) demo_actor) \<noteq> current demo_actor" by auto
  from who_moves_the_room [OF this] show ?thesis by blast
qed

section \<open>What closing forgets\<close>

text \<open>
  C38. A room that is closed while it plays plays on: closing does not pause the timeline as the leaving of the host
  does, so after the room has been opened again and the host has come back, the host and everyone who joins is
  sent a playing state with the old anchor, as if the film had run all the time the room was closed.
\<close>

theorem closed_room_plays_on:
  assumes "id_id h = sr_HostUserID (ac_room a)" and "Phase (current a) = Playing" and "sr_MaxMembers (ac_room a) > 0"
    and "se_fails e1 CloseRoom = None" and "se_fails e2 ReopenRoom = None" and "\<not> se_slow e3 c"
  shows "let a3 = receive_msg e3 (Join_req h c) (receive_msg e2 Reopen_req (receive_msg e1 (Command_req h ''cmd.room.close'' (JObj [])) a))
         in sr_Status (ac_room a3) = OPEN_ROOM \<and> current a3 = current a \<and>
            (\<exists>r ms. Deliver c (Ev_snapshot r (current a) ms) \<in> set (ac_out a3)) \<and>
            Expected (current a3) (se_now e3) = Expected (current a) (se_now e3)"
proof -
  let ?a1 = "receive_msg e1 (Command_req h ''cmd.room.close'' (JObj [])) a"
  have pay: "decode_payload (JObj []) \<noteq> None" by (simp add: decode_payload_def go_field_def)
  have a1: "current ?a1 = current a" "sr_Status (ac_room ?a1) = CLOSED_STATUS" "ac_members ?a1 = []"
    "sr_HostUserID (ac_room ?a1) = sr_HostUserID (ac_room a)" "sr_MaxMembers (ac_room ?a1) = sr_MaxMembers (ac_room a)"
    using assms(1,4) pay by (auto simp: apply_command_def is_admin_command_def close_room_now_def Let_def)
  let ?a2 = "receive_msg e2 Reopen_req ?a1"
  have a2: "current ?a2 = current a" "sr_Status (ac_room ?a2) = HOST_DISCONNECTED" "ac_members ?a2 = []"
    "sr_HostUserID (ac_room ?a2) = sr_HostUserID (ac_room a)" "sr_MaxMembers (ac_room ?a2) = sr_MaxMembers (ac_room a)"
    using a1 assms(5) by (simp_all add: reopen_room_def Let_def del: receive_msg.simps(4)) 
  have "current (snd (join_room_as e3 h c ?a2)) = current a" "sr_Status (ac_room (snd (join_room_as e3 h c ?a2))) = OPEN_ROOM"
    "\<exists>r ms. Deliver c (Ev_snapshot r (current a) ms) \<in> set (ac_out (snd (join_room_as e3 h c ?a2)))"
    using a2 assms(1,3,6)
    by (auto simp: join_room_as_def host_returns_def member_at_def Let_def send_to_def snapshot_def simp del: receive_msg.simps)
  then show ?thesis unfolding Let_def receive_msg.simps(1) by simp
qed

theorem closed_room_plays_on_witness:
  "Expected (current (actor_run [(calm 10000, Command_req (demo_person ''u'') ''cmd.room.close'' (JObj [])), (calm 20000, Reopen_req),
     (calm 3610000, Join_req (demo_person ''u'') 7)] demo_actor)) 3610000 = 3607150"
proof -
  have a: "id_id (demo_person ''u'') = sr_HostUserID (ac_room demo_actor)" "Phase (current demo_actor) = Playing" "sr_MaxMembers (ac_room demo_actor) > 0"
    "Expected (current demo_actor) 3610000 = 3607150"
    by code_simp+
  have "se_fails (calm 10000) CloseRoom = None" "se_fails (calm 20000) ReopenRoom = None" "\<not> se_slow (calm 3610000) 7" "se_now (calm 3610000) = 3610000"
    by (simp_all add: calm_def)
  from closed_room_plays_on [OF a(1-3) this(1-3)] this(4) a(4) show ?thesis
    by (simp add: Let_def del: receive_msg.simps)
qed

text \<open>
  A close that the database refuses shuts the door all the same: the host is told of the failure, nobody is
  told anything or disconnected, the timeline stays; but the room on the server counts as closed, so from then
  on everyone who connects, a member with a broken connection too, is refused.
\<close>

theorem failed_close_shuts_door:
  assumes "id_id h = sr_HostUserID (ac_room a)" and "se_fails e CloseRoom = Some msg"
  shows "fst (apply_command e h ''cmd.room.close'' (JObj []) a) = Inl (DB_error msg) \<and>
         (let a1 = receive_msg e (Command_req h ''cmd.room.close'' (JObj [])) a
          in ac_members a1 = ac_members a \<and> current a1 = current a \<and> ac_out a1 = ac_out a @ [Db CloseRoom] \<and>
             join_room_as e2 i c a1 = (Some ROOM_CLOSED, a1))"
proof -
  have pay: "decode_payload (JObj []) \<noteq> None" by (simp add: decode_payload_def go_field_def)
  show ?thesis using assms pay
    by (auto simp: apply_command_def is_admin_command_def close_room_now_def Let_def join_room_as_def)
qed

definition broken_db :: "int \<Rightarrow> senv" where
  "broken_db t = (calm t)\<lparr>se_fails := (\<lambda>c. if c = CloseRoom then Some ''locked'' else None)\<rparr>"

theorem failed_close_shuts_door_witness:
  "fst (join_room_as (calm 11000) (demo_person ''v'') 8 (receive_msg (broken_db 10000) (Command_req (demo_person ''u'') ''cmd.room.close'' (JObj [])) demo_actor))
     = Some ROOM_CLOSED"
proof -
  have "id_id (demo_person ''u'') = sr_HostUserID (ac_room demo_actor)" by code_simp
  moreover have "se_fails (broken_db 10000) CloseRoom = Some ''locked''" by (simp add: broken_db_def)
  ultimately show ?thesis using failed_close_shuts_door [of "demo_person ''u''" demo_actor "broken_db 10000" "''locked''" "calm 11000" "demo_person ''v''" 8]
    by (simp add: Let_def del: receive_msg.simps)
qed

text \<open>
  C39. A host who hands the room over while disconnected leaves it without a guard: the new host is connected, but
  the room still counts as one whose host is away, so when the new host starts the film and then loses the
  connection, the film is not paused, nobody is told, and no grace timer waits for a successor.
\<close>

theorem handed_over_unguarded:
  assumes "id_id h = sr_HostUserID (ac_room a)" and "sr_Status (ac_room a) = HOST_DISCONNECTED"
    and "member_at (id_id g) a = Some m" and "\<not> id_guest (rt_identity m)"
    and "se_fails e1 (TransferHost (id_id h) (id_id g)) = None" and "id_id g \<noteq> id_id h"
  shows "let a1 = receive_msg e1 (Command_req h ''cmd.room.transfer_host'' (JObj [(''targetUserId'', JStr (id_id g))])) a;
             a2 = receive_msg e2 (Command_req g ''cmd.playback.play'' (JObj [])) a1;
             a3 = receive_msg e3 (Leave_req (id_id g) None) a2
         in sr_HostUserID (ac_room a3) = id_id g \<and> member_at (id_id g) a3 = None \<and> Phase (current a3) = Playing \<and>
            ac_timers a3 = ac_timers a \<and> ac_expiring a3 = ac_expiring a"
proof -
  let ?v = "JObj [(''targetUserId'', JStr (id_id g))]"
  let ?a1 = "receive_msg e1 (Command_req h ''cmd.room.transfer_host'' ?v) a"
  have pay: "decode_payload ?v = Some \<lparr>p_PositionMs = 0, p_PlaybackRate = 0, p_Paused = False, p_ReadyState = 0,
      p_TargetUserID = id_id g, p_MediaID = [], p_DurationMs = 0\<rparr>"
    by (simp add: decode_payload_def go_field_def)
  have a1: "sr_HostUserID (ac_room ?a1) = id_id g" "sr_Status (ac_room ?a1) = HOST_DISCONNECTED" "ac_members ?a1 = ac_members a"
    "ac_timers ?a1 = ac_timers a" "ac_expiring ?a1 = ac_expiring a"
    using assms pay by (simp_all add: apply_command_def is_admin_command_def transfer_host_def Let_def)
      (simp_all add: broadcast_def act_def set_host_def)
  let ?a2 = "receive_msg e2 (Command_req g ''cmd.playback.play'' (JObj [])) ?a1"
  have pay2: "decode_payload (JObj []) = Some \<lparr>p_PositionMs = 0, p_PlaybackRate = 0, p_Paused = False, p_ReadyState = 0,
      p_TargetUserID = [], p_MediaID = [], p_DurationMs = 0\<rparr>"
    by (simp add: decode_payload_def go_field_def)
  obtain b where b: "?a2 = persistCheckpoint e2 (broadcast e2 (Ev_playback (current b)) b)" "Phase (current b) = Playing"
    "ac_members b = ac_members a" "ac_room b = ac_room ?a1" "ac_timers b = ac_timers a" "ac_expiring b = ac_expiring a"
  proof
    let ?b = "next_revision (set_anchor 0 (se_now e2 + ScheduleLeadMs) (set_phase Playing (resetHostDriftTracking ?a1)))"
    have cmd: "command_playback e2 ''cmd.playback.play'' p ?a1 =
        (Inr (Some (current ?b)), persistCheckpoint e2 (broadcast e2 (Ev_playback (current ?b)) ?b))" if "p_PositionMs p = 0" for p
    proof -
      have "playback_switch (se_now e2) ''cmd.playback.play'' p ?a1 =
          (Inr True, set_anchor 0 (se_now e2 + ScheduleLeadMs) (set_phase Playing (resetHostDriftTracking ?a1)))"
        using that by (simp add: playback_switch_def Let_def del: receive_msg.simps)
      moreover have "\<not> (p_PositionMs p < 0 \<or> DurationMs (current ?a1) > 0 \<and> p_PositionMs p > DurationMs (current ?a1) + 1000)"
        using that by linarith
      ultimately show ?thesis by (simp add: command_playback_def playback_command_def del: receive_msg.simps)
    qed
    show "?a2 = persistCheckpoint e2 (broadcast e2 (Ev_playback (current ?b)) ?b)"
      unfolding receive_msg.simps(4) [of e2 g] using a1 assms(3) cmd pay2
      by (simp add: apply_command_def is_admin_command_def member_at_def del: receive_msg.simps)
    show "Phase (current ?b) = Playing" by simp
    show "ac_members ?b = ac_members a" "ac_room ?b = ac_room ?a1" "ac_timers ?b = ac_timers a" "ac_expiring ?b = ac_expiring a"
      using a1 by (simp_all add: next_revision_def set_anchor_def set_phase_def resetHostDriftTracking_def del: receive_msg.simps)
  qed
  have t: "ac_timers (persistCheckpoint e x) = ac_timers x" "ac_timers (broadcast e ev x) = ac_timers x"
    "ac_expiring (persistCheckpoint e x) = ac_expiring x" "ac_expiring (broadcast e ev x) = ac_expiring x" for e x ev
    by (simp_all add: persistCheckpoint_def broadcast_def act_def Let_def)
  have d: "map_of (AList.delete i xs) i = None" for i and xs :: "(string \<times> RtMember) list" by (simp add: delete_conv')
  show ?thesis
    unfolding Let_def receive_msg.simps(2) [of e3] b(1)
    using b a1 assms(3) d by (simp add: leave_room_as_def member_at_def t Let_def del: receive_msg.simps)
qed

theorem handed_over_unguarded_witness:
  "Phase (current (actor_run [(calm 9000, Leave_req ''u'' (Some 1)),
     (calm 10000, Command_req (demo_person ''u'') ''cmd.room.transfer_host'' (JObj [(''targetUserId'', JStr ''v'')])),
     (calm 11000, Command_req (demo_person ''v'') ''cmd.playback.play'' (JObj [])), (calm 12000, Leave_req ''v'' None)] demo_actor)) = Playing"
proof -
  let ?a = "receive_msg (calm 9000) (Leave_req ''u'' (Some 1)) demo_actor"
  have i: "id_id (demo_person x) = x" for x by (simp add: demo_person_def)
  have "sr_HostUserID (ac_room ?a) = ''u''" "sr_Status (ac_room ?a) = HOST_DISCONNECTED"
    "member_at ''v'' ?a = Some \<lparr>rt_identity = demo_person ''v'', rt_client = 2, rt_ready = False\<rparr>"
    by code_simp+
  moreover have "se_fails (calm 10000) x = None" "\<not> id_guest (demo_person ''v'')" for x by (simp_all add: calm_def demo_person_def)
  ultimately show ?thesis
    using handed_over_unguarded [of "demo_person ''u''" ?a "demo_person ''v''" _ "calm 10000" "calm 11000" "calm 12000"]
    by (simp add: i Let_def del: receive_msg.simps)
qed

section \<open>The grace period\<close>

text \<open>
  When the grace period of an absent host ends, the first user of the room, in the order of the database, who
  is connected and no guest becomes the host of an open room, and everyone is told; if there is none, or the
  host has come back, or the room was handed over or closed meanwhile, nothing happens at all. The timeline is
  left alone, so the film is still where it was paused.
\<close>

theorem grace_period_ends:
  "let a' = expire_host e i a in
   current a' = current a \<and> ac_members a' = ac_members a \<and>
   (if sr_Status (ac_room a) = HOST_DISCONNECTED \<and> sr_HostUserID (ac_room a) = i
    then (case successor e i a of
            None \<Rightarrow> a' = a
          | Some j \<Rightarrow> j \<noteq> i \<and> (\<exists>m. member_at j a = Some m \<and> \<not> id_guest (rt_identity m)) \<and>
              (\<exists>pre post. se_dbMembers e = pre @ j # post \<and>
                 list_all (\<lambda>k. k = i \<or> (case member_at k a of None \<Rightarrow> True | Some m \<Rightarrow> id_guest (rt_identity m))) pre) \<and>
              sr_HostUserID (ac_room a') = j \<and> sr_Status (ac_room a') = OPEN_ROOM)
    else a' = a)"
proof -
  have found: "j \<noteq> i \<and> (\<exists>m. member_at j a = Some m \<and> \<not> id_guest (rt_identity m)) \<and>
      (\<exists>pre post. se_dbMembers e = pre @ j # post \<and>
         list_all (\<lambda>k. k = i \<or> (case member_at k a of None \<Rightarrow> True | Some m \<Rightarrow> id_guest (rt_identity m))) pre)"
    if suc: "successor e i a = Some j" for j
  proof -
    let ?p = "\<lambda>k. k \<noteq> i \<and> (case member_at k a of None \<Rightarrow> False | Some m \<Rightarrow> \<not> id_guest (rt_identity m))"
    obtain n where n: "n < length (se_dbMembers e)" "j = se_dbMembers e ! n" "?p j" "\<forall>k<n. \<not> ?p (se_dbMembers e ! k)"
      using suc unfolding successor_def find_Some_iff by blast
    have "se_dbMembers e = take n (se_dbMembers e) @ j # drop (Suc n) (se_dbMembers e)" using n(1,2) by (simp add: id_take_nth_drop)
    moreover have "list_all (\<lambda>k. k = i \<or> (case member_at k a of None \<Rightarrow> True | Some m \<Rightarrow> id_guest (rt_identity m))) (take n (se_dbMembers e))"
      using n(1,4) by (auto simp: list_all_length split: option.splits)
    ultimately show ?thesis using n(3) by (auto split: option.splits)
  qed
  show ?thesis
    using found by (auto simp: expire_host_def Let_def split: option.split)
qed

end
