(* ===== verification/Timers.thy ===== *)
theory Timers
  imports JS_Prelude
begin

text \<open>
  The browser's timers: \<open>setTimeout\<close>, \<open>setInterval\<close> and their \<open>clear\<close> functions. A
  handle is a positive integer that is never given out twice, so a field that holds a handle
  is truthy exactly when it is \<^term>\<open>Some h\<close>. A live timer names its callback by a value
  of the component's own type \<open>'k\<close>.

  \<open>tracks ts k rep f\<close> says that the handle field \<open>f\<close> of a component knows all live timers
  with callback \<open>k\<close>: none when the field is undefined, that one timer otherwise; and that
  they are intervals exactly when \<open>rep\<close> holds. It is the statement that the component leaks no
  timer of that kind and never runs two of them.
\<close>

record 'k timer =
  callback :: 'k
  due :: ms
  period :: "ms option"

record 'k timers =
  nextHandle :: nat
  live :: "(nat \<times> 'k timer) list"

definition noTimers :: "'k timers" where
  "noTimers = \<lparr>nextHandle = 1, live = []\<rparr>"

definition arm :: "'k \<Rightarrow> ms \<Rightarrow> ms option \<Rightarrow> 'k timers \<Rightarrow> nat \<times> 'k timers" where
  "arm k d p ts =
     (nextHandle ts,
      ts\<lparr>nextHandle := Suc (nextHandle ts),
         live := live ts @ [(nextHandle ts, \<lparr>callback = k, due = d, period = p\<rparr>)]\<rparr>)"

definition setTimeout :: "'k \<Rightarrow> ms \<Rightarrow> ms \<Rightarrow> 'k timers \<Rightarrow> nat \<times> 'k timers" where
  "setTimeout k now delay ts = arm k (now + max 0 delay) None ts"

definition setInterval :: "'k \<Rightarrow> ms \<Rightarrow> ms \<Rightarrow> 'k timers \<Rightarrow> nat \<times> 'k timers" where
  "setInterval k now p ts = arm k (now + p) (Some p) ts"

definition clearTimer :: "nat \<Rightarrow> 'k timers \<Rightarrow> 'k timers" where
  "clearTimer h ts = ts\<lparr>live := filter (\<lambda>x. fst x \<noteq> h) (live ts)\<rparr>"

text \<open>\<open>if (this.t) clearTimeout(this.t)\<close>\<close>

definition clearField :: "nat option \<Rightarrow> 'k timers \<Rightarrow> 'k timers" where
  "clearField f ts = (case f of None \<Rightarrow> ts | Some h \<Rightarrow> clearTimer h ts)"

text \<open>The browser runs a live timer whose time has come: a timeout disappears before its
  callback runs, an interval is armed again.\<close>

definition expire :: "nat \<Rightarrow> ms \<Rightarrow> 'k timers \<Rightarrow> ('k \<times> 'k timers) option" where
  "expire h now ts =
     (case map_of (live ts) h of
        None \<Rightarrow> None
      | Some t \<Rightarrow>
          if due t \<le> now then
            Some (callback t,
              case period t of
                None \<Rightarrow> clearTimer h ts
              | Some p \<Rightarrow>
                  ts\<lparr>live := map (\<lambda>x. if fst x = h then (h, t\<lparr>due := now + p\<rparr>) else x) (live ts)\<rparr>)
          else None)"

definition timers_wf :: "'k timers \<Rightarrow> bool" where
  "timers_wf ts \<longleftrightarrow> distinct (map fst (live ts)) \<and> (\<forall>x \<in> set (live ts). fst x < nextHandle ts)"

definition handles_of :: "'k \<Rightarrow> 'k timers \<Rightarrow> nat list" where
  "handles_of k ts = map fst (filter (\<lambda>x. callback (snd x) = k) (live ts))"

definition tracks :: "'k timers \<Rightarrow> 'k \<Rightarrow> bool \<Rightarrow> nat option \<Rightarrow> bool" where
  "tracks ts k rep f \<longleftrightarrow>
     handles_of k ts = (case f of None \<Rightarrow> [] | Some h \<Rightarrow> [h]) \<and>
     (\<forall>x \<in> set (live ts). callback (snd x) = k \<longrightarrow> (period (snd x) \<noteq> None) = rep)"

section \<open>Laws\<close>

lemma timers_wf_noTimers [simp]: "timers_wf noTimers"
  by (simp add: timers_wf_def noTimers_def)

lemma tracks_noTimers [simp]: "tracks noTimers k rep None"
  by (simp add: tracks_def handles_of_def noTimers_def)

lemma timers_wf_arm: "timers_wf ts \<Longrightarrow> timers_wf (snd (arm k d p ts))"
  by (auto simp: timers_wf_def arm_def)

lemma handles_of_arm:
  "handles_of k' (snd (arm k d p ts)) =
     handles_of k' ts @ (if k' = k then [fst (arm k d p ts)] else [])"
  by (auto simp: handles_of_def arm_def)

lemma timers_wf_clearTimer: "timers_wf ts \<Longrightarrow> timers_wf (clearTimer h ts)"
  by (auto simp: timers_wf_def clearTimer_def distinct_map_filter)

lemma handles_of_clearTimer:
  "handles_of k (clearTimer h ts) = filter (\<lambda>i. i \<noteq> h) (handles_of k ts)"
  by (simp add: handles_of_def clearTimer_def filter_map comp_def conj_commute)

lemma handles_of_disjoint:
  assumes "timers_wf ts" and "h \<in> set (handles_of k ts)" and "h \<in> set (handles_of k' ts)"
  shows "k = k'"
proof -
  from assms(2,3) obtain t t' where t: "(h, t) \<in> set (live ts)" "callback t = k"
    and t': "(h, t') \<in> set (live ts)" "callback t' = k'"
    by (auto simp: handles_of_def)
  from assms(1) have "distinct (map fst (live ts))"
    by (simp add: timers_wf_def)
  with t(1) t'(1) have "t = t'"
    by (metis eq_key_imp_eq_value)
  with t(2) t'(2) show ?thesis by simp
qed

lemma tracks_clearTimer_diff:
  assumes "timers_wf ts" and "h \<in> set (handles_of k ts)" and "k' \<noteq> k" and "tracks ts k' rep f"
  shows "tracks (clearTimer h ts) k' rep f"
proof -
  from assms(1-3) have "h \<notin> set (handles_of k' ts)"
    using handles_of_disjoint by metis
  then have "filter (\<lambda>i. i \<noteq> h) (handles_of k' ts) = handles_of k' ts"
    by (auto simp: filter_id_conv)
  with assms(4) show ?thesis
    by (auto simp: tracks_def handles_of_clearTimer) (auto simp: clearTimer_def)
qed

lemma tracks_clearTimer_self: "tracks ts k rep (Some h) \<Longrightarrow> tracks (clearTimer h ts) k rep None"
  by (auto simp: tracks_def handles_of_clearTimer) (auto simp: clearTimer_def)

text \<open>The interface a component with timer fields relies on.\<close>

locale timer_service =
  fixes wf :: "'t \<Rightarrow> bool"
    and trk :: "'t \<Rightarrow> 'k \<Rightarrow> bool \<Rightarrow> nat option \<Rightarrow> bool"
    and start :: "'k \<Rightarrow> ms \<Rightarrow> ms option \<Rightarrow> 't \<Rightarrow> nat \<times> 't"
    and stop :: "nat option \<Rightarrow> 't \<Rightarrow> 't"
  assumes wf_start: "wf ts \<Longrightarrow> wf (snd (start k d p ts))"
    and wf_stop: "wf ts \<Longrightarrow> wf (stop f ts)"
    and trk_start:
      "trk ts k (p \<noteq> None) None \<Longrightarrow>
         trk (snd (start k d p ts)) k (p \<noteq> None) (Some (fst (start k d p ts)))"
    and trk_start_other: "k' \<noteq> k \<Longrightarrow> trk ts k' r f \<Longrightarrow> trk (snd (start k d p ts)) k' r f"
    and trk_stop: "wf ts \<Longrightarrow> trk ts k r f \<Longrightarrow> trk (stop f ts) k r None"
    and trk_stop_other:
      "wf ts \<Longrightarrow> trk ts k r f \<Longrightarrow> k' \<noteq> k \<Longrightarrow> trk ts k' r' f' \<Longrightarrow> trk (stop f ts) k' r' f'"
begin

lemma wf_restart: "wf ts \<Longrightarrow> wf (snd (start k d p (stop f ts)))"
  by (simp add: wf_start wf_stop)

lemma trk_restart:
  "wf ts \<Longrightarrow> trk ts k (p \<noteq> None) f \<Longrightarrow>
     trk (snd (start k d p (stop f ts))) k (p \<noteq> None) (Some (fst (start k d p (stop f ts))))"
  by (rule trk_start) (rule trk_stop)

lemma trk_restart_other:
  "wf ts \<Longrightarrow> trk ts k r f \<Longrightarrow> k' \<noteq> k \<Longrightarrow> trk ts k' r' f' \<Longrightarrow>
     trk (snd (start k d p (stop f ts))) k' r' f'"
  by (auto intro: trk_start_other trk_stop_other)

end

interpretation tsv: timer_service timers_wf tracks arm clearField
proof unfold_locales
  fix ts :: "'a timers" and k k' d p f f' r r'
  show "timers_wf ts \<Longrightarrow> timers_wf (snd (arm k d p ts))"
    by (rule timers_wf_arm)
  show "timers_wf ts \<Longrightarrow> timers_wf (clearField f ts)"
    by (auto simp: clearField_def timers_wf_clearTimer split: option.splits)
  show "tracks ts k (p \<noteq> None) None \<Longrightarrow>
      tracks (snd (arm k d p ts)) k (p \<noteq> None) (Some (fst (arm k d p ts)))"
    by (simp add: tracks_def handles_of_arm) (simp add: arm_def)
  show "k' \<noteq> k \<Longrightarrow> tracks ts k' r f \<Longrightarrow> tracks (snd (arm k d p ts)) k' r f"
    by (auto simp: tracks_def handles_of_arm) (auto simp: arm_def)
  show "timers_wf ts \<Longrightarrow> tracks ts k r f \<Longrightarrow> tracks (clearField f ts) k r None"
    by (cases f) (simp_all add: clearField_def tracks_clearTimer_self)
  show "timers_wf ts \<Longrightarrow> tracks ts k r f \<Longrightarrow> k' \<noteq> k \<Longrightarrow> tracks ts k' r' f' \<Longrightarrow>
      tracks (clearField f ts) k' r' f'"
    using tracks_clearTimer_diff [of ts _ k k' r' f']
    by (cases f) (auto simp: clearField_def tracks_def [of ts k])
qed

lemmas timer_laws = tsv.wf_start tsv.wf_stop tsv.trk_start_other tsv.trk_stop tsv.trk_stop_other

text \<open>Expiry: the callback was live and due; a timeout is gone afterwards, an interval stays.\<close>

lemma expire_live:
  assumes "expire h now ts = Some (k, ts')"
  shows "h \<in> set (handles_of k ts)"
    and "\<exists>t. (h, t) \<in> set (live ts) \<and> callback t = k \<and> due t \<le> now"
proof -
  from assms obtain t where t: "map_of (live ts) h = Some t" "callback t = k" "due t \<le> now"
    by (auto simp: expire_def split: option.splits if_splits)
  from map_of_SomeD [OF t(1)] t(2,3) show "h \<in> set (handles_of k ts)"
    and "\<exists>t. (h, t) \<in> set (live ts) \<and> callback t = k \<and> due t \<le> now"
    by (force simp: handles_of_def)+
qed

lemma expire_timeout:
  assumes "expire h now ts = Some (k, ts')" and "tracks ts k False f"
  shows "ts' = clearTimer h ts" and "f = Some h"
proof -
  from assms(1) obtain t where t: "map_of (live ts) h = Some t" "callback t = k"
    by (auto simp: expire_def split: option.splits if_splits)
  from map_of_SomeD [OF t(1)] t(2) assms(2) have "period t = None"
    by (force simp: tracks_def)
  with assms(1) t show "ts' = clearTimer h ts"
    by (auto simp: expire_def split: if_splits)
  from expire_live(1) [OF assms(1)] assms(2) show "f = Some h"
    by (auto simp: tracks_def split: option.splits)
qed

lemma expire_timeout_field:
  "expire h now ts = Some (k, ts') \<Longrightarrow> tracks ts k False f \<Longrightarrow> ts' = clearField f ts"
  using expire_timeout by (fastforce simp: clearField_def)

lemma expire_interval:
  assumes wf: "timers_wf ts" and ex: "expire h now ts = Some (k, ts')" and tr: "tracks ts k True f"
  shows "timers_wf ts'" and "tracks ts' k' r' f' = tracks ts k' r' f'"
proof -
  from ex obtain t where t: "map_of (live ts) h = Some t" "callback t = k"
    by (auto simp: expire_def split: option.splits if_splits)
  from map_of_SomeD [OF t(1)] t(2) tr obtain p where p: "period t = Some p"
    by (force simp: tracks_def)
  define g where "g = (\<lambda>x. if fst x = h then (h, t\<lparr>due := now + p\<rparr>) else x)"
  from ex t p have ts': "ts' = ts\<lparr>live := map g (live ts)\<rparr>"
    by (auto simp: expire_def g_def split: if_splits)
  have same: "fst (g x) = fst x \<and> callback (snd (g x)) = callback (snd x)
      \<and> (period (snd (g x)) = None) = (period (snd x) = None)" if "x \<in> set (live ts)" for x
  proof (cases "fst x = h")
    case True
    with that wf t(1) have "snd x = t"
      by (metis map_of_eq_Some_iff option.inject prod.collapse timers_wf_def)
    with True p show ?thesis by (simp add: g_def)
  qed (simp add: g_def)
  have keys: "map (fst \<circ> g) (live ts) = map fst (live ts)"
    using same by simp
  from same have "\<forall>x \<in> set (live ts). fst (g x) = fst x" by blast
  with wf keys show "timers_wf ts'"
    by (simp add: timers_wf_def ts' del: map_eq_conv)
  have "handles_of k' ts' = handles_of k' ts"
    using same by (auto simp: handles_of_def ts' filter_map comp_def cong: filter_cong)
  then show "tracks ts' k' r' f' = tracks ts k' r' f'"
    using same by (simp add: tracks_def ts' del: not_None_eq)
qed

end
