(* ===== verification/ClockSynchronizer.thy ===== *)
theory ClockSynchronizer
  imports JS_Prelude "HOL-Library.AList" "HOL-Library.Multiset"
begin

text \<open>
  The estimate of the server's clock, \<open>web/src/player/ClockSynchronizer.ts\<close>: a class with a
  list of samples, the pings that wait for their pong (a \<open>Map\<close>, kept in insertion order) and
  the offset between the server's Unix clock and the browser's monotonic clock. The monotonic
  clock \<open>monoNow\<close> is the argument \<open>now\<close> of each operation. \<open>Array.sort\<close> is stable, as
  \<^const>\<open>sort_key\<close> is.
\<close>

record Sample =
  rtt :: rat
  smp_offset :: rat

definition MAX_SAMPLES :: nat where "MAX_SAMPLES = 12"
definition MAX_VALID_RTT_MS :: rat where "MAX_VALID_RTT_MS = 5000"
definition OFFSET_NOISE_FLOOR_MS :: rat where "OFFSET_NOISE_FLOOR_MS = 8"
definition MAX_OFFSET_STEP_MS :: rat where "MAX_OFFSET_STEP_MS = 25"
definition OFFSET_SMOOTHING :: rat where "OFFSET_SMOOTHING = 1 / 5"

lemmas clock_consts = MAX_SAMPLES_def MAX_VALID_RTT_MS_def OFFSET_NOISE_FLOOR_MS_def
  MAX_OFFSET_STEP_MS_def OFFSET_SMOOTHING_def

record Clock =
  samples :: "Sample list"
  pending :: "(rat \<times> rat) list"
  offset :: rat

record Pong =
  clientMonoMs :: jsnum
  serverRecvUnixMs :: jsnum
  serverSendUnixMs :: jsnum

definition newClock :: "rat \<Rightarrow> rat \<Rightarrow> Clock" where
  "newClock dateNow now = \<lparr>samples = [], pending = [], offset = dateNow - now\<rparr>"

definition pingPayload :: "rat \<Rightarrow> Clock \<Rightarrow> rat \<times> Clock" where
  "pingPayload now c = (now, c\<lparr>pending := AList.update now now (pending c)\<rparr>)"

definition pending_get :: "Clock \<Rightarrow> jsnum \<Rightarrow> rat option" where
  "pending_get c k = (case k of Num a \<Rightarrow> map_of (pending c) a | _ \<Rightarrow> None)"

definition pending_delete :: "jsnum \<Rightarrow> Clock \<Rightarrow> Clock" where
  "pending_delete k c =
     (case k of Num a \<Rightarrow> c\<lparr>pending := AList.delete a (pending c)\<rparr> | _ \<Rightarrow> c)"

text \<open>The round trip of a pong, and its offset by the four time stamps.\<close>

definition pong_rtt :: "rat \<Rightarrow> rat \<Rightarrow> Pong \<Rightarrow> jsnum" where
  "pong_rtt clientSend clientReceive p =
     Num clientReceive - Num clientSend - (serverSendUnixMs p - serverRecvUnixMs p)"

definition pong_offset :: "rat \<Rightarrow> rat \<Rightarrow> Pong \<Rightarrow> jsnum" where
  "pong_offset clientSend clientReceive p =
     js_scale (serverRecvUnixMs p - Num clientSend + (serverSendUnixMs p - Num clientReceive)) (1 / 2)"

definition valid_rtt :: "jsnum \<Rightarrow> bool" where
  "valid_rtt r \<longleftrightarrow> \<not> (\<not> isFinite r \<or> r < Num 0 \<or> r > Num MAX_VALID_RTT_MS)"

definition add_sample :: "Sample \<Rightarrow> Sample list \<Rightarrow> Sample list" where
  "add_sample s ss = take MAX_SAMPLES (sort_key rtt (ss @ [s]))"

text \<open>The median of the offsets of the (at most) five samples with the shortest round trip.\<close>

definition best_offsets :: "Sample list \<Rightarrow> rat list" where
  "best_offsets ss = sort (map smp_offset (take (min 5 (length ss)) ss))"

definition candidate :: "Sample list \<Rightarrow> rat" where
  "candidate ss = best_offsets ss ! (length (best_offsets ss) div 2)"

definition slew :: "rat \<Rightarrow> rat \<Rightarrow> rat" where
  "slew cand off =
     (let delta = cand - off in
      if \<bar>delta\<bar> \<le> OFFSET_NOISE_FLOOR_MS then off
      else off + max (- MAX_OFFSET_STEP_MS) (min MAX_OFFSET_STEP_MS (delta * OFFSET_SMOOTHING)))"

definition acceptPong :: "rat \<Rightarrow> Pong \<Rightarrow> Clock \<Rightarrow> Clock" where
  "acceptPong now p c =
     (case pending_get c (clientMonoMs p) of
        None \<Rightarrow> c
      | Some clientSend \<Rightarrow>
          let c1 = pending_delete (clientMonoMs p) c;
              r = pong_rtt clientSend now p
          in if \<not> valid_rtt r then c1
             else
               let ss = add_sample \<lparr>rtt = finite_part r,
                          smp_offset = finite_part (pong_offset clientSend now p)\<rparr> (samples c1);
                   c2 = c1\<lparr>samples := ss\<rparr>
               in if length ss = 1 then c2\<lparr>offset := candidate ss\<rparr>
                  else c2\<lparr>offset := slew (candidate ss) (offset c2)\<rparr>)"

definition serverNow :: "rat \<Rightarrow> Clock \<Rightarrow> rat" where
  "serverNow now c = now + offset c"

definition resetClock :: "rat \<Rightarrow> rat \<Rightarrow> Clock \<Rightarrow> Clock" where
  "resetClock dateNow now c = c\<lparr>samples := [], pending := [], offset := dateNow - now\<rparr>"

definition sampleCount :: "Clock \<Rightarrow> nat" where
  "sampleCount c = length (samples c)"

text \<open>A run of the class between two resets: pings and pongs at given monotonic times.\<close>

datatype clock_event = Ping rat | PongAt rat Pong

fun clock_step :: "clock_event \<Rightarrow> Clock \<Rightarrow> Clock" where
  "clock_step (Ping now) c = snd (pingPayload now c)"
| "clock_step (PongAt now p) c = acceptPong now p c"

text \<open>The reference: every sample the run accepts, in order of arrival.\<close>

fun accepted :: "Clock \<Rightarrow> clock_event list \<Rightarrow> Sample list" where
  "accepted c [] = []"
| "accepted c (e # es) =
     (case e of
        Ping _ \<Rightarrow> []
      | PongAt now p \<Rightarrow>
          (case pending_get c (clientMonoMs p) of
             None \<Rightarrow> []
           | Some clientSend \<Rightarrow>
               let r = pong_rtt clientSend now p in
               if valid_rtt r
               then [\<lparr>rtt = finite_part r, smp_offset = finite_part (pong_offset clientSend now p)\<rparr>]
               else []))
     @ accepted (clock_step e c) es"

section \<open>Lemmas\<close>

subsection \<open>Sorting into a bounded list\<close>

lemma sort_key_snoc:
  fixes f :: "'a \<Rightarrow> 'b::linorder"
  shows "sort_key f (xs @ [x]) =
    takeWhile (\<lambda>y. f y \<le> f x) (sort_key f xs) @ x # dropWhile (\<lambda>y. f y \<le> f x) (sort_key f xs)"
    (is "_ = ?ys")
proof (rule properties_for_sort_key)
  let ?s = "sort_key f xs" and ?P = "\<lambda>y. f y \<le> f x"
  have split: "takeWhile ?P ?s @ dropWhile ?P ?s = ?s" by simp
  then have "mset (takeWhile ?P ?s) + mset (dropWhile ?P ?s) = mset xs"
    by (metis mset_append mset_sort)
  then show "mset ?ys = mset (xs @ [x])" by simp
  have after: "f x < f y" if "y \<in> set (dropWhile ?P ?s)" for y
  proof -
    have ne: "dropWhile ?P ?s \<noteq> []" using that by (metis empty_iff list.set(1))
    then have "f x < f (hd (dropWhile ?P ?s))"
      using hd_dropWhile [of ?P ?s] by auto
    moreover have "sorted (map f (dropWhile ?P ?s))"
      by (metis sorted_append sorted_sort_key map_append split)
    with ne that have "f (hd (dropWhile ?P ?s)) \<le> f y"
      by (cases "dropWhile ?P ?s") auto
    ultimately show ?thesis by simp
  qed
  have before: "f y \<le> f x" if "y \<in> set (takeWhile ?P ?s)" for y
    using set_takeWhileD [OF that] by simp
  have "sorted (map f (takeWhile ?P ?s))"
    by (metis sorted_append sorted_sort_key map_append split)
  moreover have "sorted (map f (dropWhile ?P ?s))"
    by (metis sorted_append sorted_sort_key map_append split)
  ultimately show "sorted (map f ?ys)"
    using before after by (force simp: sorted_append intro: less_imp_le order_trans)
  fix k assume "k \<in> set ?ys"
  have nil: "filter (\<lambda>y. f k = f y) (dropWhile ?P ?s) = []" if "f k = f x"
    using after that by (metis (mono_tags, lifting) filter_False less_irrefl)
  have "filter (\<lambda>y. f k = f y) ?s = filter (\<lambda>y. f k = f y) xs"
    using sort_key_stable [of f "f k" xs] by (simp add: eq_commute)
  then have "filter (\<lambda>y. f k = f y) (takeWhile ?P ?s) @ filter (\<lambda>y. f k = f y) (dropWhile ?P ?s)
      = filter (\<lambda>y. f k = f y) xs"
    by (metis filter_append split)
  with nil show "filter (\<lambda>y. f k = f y) ?ys = filter (\<lambda>y. f k = f y) (xs @ [x])"
    by (cases "f k = f x") auto
qed

lemma take_insert_prefix:
  "take n (takeWhile P (take n ys) @ x # dropWhile P (take n ys)) =
   take n (takeWhile P ys @ x # dropWhile P ys)"
proof (induction ys arbitrary: n)
  case (Cons y ys)
  then show ?case by (cases n) (auto simp: take_Cons split: nat.splits)
qed simp

lemma sort_key_sorted: "sorted (map f xs) \<Longrightarrow> sort_key f xs = xs"
  by (rule properties_for_sort_key) auto

lemma sorted_map_take: "sorted (map f xs) \<Longrightarrow> sorted (map f (take n xs))"
  by (metis sorted_wrt_take take_map)

text \<open>Sorting after each arrival and cutting is the same as sorting everything and cutting.\<close>

lemma take_sort_key_snoc:
  fixes f :: "'a \<Rightarrow> 'b::linorder"
  shows "take n (sort_key f (take n (sort_key f xs) @ [x])) = take n (sort_key f (xs @ [x]))"
proof -
  have "sort_key f (take n (sort_key f xs)) = take n (sort_key f xs)"
    by (simp add: sort_key_sorted sorted_map_take)
  then show ?thesis by (simp only: sort_key_snoc take_insert_prefix)
qed

lemma length_add_sample [simp]: "length (add_sample s ss) = min MAX_SAMPLES (Suc (length ss))"
  by (simp add: add_sample_def)

lemma add_sample_one: "length (add_sample s ss) = Suc 0 \<longleftrightarrow> ss = []"
  by (cases ss) (auto simp: clock_consts)

lemma set_add_sample: "set (add_sample s ss) \<subseteq> insert s (set ss)"
  unfolding add_sample_def using set_take_subset [of MAX_SAMPLES "sort_key rtt (ss @ [s])"] by auto

subsection \<open>The median candidate\<close>

lemma length_best_offsets: "length (best_offsets ss) = min 5 (length ss)"
  by (simp add: best_offsets_def)

lemma set_best_offsets: "set (best_offsets ss) \<subseteq> smp_offset ` set ss"
  by (auto simp: best_offsets_def dest: in_set_takeD)

lemma candidate_in: "ss \<noteq> [] \<Longrightarrow> candidate ss \<in> smp_offset ` set ss"
proof -
  assume "ss \<noteq> []"
  then have "length (best_offsets ss) div 2 < length (best_offsets ss)"
    by (cases ss) (auto simp: length_best_offsets)
  then have "candidate ss \<in> set (best_offsets ss)"
    unfolding candidate_def by (rule nth_mem)
  then show ?thesis using set_best_offsets by blast
qed

subsection \<open>Slewing\<close>

lemma slew_step: "\<bar>slew cand off - off\<bar> \<le> MAX_OFFSET_STEP_MS"
  by (auto simp: slew_def Let_def clock_consts max_def min_def)

lemma slew_between: "min cand off \<le> slew cand off" "slew cand off \<le> max cand off"
  by (auto simp: slew_def Let_def clock_consts max_def min_def field_simps split: if_splits)

lemma slew_progress:
  "\<bar>cand - slew cand off\<bar> \<le> max OFFSET_NOISE_FLOOR_MS (\<bar>cand - off\<bar> - 8 / 5)"
  by (auto simp: slew_def Let_def clock_consts max_def min_def abs_if field_simps split: if_splits)

lemma slew_accurate:
  "\<bar>cand - \<theta>\<bar> \<le> err \<Longrightarrow> \<bar>off - \<theta>\<bar> \<le> err \<Longrightarrow> \<bar>slew cand off - \<theta>\<bar> \<le> err"
  using slew_between [of cand off] by linarith

subsection \<open>One pong\<close>

lemma acceptPong_cases [case_names ignored rejected sampled]:
  obtains
    "pending_get c (clientMonoMs p) = None" "acceptPong now p c = c"
  | clientSend where "pending_get c (clientMonoMs p) = Some clientSend"
      "\<not> valid_rtt (pong_rtt clientSend now p)"
      "acceptPong now p c = pending_delete (clientMonoMs p) c"
  | clientSend smp where "pending_get c (clientMonoMs p) = Some clientSend"
      "valid_rtt (pong_rtt clientSend now p)"
      "smp = \<lparr>rtt = finite_part (pong_rtt clientSend now p),
              smp_offset = finite_part (pong_offset clientSend now p)\<rparr>"
      "samples (acceptPong now p c) = add_sample smp (samples c)"
      "pending (acceptPong now p c) = pending (pending_delete (clientMonoMs p) c)"
      "offset (acceptPong now p c) =
         (if samples c = [] then candidate (add_sample smp (samples c))
          else slew (candidate (add_sample smp (samples c))) (offset c))"
proof (cases "pending_get c (clientMonoMs p)")
  case None
  then show ?thesis using that(1) by (simp add: acceptPong_def)
next
  case (Some clientSend)
  have frame: "samples (pending_delete k c) = samples c" "offset (pending_delete k c) = offset c" for k
    by (simp_all add: pending_delete_def split: jsnum.splits)
  show ?thesis
  proof (cases "valid_rtt (pong_rtt clientSend now p)")
    case False
    with Some show ?thesis using that(2) by (simp add: acceptPong_def)
  next
    case True
    with Some show ?thesis
      by (intro that(3) [OF Some True refl])
         (simp_all add: acceptPong_def Let_def frame add_sample_one del: length_add_sample)
  qed
qed

lemma valid_rtt_iff: "valid_rtt r \<longleftrightarrow> (\<exists>x. r = Num x \<and> 0 \<le> x \<and> x \<le> MAX_VALID_RTT_MS)"
  by (cases r) (auto simp: valid_rtt_def)

lemma pending_get_keys:
  assumes "\<forall>k v. map_of (pending c) k = Some v \<longrightarrow> k = v" and "pending_get c x = Some cs"
  shows "x = Num cs"
  using assms by (auto simp: pending_get_def split: jsnum.splits)

lemma pending_get_delete [simp]: "pending_get (pending_delete k c) k = None"
  by (auto simp: pending_get_def pending_delete_def delete_conv' split: jsnum.splits)

section \<open>Properties\<close>

lemma samples_step:
  assumes "samples c = take MAX_SAMPLES (sort_key rtt h)"
  shows "samples (clock_step e c) = take MAX_SAMPLES (sort_key rtt (h @ accepted c [e]))"
proof (cases e)
  case (Ping now)
  with assms show ?thesis by (simp add: pingPayload_def)
next
  case (PongAt now p)
  show ?thesis
  proof (cases now p c rule: acceptPong_cases)
    case ignored
    with PongAt assms show ?thesis by simp
  next
    case (rejected cs)
    then have "samples (acceptPong now p c) = samples c"
      by (simp add: pending_delete_def split: jsnum.splits)
    with rejected(1,2) PongAt assms show ?thesis by (simp add: Let_def)
  next
    case (sampled cs smp)
    then have "samples (clock_step e c) = take MAX_SAMPLES (sort_key rtt (samples c @ [smp]))"
      by (simp add: PongAt add_sample_def)
    also have "\<dots> = take MAX_SAMPLES (sort_key rtt (h @ [smp]))"
      by (simp only: assms take_sort_key_snoc)
    also have "[smp] = accepted c [e]"
      using sampled(1-3) by (simp add: PongAt Let_def)
    finally show ?thesis .
  qed
qed

lemma accepted_Cons: "accepted c (e # es) = accepted c [e] @ accepted (clock_step e c) es"
  by simp

lemma samples_run:
  "samples c = take MAX_SAMPLES (sort_key rtt h) \<Longrightarrow>
     samples (fold clock_step es c) = take MAX_SAMPLES (sort_key rtt (h @ accepted c es))"
proof (induction es arbitrary: c h)
  case (Cons e es)
  from Cons.IH [OF samples_step [OF Cons.prems]] show ?case
    by (simp only: fold_Cons comp_apply accepted_Cons [of c e es] append_assoc)
qed simp

text \<open>
  C16. Incremental maintenance equals the reference: whatever pings and pongs arrive, the sample
  list is the twelve samples with the shortest round trip among all that were accepted since the
  reset, in stable order.
\<close>

theorem clock_samples_reference:
  "samples (fold clock_step es (newClock d n)) =
     take MAX_SAMPLES (sort_key rtt (accepted (newClock d n) es))"
  using samples_run [of "newClock d n" "[]" es] by (simp add: newClock_def)

definition honest :: "rat \<Rightarrow> rat \<Rightarrow> clock_event \<Rightarrow> bool" where
  "honest \<theta> err e =
     (case e of
        Ping _ \<Rightarrow> True
      | PongAt now p \<Rightarrow>
          (case (clientMonoMs p, serverRecvUnixMs p, serverSendUnixMs p) of
             (Num sent, Num recv, Num send) \<Rightarrow>
               \<bar>(recv - (sent + \<theta>)) - ((now + \<theta>) - send)\<bar> \<le> 2 * err
           | _ \<Rightarrow> True))"

definition accurate :: "rat \<Rightarrow> rat \<Rightarrow> Clock \<Rightarrow> bool" where
  "accurate \<theta> err c \<longleftrightarrow>
     (\<forall>s \<in> set (samples c). \<bar>smp_offset s - \<theta>\<bar> \<le> err) \<and>
     (samples c \<noteq> [] \<longrightarrow> \<bar>offset c - \<theta>\<bar> \<le> err) \<and>
     (\<forall>k v. map_of (pending c) k = Some v \<longrightarrow> k = v)"

lemma accurate_pending_delete: "accurate \<theta> err c \<Longrightarrow> accurate \<theta> err (pending_delete k c)"
  by (auto simp: accurate_def pending_delete_def delete_conv' split: jsnum.splits)

lemma honest_sample:
  assumes "honest \<theta> err (PongAt now p)" and "clientMonoMs p = Num cs"
    and "valid_rtt (pong_rtt cs now p)"
  shows "\<bar>finite_part (pong_offset cs now p) - \<theta>\<bar> \<le> err"
proof -
  from assms(3) obtain recv send where "serverRecvUnixMs p = Num recv" "serverSendUnixMs p = Num send"
    by (cases "serverRecvUnixMs p"; cases "serverSendUnixMs p")
       (auto simp: valid_rtt_iff pong_rtt_def)
  with assms(1,2) show ?thesis
    by (auto simp: honest_def pong_offset_def abs_if field_simps split: if_splits)
qed

lemma accurate_step:
  assumes acc: "accurate \<theta> err c" and hon: "honest \<theta> err e"
  shows "accurate \<theta> err (clock_step e c)"
proof (cases e)
  case (Ping now)
  with acc show ?thesis
    by (auto simp: accurate_def pingPayload_def update_conv')
next
  case (PongAt now p)
  show ?thesis
  proof (cases now p c rule: acceptPong_cases)
    case ignored
    with PongAt acc show ?thesis by simp
  next
    case (rejected cs)
    with PongAt acc show ?thesis by (simp add: accurate_pending_delete)
  next
    case (sampled cs smp)
    let ?ss = "add_sample smp (samples c)"
    from acc sampled(1) have "clientMonoMs p = Num cs"
      by (intro pending_get_keys) (auto simp: accurate_def)
    with hon PongAt sampled(2,3) have new: "\<bar>smp_offset smp - \<theta>\<bar> \<le> err"
      using honest_sample by simp
    with acc have all: "\<forall>s \<in> set ?ss. \<bar>smp_offset s - \<theta>\<bar> \<le> err"
      using set_add_sample [of smp "samples c"] by (auto simp: accurate_def)
    have ne: "?ss \<noteq> []" by (metis length_add_sample length_0_conv min_def nat.simps(3) MAX_SAMPLES_def zero_neq_numeral)
    with all have cand: "\<bar>candidate ?ss - \<theta>\<bar> \<le> err"
      using candidate_in by fastforce
    with acc sampled(6) have off: "\<bar>offset (acceptPong now p c) - \<theta>\<bar> \<le> err"
      by (auto simp: accurate_def intro: slew_accurate)
    from accurate_pending_delete [OF acc] have "\<forall>k v. map_of (pending (acceptPong now p c)) k = Some v \<longrightarrow> k = v"
      unfolding sampled(5) accurate_def by blast
    with all off sampled(4) PongAt show ?thesis by (simp add: accurate_def)
  qed
qed

lemma accurate_run:
  "accurate \<theta> err c \<Longrightarrow> \<forall>e \<in> set es. honest \<theta> err e \<Longrightarrow> accurate \<theta> err (fold clock_step es c)"
  by (induction es arbitrary: c) (auto simp: accurate_step)

text \<open>
  The estimate is accurate: let the server's clock run \<open>\<theta>\<close> ahead of the monotonic clock,
  and let every pong carry genuine time stamps whose two network delays differ by at most
  \<open>2 * err\<close>. Then, once a sample was accepted, the estimated server time is within \<open>err\<close> of
  the true one, after any sequence of pings, pongs, duplicates and unknown pongs.
\<close>

theorem clock_accuracy:
  assumes "\<forall>e \<in> set es. honest \<theta> err e"
    and "sampleCount (fold clock_step es (newClock d n)) \<noteq> 0"
  shows "\<bar>serverNow t (fold clock_step es (newClock d n)) - (t + \<theta>)\<bar> \<le> err"
proof -
  have "accurate \<theta> err (newClock d n)" by (simp add: accurate_def newClock_def)
  from accurate_run [OF this assms(1)] assms(2) show ?thesis
    by (auto simp: accurate_def serverNow_def sampleCount_def)
qed

theorem clock_accuracy_witness:
  "\<bar>serverNow 500 (fold clock_step
      [Ping 10, PongAt 60 \<lparr>clientMonoMs = Num 10, serverRecvUnixMs = Num 1030, serverSendUnixMs = Num 1030\<rparr>]
      (newClock 0 0)) - (500 + 1000)\<bar> \<le> 5"
proof -
  let ?es = "[Ping 10, PongAt 60 \<lparr>clientMonoMs = Num 10, serverRecvUnixMs = Num 1030,
      serverSendUnixMs = Num 1030\<rparr>]"
  have "\<forall>e \<in> set ?es. honest 1000 5 e" by (simp add: honest_def)
  moreover have "sampleCount (fold clock_step ?es (newClock 0 0)) \<noteq> 0"
    by (simp add: sampleCount_def newClock_def pingPayload_def acceptPong_def pending_get_def
        pending_delete_def pong_rtt_def valid_rtt_def clock_consts add_sample_def Let_def)
  ultimately show ?thesis by (rule clock_accuracy)
qed

text \<open>
  After the first sample one pong moves the estimate by at most 25 ms, so a noisy route
  change cannot make the playback target jump.
\<close>

theorem acceptPong_bounded_step:
  assumes "samples c \<noteq> []"
  shows "\<bar>serverNow t (acceptPong now p c) - serverNow t c\<bar> \<le> MAX_OFFSET_STEP_MS"
proof (cases now p c rule: acceptPong_cases)
  case (rejected cs)
  then show ?thesis
    by (simp add: serverNow_def pending_delete_def clock_consts split: jsnum.splits)
next
  case (sampled cs smp)
  with assms show ?thesis by (simp add: serverNow_def slew_step)
qed (simp add: clock_consts)

theorem acceptPong_bounded_step_witness:
  "\<bar>serverNow 0 (acceptPong 60 \<lparr>clientMonoMs = Num 10, serverRecvUnixMs = Num 1030,
        serverSendUnixMs = Num 1030\<rparr>
      \<lparr>samples = [\<lparr>rtt = 20, smp_offset = 400\<rparr>], pending = [(10, 10)], offset = 400\<rparr>)
    - serverNow 0 \<lparr>samples = [\<lparr>rtt = 20, smp_offset = 400\<rparr>], pending = [(10, 10)], offset = 400\<rparr>\<bar>
   \<le> MAX_OFFSET_STEP_MS"
  by (rule acceptPong_bounded_step) simp

text \<open>
  The slewed offset converges: while the median candidate stays at \<open>\<kappa>\<close>, an offset at most
  \<open>8 + n * 8/5\<close> ms away is within the 8 ms noise floor after \<open>n\<close> pongs.
\<close>

theorem slew_converges:
  "\<bar>\<kappa> - off\<bar> \<le> OFFSET_NOISE_FLOOR_MS + of_nat n * (8 / 5) \<Longrightarrow>
     \<bar>\<kappa> - (slew \<kappa> ^^ n) off\<bar> \<le> OFFSET_NOISE_FLOOR_MS"
proof (induction n arbitrary: off)
  case (Suc n)
  have "\<bar>\<kappa> - slew \<kappa> off\<bar> \<le> OFFSET_NOISE_FLOOR_MS + of_nat n * (8 / 5)"
    using slew_progress [of \<kappa> off] Suc.prems
    by (auto simp: field_simps max_def clock_consts split: if_splits)
  from Suc.IH [OF this] show ?case by (simp only: funpow_Suc_right comp_apply)
qed simp

theorem slew_converges_witness: "\<bar>100 - (slew 100 ^^ 60) 4\<bar> \<le> OFFSET_NOISE_FLOOR_MS"
  by (rule slew_converges) (simp add: clock_consts)

text \<open>
  A pong is counted once: delivering it again, at any later time, changes nothing.
\<close>

theorem acceptPong_idempotent: "acceptPong now' p (acceptPong now p c) = acceptPong now p c"
proof -
  have "pending_get (acceptPong now p c) (clientMonoMs p) = None"
  proof (cases now p c rule: acceptPong_cases)
    case (sampled cs smp)
    from sampled(5) show ?thesis
      using pending_get_delete [of "clientMonoMs p" c] unfolding pending_get_def by metis
  qed simp_all
  then show ?thesis by (simp add: acceptPong_def [of now'])
qed

text \<open>
  A pong whose server time stamps are missing, infinite or NaN never enters the estimate:
  neither the samples nor the offset change.
\<close>

theorem acceptPong_nonfinite:
  assumes "\<not> isFinite (serverRecvUnixMs p) \<or> \<not> isFinite (serverSendUnixMs p)"
  shows "samples (acceptPong now p c) = samples c \<and> offset (acceptPong now p c) = offset c"
proof (cases now p c rule: acceptPong_cases)
  case (rejected cs)
  then show ?thesis by (simp add: pending_delete_def split: jsnum.splits)
next
  case (sampled cs smp)
  then have "isFinite (serverSendUnixMs p - serverRecvUnixMs p)"
    by (auto simp: valid_rtt_iff pong_rtt_def isFinite_iff dest: jsnum_minus_finiteD
        intro: jsnum_minus_finiteD [of "Num now - Num cs", THEN conjunct2, unfolded isFinite_iff])
  with assms show ?thesis using jsnum_minus_finiteD by blast
qed simp

theorem acceptPong_nonfinite_witness:
  "samples (acceptPong 60 \<lparr>clientMonoMs = Num 10, serverRecvUnixMs = NaN, serverSendUnixMs = NaN\<rparr>
     \<lparr>samples = [], pending = [(10, 10)], offset = 7\<rparr>) = []"
  using acceptPong_nonfinite [of "\<lparr>clientMonoMs = Num 10, serverRecvUnixMs = NaN,
      serverSendUnixMs = NaN\<rparr>" 60 "\<lparr>samples = [], pending = [(10, 10)], offset = 7\<rparr>"]
  by simp

end
