(* ===== verification/DriftCorrector.thy ===== *)
theory DriftCorrector
  imports JS_Prelude
begin

text \<open>
  The drift controller of a member, \<open>web/src/player/DriftCorrector.ts\<close>: hysteresis between two
  thresholds, proportional rate changes, and a hard seek only for a large drift that lasts.
  \<open>correct\<close> returns the correction together with the new state of the object.
\<close>

definition DRIFT_RELEASE_MS :: rat where "DRIFT_RELEASE_MS = 220"
definition SOFT_CORRECTION_THRESHOLD_MS :: rat where "SOFT_CORRECTION_THRESHOLD_MS = 420"
definition HARD_SEEK_THRESHOLD_MS :: rat where "HARD_SEEK_THRESHOLD_MS = 2400"
definition HARD_SEEK_CONFIRM_MS :: rat where "HARD_SEEK_CONFIRM_MS = 1800"
definition HARD_SEEK_COOLDOWN_MS :: rat where "HARD_SEEK_COOLDOWN_MS = 12000"
definition POST_SEEK_SETTLE_MS :: rat where "POST_SEEK_SETTLE_MS = 3500"

lemmas drift_consts = DRIFT_RELEASE_MS_def SOFT_CORRECTION_THRESHOLD_MS_def
  HARD_SEEK_THRESHOLD_MS_def HARD_SEEK_CONFIRM_MS_def HARD_SEEK_COOLDOWN_MS_def
  POST_SEEK_SETTLE_MS_def

datatype correction_type = NOOP | SOFT_SPEED_UP | SOFT_SLOW_DOWN | HARD_SEEK

record Correction =
  ctype :: correction_type
  rate :: rat
  driftMs :: rat
  targetMs :: "rat option"

record Drift =
  correcting :: bool
  hardCandidateSince :: "rat option"
  hardCandidateDirection :: int
  lastHardSeekAt :: jsnum
  holdUntil :: rat

definition newDrift :: Drift where
  "newDrift = \<lparr>correcting = False, hardCandidateSince = None, hardCandidateDirection = 0,
     lastHardSeekAt = NegInf, holdUntil = 0\<rparr>"

definition clearHardCandidate :: "Drift \<Rightarrow> Drift" where
  "clearHardCandidate d = d\<lparr>hardCandidateSince := None, hardCandidateDirection := 0\<rparr>"

definition noop :: "rat \<Rightarrow> rat \<Rightarrow> Correction" where
  "noop roomRate drift = \<lparr>ctype = NOOP, rate = roomRate, driftMs = drift, targetMs = None\<rparr>"

text \<open>A change of direction restarts the candidate.\<close>

definition note_candidate :: "rat \<Rightarrow> rat \<Rightarrow> Drift \<Rightarrow> Drift" where
  "note_candidate drift nowMs d =
     (if Math_sign drift \<noteq> hardCandidateDirection d
      then d\<lparr>hardCandidateDirection := Math_sign drift, hardCandidateSince := Some nowMs\<rparr>
      else d)"

definition seek_confirmed :: "rat \<Rightarrow> Drift \<Rightarrow> bool" where
  "seek_confirmed nowMs d \<longleftrightarrow>
     (case hardCandidateSince d of
        None \<Rightarrow> False
      | Some since \<Rightarrow> nowMs - since \<ge> HARD_SEEK_CONFIRM_MS) \<and>
     Num nowMs - lastHardSeekAt d \<ge> Num HARD_SEEK_COOLDOWN_MS"

definition soft_correction :: "rat \<Rightarrow> rat \<Rightarrow> Correction" where
  "soft_correction drift roomRate =
     (let scale = min 1 (max 0 ((\<bar>drift\<bar> - DRIFT_RELEASE_MS)
                                  / (HARD_SEEK_THRESHOLD_MS - DRIFT_RELEASE_MS)))
      in if drift < 0
         then let factor = 8 / 1000 + scale * (42 / 1000)
              in \<lparr>ctype = SOFT_SPEED_UP, rate = roomRate * (1 + factor),
                  driftMs = drift, targetMs = None\<rparr>
         else let factor = 6 / 1000 + scale * (24 / 1000)
              in \<lparr>ctype = SOFT_SLOW_DOWN, rate = roomRate * (1 - factor),
                  driftMs = drift, targetMs = None\<rparr>)"

definition correct :: "rat \<Rightarrow> rat \<Rightarrow> rat \<Rightarrow> rat \<Rightarrow> Drift \<Rightarrow> Correction \<times> Drift" where
  "correct expectedMs actualMs roomRate nowMs d =
     (let drift = actualMs - expectedMs; absoluteDrift = \<bar>drift\<bar> in
      if nowMs < holdUntil d then (noop roomRate drift, d)
      else if absoluteDrift \<le> DRIFT_RELEASE_MS
        then (noop roomRate drift, clearHardCandidate (d\<lparr>correcting := False\<rparr>))
      else if \<not> correcting d \<and> absoluteDrift < SOFT_CORRECTION_THRESHOLD_MS
        then (noop roomRate drift, clearHardCandidate d)
      else
        let d1 = d\<lparr>correcting := True\<rparr> in
        if absoluteDrift \<ge> HARD_SEEK_THRESHOLD_MS
        then
          let d2 = note_candidate drift nowMs d1 in
          if seek_confirmed nowMs d2
          then (\<lparr>ctype = HARD_SEEK, rate = roomRate, driftMs = drift, targetMs = Some expectedMs\<rparr>,
                clearHardCandidate (d2\<lparr>lastHardSeekAt := Num nowMs,
                  holdUntil := nowMs + POST_SEEK_SETTLE_MS, correcting := False\<rparr>))
          else (soft_correction drift roomRate, d2)
        else (soft_correction drift roomRate, clearHardCandidate d1))"

definition resetDrift :: "rat \<Rightarrow> rat \<Rightarrow> Drift \<Rightarrow> Drift" where
  "resetDrift nowMs settleMs d =
     (clearHardCandidate (d\<lparr>correcting := False\<rparr>))\<lparr>holdUntil := max (holdUntil d) (nowMs + settleMs)\<rparr>"

text \<open>A run of the object: calls of its two public methods.\<close>

datatype drift_event = Correct (ev_expected: rat) (ev_actual: rat) (ev_rate: rat) (ev_now: rat)
  | Reset (ev_now: rat) (ev_settle: rat)

fun drift_step :: "drift_event \<Rightarrow> Drift \<Rightarrow> Drift" where
  "drift_step (Correct e a r n) d = snd (correct e a r n d)"
| "drift_step (Reset n s) d = resetDrift n s d"

text \<open>
  The member's player under the controller for one check interval: the room's timeline advances
  at the room rate, the local film at the rate the correction sets.
\<close>

record Loop =
  l_expected :: rat
  l_actual :: rat
  l_now :: rat
  l_drift :: Drift

definition loop_tick :: "rat \<Rightarrow> rat \<Rightarrow> Loop \<Rightarrow> Loop" where
  "loop_tick roomRate dt l =
     (let (c, d) = correct (l_expected l) (l_actual l) roomRate (l_now l) (l_drift l)
      in \<lparr>l_expected = l_expected l + roomRate * dt, l_actual = l_actual l + rate c * dt,
          l_now = l_now l + dt, l_drift = d\<rparr>)"

abbreviation gap :: "Loop \<Rightarrow> rat" where
  "gap l \<equiv> l_actual l - l_expected l"

section \<open>Lemmas\<close>

lemma soft_correction_rate:
  assumes "0 \<le> roomRate"
  shows "drift < 0 \<Longrightarrow> ctype (soft_correction drift roomRate) = SOFT_SPEED_UP \<and>
           roomRate * (1 + 8 / 1000) \<le> rate (soft_correction drift roomRate) \<and>
           rate (soft_correction drift roomRate) \<le> roomRate * (1 + 5 / 100)"
    and "0 < drift \<Longrightarrow> ctype (soft_correction drift roomRate) = SOFT_SLOW_DOWN \<and>
           roomRate * (1 - 3 / 100) \<le> rate (soft_correction drift roomRate) \<and>
           rate (soft_correction drift roomRate) \<le> roomRate * (1 - 6 / 1000)"
proof -
  define scale where "scale = min 1 (max 0 ((\<bar>drift\<bar> - DRIFT_RELEASE_MS)
    / (HARD_SEEK_THRESHOLD_MS - DRIFT_RELEASE_MS)))"
  have s: "0 \<le> scale" "scale \<le> 1" by (auto simp: scale_def)
  {
    assume neg: "drift < 0"
    then have "rate (soft_correction drift roomRate) = roomRate * (1 + (8 / 1000 + scale * (42 / 1000)))"
      and ct: "ctype (soft_correction drift roomRate) = SOFT_SPEED_UP"
      unfolding soft_correction_def scale_def Let_def by simp_all
    moreover have "roomRate * (1 + 8 / 1000) \<le> roomRate * (1 + (8 / 1000 + scale * (42 / 1000)))"
      "roomRate * (1 + (8 / 1000 + scale * (42 / 1000))) \<le> roomRate * (1 + 5 / 100)"
      by (rule mult_left_mono [OF _ assms(1)], use s in simp)+
    ultimately show "ctype (soft_correction drift roomRate) = SOFT_SPEED_UP \<and>
        roomRate * (1 + 8 / 1000) \<le> rate (soft_correction drift roomRate) \<and>
        rate (soft_correction drift roomRate) \<le> roomRate * (1 + 5 / 100)"
      by simp
  next
    assume pos: "0 < drift"
    then have "rate (soft_correction drift roomRate) = roomRate * (1 - (6 / 1000 + scale * (24 / 1000)))"
      and ct: "ctype (soft_correction drift roomRate) = SOFT_SLOW_DOWN"
      unfolding soft_correction_def scale_def Let_def by simp_all
    moreover have "roomRate * (1 - 3 / 100) \<le> roomRate * (1 - (6 / 1000 + scale * (24 / 1000)))"
      "roomRate * (1 - (6 / 1000 + scale * (24 / 1000))) \<le> roomRate * (1 - 6 / 1000)"
      by (rule mult_left_mono [OF _ assms(1)], use s in simp)+
    ultimately show "ctype (soft_correction drift roomRate) = SOFT_SLOW_DOWN \<and>
        roomRate * (1 - 3 / 100) \<le> rate (soft_correction drift roomRate) \<and>
        rate (soft_correction drift roomRate) \<le> roomRate * (1 - 6 / 1000)"
      by simp
  }
qed

lemma correct_cases [case_names quiet soft hard]:
  obtains
    "ctype (fst (correct e a r n d)) = NOOP" "rate (fst (correct e a r n d)) = r"
      "targetMs (fst (correct e a r n d)) = None"
      "lastHardSeekAt (snd (correct e a r n d)) = lastHardSeekAt d"
      "holdUntil (snd (correct e a r n d)) = holdUntil d"
  | "holdUntil d \<le> n" "DRIFT_RELEASE_MS < \<bar>a - e\<bar>"
      "fst (correct e a r n d) = soft_correction (a - e) r"
      "lastHardSeekAt (snd (correct e a r n d)) = lastHardSeekAt d"
      "holdUntil (snd (correct e a r n d)) = holdUntil d"
  | "holdUntil d \<le> n" "HARD_SEEK_THRESHOLD_MS \<le> \<bar>a - e\<bar>"
      "seek_confirmed n (note_candidate (a - e) n (d\<lparr>correcting := True\<rparr>))"
      "fst (correct e a r n d) =
         \<lparr>ctype = HARD_SEEK, rate = r, driftMs = a - e, targetMs = Some e\<rparr>"
      "Num HARD_SEEK_COOLDOWN_MS \<le> Num n - lastHardSeekAt d"
      "lastHardSeekAt (snd (correct e a r n d)) = Num n"
      "holdUntil (snd (correct e a r n d)) = n + POST_SEEK_SETTLE_MS"
      "hardCandidateSince (snd (correct e a r n d)) = None"
      "hardCandidateDirection (snd (correct e a r n d)) = 0"
proof -
  have frame: "lastHardSeekAt (note_candidate x n d') = lastHardSeekAt d'"
    "holdUntil (note_candidate x n d') = holdUntil d'" for x d'
    by (simp_all add: note_candidate_def)
  let ?d2 = "note_candidate (a - e) n (d\<lparr>correcting := True\<rparr>)"
  consider "n < holdUntil d" | "holdUntil d \<le> n" "\<bar>a - e\<bar> \<le> DRIFT_RELEASE_MS"
    | "holdUntil d \<le> n" "DRIFT_RELEASE_MS < \<bar>a - e\<bar>" "\<not> correcting d"
      "\<bar>a - e\<bar> < SOFT_CORRECTION_THRESHOLD_MS"
    | "holdUntil d \<le> n" "DRIFT_RELEASE_MS < \<bar>a - e\<bar>"
      "correcting d \<or> SOFT_CORRECTION_THRESHOLD_MS \<le> \<bar>a - e\<bar>"
      "HARD_SEEK_THRESHOLD_MS \<le> \<bar>a - e\<bar>" "seek_confirmed n ?d2"
    | "holdUntil d \<le> n" "DRIFT_RELEASE_MS < \<bar>a - e\<bar>"
      "correcting d \<or> SOFT_CORRECTION_THRESHOLD_MS \<le> \<bar>a - e\<bar>"
      "\<not> (HARD_SEEK_THRESHOLD_MS \<le> \<bar>a - e\<bar> \<and> seek_confirmed n ?d2)"
    by linarith
  then show ?thesis
  proof cases
    case 1
    then show ?thesis by (intro that(1)) (simp_all add: correct_def noop_def)
  next
    case 2
    then show ?thesis
      by (intro that(1)) (simp_all add: correct_def noop_def clearHardCandidate_def)
  next
    case 3
    then show ?thesis
      by (intro that(1)) (simp_all add: correct_def noop_def clearHardCandidate_def)
  next
    case 4
    then have eq: "correct e a r n d =
        (\<lparr>ctype = HARD_SEEK, rate = r, driftMs = a - e, targetMs = Some e\<rparr>,
         clearHardCandidate (?d2\<lparr>lastHardSeekAt := Num n,
           holdUntil := n + POST_SEEK_SETTLE_MS, correcting := False\<rparr>))"
      by (auto simp: correct_def Let_def)
    from 4(5) have "Num HARD_SEEK_COOLDOWN_MS \<le> Num n - lastHardSeekAt d"
      by (simp add: seek_confirmed_def frame)
    with 4 eq show ?thesis
      by (intro that(3)) (simp_all add: clearHardCandidate_def)
  next
    case 5
    then show ?thesis
      by (intro that(2)) (auto simp: correct_def Let_def clearHardCandidate_def frame)
  qed
qed

subsection \<open>What a run keeps\<close>

lemma resetDrift_frame [frame_simps]:
  "lastHardSeekAt (resetDrift n s d) = lastHardSeekAt d"
  "hardCandidateSince (resetDrift n s d) = None"
  "hardCandidateDirection (resetDrift n s d) = 0"
  "correcting (resetDrift n s d) = False"
  "holdUntil (resetDrift n s d) = max (holdUntil d) (n + s)"
  by (simp_all add: resetDrift_def clearHardCandidate_def)

lemma holdUntil_mono: "holdUntil d \<le> holdUntil (drift_step ev d)"
proof (cases ev)
  case (Correct e a r n)
  show ?thesis
    by (cases e a r n d rule: correct_cases) (simp_all add: Correct drift_consts)
qed (simp add: frame_simps)

lemma holdUntil_run: "holdUntil d \<le> holdUntil (fold drift_step evs d)"
  by (induction evs arbitrary: d) (auto intro: order_trans holdUntil_mono)

lemma lastHardSeekAt_step:
  assumes "lastHardSeekAt d = Num m" and "m0 \<le> m"
  shows "\<exists>m'. lastHardSeekAt (drift_step ev d) = Num m' \<and> m0 \<le> m'"
proof (cases ev)
  case (Correct e a r n)
  show ?thesis
  proof (cases e a r n d rule: correct_cases)
    case hard
    with assms have "m0 \<le> n" by (simp add: drift_consts)
    with hard Correct show ?thesis by simp
  qed (use assms Correct in auto)
qed (use assms in \<open>simp add: frame_simps\<close>)

lemma lastHardSeekAt_run:
  "lastHardSeekAt d = Num m \<Longrightarrow> m0 \<le> m \<Longrightarrow>
     \<exists>m'. lastHardSeekAt (fold drift_step evs d) = Num m' \<and> m0 \<le> m'"
proof (induction evs arbitrary: d m)
  case (Cons ev evs)
  from lastHardSeekAt_step [OF Cons.prems, of ev] Cons.IH show ?case by fastforce
qed simp

subsection \<open>The candidate reflects the history\<close>

definition large_same :: "int \<Rightarrow> drift_event \<Rightarrow> bool" where
  "large_same dir ev =
     (case ev of
        Correct e a r n \<Rightarrow> HARD_SEEK_THRESHOLD_MS \<le> \<bar>a - e\<bar> \<and> Math_sign (a - e) = dir
      | Reset _ _ \<Rightarrow> False)"

text \<open>\<open>sustained dir t hist\<close>: the history ends with a block of large drifts in direction \<open>dir\<close>
  that begins at time \<open>t\<close>.\<close>

definition sustained :: "int \<Rightarrow> rat \<Rightarrow> drift_event list \<Rightarrow> bool" where
  "sustained dir t hist \<longleftrightarrow>
     (\<exists>pre suf. hist = pre @ suf \<and> suf \<noteq> [] \<and> ev_now (hd suf) = t \<and> list_all (large_same dir) suf)"

definition candidate_ok :: "drift_event list \<Rightarrow> Drift \<Rightarrow> bool" where
  "candidate_ok hist d \<longleftrightarrow>
     (case hardCandidateSince d of
        None \<Rightarrow> hardCandidateDirection d = 0
      | Some t \<Rightarrow> sustained (hardCandidateDirection d) t hist \<and> holdUntil d \<le> ev_now (last hist))"

lemma candidate_ok_correcting [simp]: "candidate_ok hist (d\<lparr>correcting := b\<rparr>) = candidate_ok hist d"
  by (simp add: candidate_ok_def split: option.splits)

lemma sustained_start: "large_same dir ev \<Longrightarrow> sustained dir (ev_now ev) (hist @ [ev])"
  unfolding sustained_def by (intro exI [of _ hist] exI [of _ "[ev]"]) simp

lemma sustained_snoc: "sustained dir t hist \<Longrightarrow> large_same dir ev \<Longrightarrow> sustained dir t (hist @ [ev])"
proof -
  assume "sustained dir t hist" and ev: "large_same dir ev"
  then obtain pre suf where "hist = pre @ suf" "suf \<noteq> []" "ev_now (hd suf) = t"
    "list_all (large_same dir) suf"
    by (auto simp: sustained_def)
  with ev have "hist @ [ev] = pre @ (suf @ [ev]) \<and> suf @ [ev] \<noteq> [] \<and> ev_now (hd (suf @ [ev])) = t
      \<and> list_all (large_same dir) (suf @ [ev])"
    by simp
  then show ?thesis unfolding sustained_def by blast
qed

lemma note_candidate_ok:
  assumes ok: "candidate_ok hist d" and big: "HARD_SEEK_THRESHOLD_MS \<le> \<bar>a - e\<bar>"
  shows "\<exists>t. hardCandidateSince (note_candidate (a - e) n d) = Some t \<and>
    hardCandidateDirection (note_candidate (a - e) n d) = Math_sign (a - e) \<and>
    sustained (Math_sign (a - e)) t (hist @ [Correct e a r n])"
proof -
  have ev: "large_same (Math_sign (a - e)) (Correct e a r n)"
    using big by (simp add: large_same_def)
  have nz: "Math_sign (a - e) \<noteq> 0"
    using big by (auto simp: Math_sign_def drift_consts)
  show ?thesis
  proof (cases "Math_sign (a - e) = hardCandidateDirection d")
    case True
    with nz ok obtain t where "hardCandidateSince d = Some t" "sustained (Math_sign (a - e)) t hist"
      by (auto simp: candidate_ok_def split: option.splits)
    with True ev show ?thesis by (simp add: note_candidate_def sustained_snoc)
  next
    case False
    with sustained_start [OF ev, of hist] show ?thesis by (simp add: note_candidate_def)
  qed
qed

lemma candidate_ok_correct:
  assumes ok: "candidate_ok hist d" and mono: "hist \<noteq> [] \<Longrightarrow> ev_now (last hist) \<le> n"
  shows "candidate_ok (hist @ [Correct e a r n]) (snd (correct e a r n d))"
proof (cases "n < holdUntil d")
  case True
  have "hardCandidateSince d = None"
  proof (rule ccontr)
    assume "hardCandidateSince d \<noteq> None"
    with ok have "holdUntil d \<le> ev_now (last hist)" "hist \<noteq> []"
      by (auto simp: candidate_ok_def sustained_def)
    with mono True show False by simp
  qed
  with ok True show ?thesis by (simp add: correct_def candidate_ok_def)
next
  case False
  let ?d1 = "d\<lparr>correcting := True\<rparr>"
  have ok1: "candidate_ok hist ?d1" using ok by simp
  have hold: "holdUntil (note_candidate (a - e) n ?d1) = holdUntil d"
    by (simp add: note_candidate_def)
  show ?thesis
  proof (cases "HARD_SEEK_THRESHOLD_MS \<le> \<bar>a - e\<bar>")
    case True
    obtain t where t: "hardCandidateSince (note_candidate (a - e) n ?d1) = Some t"
      "hardCandidateDirection (note_candidate (a - e) n ?d1) = Math_sign (a - e)"
      "sustained (Math_sign (a - e)) t (hist @ [Correct e a r n])"
      using note_candidate_ok [OF ok1 True] by blast
    from True have "\<not> \<bar>a - e\<bar> \<le> DRIFT_RELEASE_MS" "\<not> \<bar>a - e\<bar> < SOFT_CORRECTION_THRESHOLD_MS"
      by (simp_all add: drift_consts)
    with True False t hold show ?thesis
      by (auto simp: correct_def Let_def candidate_ok_def clearHardCandidate_def)
  next
    case False': False
    with False show ?thesis
      by (auto simp: correct_def Let_def candidate_ok_def clearHardCandidate_def)
  qed
qed

lemma candidate_ok_run:
  "sorted (map ev_now hist) \<Longrightarrow> candidate_ok hist (fold drift_step hist newDrift)"
proof (induction hist rule: rev_induct)
  case Nil
  then show ?case by (simp add: candidate_ok_def newDrift_def)
next
  case (snoc ev hist)
  then have ok: "candidate_ok hist (fold drift_step hist newDrift)"
    and mono: "hist \<noteq> [] \<Longrightarrow> ev_now (last hist) \<le> ev_now ev"
    by (auto simp: sorted_append)
  show ?case
  proof (cases ev)
    case (Correct e a r n)
    with candidate_ok_correct [OF ok] mono show ?thesis by simp
  next
    case (Reset n s)
    then show ?thesis by (simp add: candidate_ok_def frame_simps)
  qed
qed

section \<open>Properties\<close>

text \<open>
  A single noisy sample can never cause a seek: whenever the controller answers with a
  hard seek, the calls up to and including this one end with an uninterrupted block of samples,
  all at least 2400 ms off and all in the direction of this one, that began at least 1800 ms ago
  (and so holds at least two samples).
\<close>

theorem hard_seek_sustained:
  assumes "sorted (map ev_now (hist @ [Correct e a r n]))"
    and "ctype (fst (correct e a r n (fold drift_step hist newDrift))) = HARD_SEEK"
  shows "\<exists>pre suf. hist @ [Correct e a r n] = pre @ suf \<and> 2 \<le> length suf \<and>
           list_all (large_same (Math_sign (a - e))) suf \<and>
           n - ev_now (hd suf) \<ge> HARD_SEEK_CONFIRM_MS"
proof -
  let ?d = "fold drift_step hist newDrift"
  from assms(1) have ok: "candidate_ok hist (?d\<lparr>correcting := True\<rparr>)"
    using candidate_ok_run [of hist] by (simp add: sorted_append)
  from assms(2) have big: "HARD_SEEK_THRESHOLD_MS \<le> \<bar>a - e\<bar>"
    and conf: "seek_confirmed n (note_candidate (a - e) n (?d\<lparr>correcting := True\<rparr>))"
    by (cases e a r n ?d rule: correct_cases; auto simp: soft_correction_def Let_def split: if_splits)+
  from note_candidate_ok [OF ok big, of n r] conf obtain t where
    late: "n - t \<ge> HARD_SEEK_CONFIRM_MS" and
    sus: "sustained (Math_sign (a - e)) t (hist @ [Correct e a r n])"
    by (auto simp: seek_confirmed_def)
  from sus obtain pre suf where suf: "hist @ [Correct e a r n] = pre @ suf" "suf \<noteq> []"
    "ev_now (hd suf) = t" "list_all (large_same (Math_sign (a - e))) suf"
    by (auto simp: sustained_def)
  have "2 \<le> length suf"
  proof (rule ccontr)
    assume "\<not> 2 \<le> length suf"
    with suf(2) obtain x where "suf = [x]"
      by (cases suf) (auto simp: Suc_le_eq)
    with suf(1) have "suf = [Correct e a r n]" by simp
    with suf(3) late show False by (simp add: drift_consts)
  qed
  with suf late show ?thesis by blast
qed

theorem hard_seek_sustained_witness:
  "\<exists>pre suf. [Correct 10000 7000 1 0] @ [Correct 10000 7000 1 1800] = pre @ suf \<and> 2 \<le> length suf \<and>
     list_all (large_same (Math_sign (7000 - 10000))) suf \<and> 1800 - ev_now (hd suf) \<ge> HARD_SEEK_CONFIRM_MS"
  by (rule hard_seek_sustained)
     (simp_all add: correct_def newDrift_def drift_consts note_candidate_def Math_sign_def
       seek_confirmed_def Let_def clearHardCandidate_def)

text \<open>
  C14. Hard seeks are at least twelve seconds apart, whatever happens between them.
\<close>

theorem hard_seek_cooldown:
  assumes "ctype (fst (correct e a r n d)) = HARD_SEEK"
    and "ctype (fst (correct e' a' r' n' (fold drift_step evs (snd (correct e a r n d))))) = HARD_SEEK"
  shows "n' - n \<ge> HARD_SEEK_COOLDOWN_MS"
proof -
  let ?d = "fold drift_step evs (snd (correct e a r n d))"
  have "lastHardSeekAt (snd (correct e a r n d)) = Num n"
    using assms(1)
    by (cases e a r n d rule: correct_cases) (auto simp: soft_correction_def Let_def split: if_splits)
  then obtain m where m: "lastHardSeekAt ?d = Num m" "n \<le> m"
    using lastHardSeekAt_run by blast
  have "Num HARD_SEEK_COOLDOWN_MS \<le> Num n' - lastHardSeekAt ?d"
    using assms(2)
    by (cases e' a' r' n' ?d rule: correct_cases) (auto simp: soft_correction_def Let_def split: if_splits)
  with m show ?thesis by simp
qed

theorem hard_seek_cooldown_witness: "(13800::rat) - 1800 \<ge> HARD_SEEK_COOLDOWN_MS"
proof -
  let ?d = "\<lparr>correcting = True, hardCandidateSince = Some 0, hardCandidateDirection = - 1,
     lastHardSeekAt = NegInf, holdUntil = 0\<rparr>"
  show ?thesis
    by (rule hard_seek_cooldown [of 10000 7000 1 1800 ?d 10000 7000 1 13800 "[Correct 10000 7000 1 5300]"])
       (simp_all add: correct_def drift_consts note_candidate_def Math_sign_def seek_confirmed_def
         Let_def clearHardCandidate_def)
qed

text \<open>
  After a hard seek the controller stays quiet for 3.5 seconds: every call in that window,
  whatever was called in between, answers with the room's own rate and no seek.
\<close>

theorem settle_after_seek:
  assumes "ctype (fst (correct e a r n d)) = HARD_SEEK" and "n' < n + POST_SEEK_SETTLE_MS"
  shows "fst (correct e' a' r' n' (fold drift_step evs (snd (correct e a r n d)))) = noop r' (a' - e')"
proof -
  have "holdUntil (snd (correct e a r n d)) = n + POST_SEEK_SETTLE_MS"
    using assms(1)
    by (cases e a r n d rule: correct_cases) (auto simp: soft_correction_def Let_def split: if_splits)
  with holdUntil_run have "n + POST_SEEK_SETTLE_MS \<le> holdUntil (fold drift_step evs (snd (correct e a r n d)))"
    by metis
  with assms(2) show ?thesis by (simp add: correct_def)
qed

theorem settle_after_seek_witness:
  "fst (correct 20000 1000 1 5000 (fold drift_step []
     (snd (correct 10000 7000 1 1800 \<lparr>correcting = True, hardCandidateSince = Some 0,
        hardCandidateDirection = - 1, lastHardSeekAt = NegInf, holdUntil = 0\<rparr>))))
   = noop 1 (1000 - 20000)"
  by (rule settle_after_seek)
     (simp_all add: correct_def drift_consts note_candidate_def Math_sign_def seek_confirmed_def Let_def)

text \<open>
  Rate changes stay unobtrusive and point the right way: whatever the state, the rate is
  between 97\<open>%\<close> and 105\<open>%\<close> of the room's rate, it is raised only for a member that is behind and
  lowered only for one that is ahead, and a correction that is not soft keeps the room's rate.
\<close>

theorem correction_rate_bounds:
  assumes "0 \<le> r"
  shows "r * (97 / 100) \<le> rate (fst (correct e a r n d)) \<and>
         rate (fst (correct e a r n d)) \<le> r * (105 / 100) \<and>
         (case ctype (fst (correct e a r n d)) of
            SOFT_SPEED_UP \<Rightarrow> a < e \<and> r \<le> rate (fst (correct e a r n d))
          | SOFT_SLOW_DOWN \<Rightarrow> e < a \<and> rate (fst (correct e a r n d)) \<le> r
          | _ \<Rightarrow> rate (fst (correct e a r n d)) = r)"
proof (cases e a r n d rule: correct_cases)
  case soft
  show ?thesis
  proof (cases "a - e < 0")
    case True
    with soft_correction_rate(1) [OF assms True] assms soft show ?thesis
      by (auto simp: field_simps)
  next
    case False
    with soft(2) have pos: "0 < a - e" by (auto simp: drift_consts)
    with soft_correction_rate(2) [OF assms pos] assms soft show ?thesis
      by (auto simp: field_simps)
  qed
qed (use assms in \<open>auto simp: field_simps\<close>)

theorem correction_rate_bounds_witness:
  "rate (fst (correct 10000 9000 (3 / 2) 0 newDrift)) \<le> 3 / 2 * (105 / 100)"
  using correction_rate_bounds [of "3 / 2" 10000 9000 0 newDrift] by simp

text \<open>
  Hysteresis: outside the settle window and below the seek threshold, a correction is active
  exactly when the drift is beyond 220 ms and either was being corrected already or has reached
  420 ms; and that is what the object remembers.
\<close>

theorem hysteresis:
  assumes "holdUntil d \<le> n" and "\<bar>a - e\<bar> < HARD_SEEK_THRESHOLD_MS"
  shows "(ctype (fst (correct e a r n d)) \<noteq> NOOP) =
           (DRIFT_RELEASE_MS < \<bar>a - e\<bar> \<and>
            (correcting d \<or> SOFT_CORRECTION_THRESHOLD_MS \<le> \<bar>a - e\<bar>)) \<and>
         correcting (snd (correct e a r n d)) = (ctype (fst (correct e a r n d)) \<noteq> NOOP)"
  using assms
  by (auto simp: correct_def Let_def noop_def soft_correction_def clearHardCandidate_def)

theorem hysteresis_witness:
  "(ctype (fst (correct 10000 9700 1 500 (newDrift\<lparr>correcting := True\<rparr>))) \<noteq> NOOP) = True"
  using hysteresis [of "newDrift\<lparr>correcting := True\<rparr>" 500 9700 10000 1]
  by (simp add: newDrift_def drift_consts)

definition soft_zone :: "Loop \<Rightarrow> bool" where
  "soft_zone l \<longleftrightarrow> correcting (l_drift l) \<and> holdUntil (l_drift l) \<le> l_now l \<and>
     \<bar>gap l\<bar> < HARD_SEEK_THRESHOLD_MS"

lemma loop_tick_shrinks:
  assumes zone: "soft_zone l" and out: "DRIFT_RELEASE_MS < \<bar>gap l\<bar>"
    and r: "0 < r" and dt: "0 < dt" and rdt: "r * dt \<le> 4400"
  shows "soft_zone (loop_tick r dt l)" and "\<bar>gap (loop_tick r dt l)\<bar> \<le> \<bar>gap l\<bar> - r * dt * (6 / 1000)"
proof -
  let ?c = "soft_correction (gap l) r"
  have corr: "correct (l_expected l) (l_actual l) r (l_now l) (l_drift l) =
      (?c, clearHardCandidate ((l_drift l)\<lparr>correcting := True\<rparr>))"
    using zone out by (auto simp: soft_zone_def correct_def Let_def)
  have gap': "gap (loop_tick r dt l) = gap l + (rate ?c - r) * dt"
    by (simp add: loop_tick_def corr algebra_simps)
  have rd: "0 < r * dt" using r dt by simp
  have shrink: "\<bar>gap (loop_tick r dt l)\<bar> \<le> \<bar>gap l\<bar> - r * dt * (6 / 1000)"
  proof (cases "gap l < 0")
    case True
    with soft_correction_rate(1) [of r "gap l"] r
    have "r * (8 / 1000) \<le> rate ?c - r" "rate ?c - r \<le> r * (5 / 100)"
      by (simp_all add: algebra_simps)
    from this [THEN mult_right_mono [OF _ less_imp_le [OF dt]]]
    have "r * dt * (8 / 1000) \<le> (rate ?c - r) * dt" "(rate ?c - r) * dt \<le> r * dt * (5 / 100)"
      by (simp_all add: algebra_simps)
    with True out rdt rd gap' show ?thesis by (auto simp: abs_if drift_consts split: if_splits)
  next
    case False
    with out have "0 < gap l" by (auto simp: drift_consts)
    with soft_correction_rate(2) [of r "gap l"] r
    have "r * (6 / 1000) \<le> r - rate ?c" "r - rate ?c \<le> r * (3 / 100)"
      by (simp_all add: algebra_simps)
    from this [THEN mult_right_mono [OF _ less_imp_le [OF dt]]]
    have "r * dt * (6 / 1000) \<le> (r - rate ?c) * dt" "(r - rate ?c) * dt \<le> r * dt * (3 / 100)"
      by (simp_all add: algebra_simps)
    moreover have "gap (loop_tick r dt l) = gap l - (r - rate ?c) * dt"
      using gap' by (simp add: algebra_simps)
    ultimately show ?thesis
      using False out rdt rd by (auto simp: abs_if drift_consts split: if_splits)
  qed
  then show "\<bar>gap (loop_tick r dt l)\<bar> \<le> \<bar>gap l\<bar> - r * dt * (6 / 1000)" .
  from shrink rd zone dt show "soft_zone (loop_tick r dt l)"
    by (auto simp: soft_zone_def loop_tick_def corr clearHardCandidate_def)
qed

text \<open>
  C15. The soft correction closes the gap. Let a member that is being corrected be less than
  2400 ms off, and let the check run every \<open>dt\<close> ms at room rate \<open>r\<close> with \<open>r * dt\<close> at most 4400
  (the source checks every 750 ms, at rates up to 2). Then within \<open>N\<close> checks, for any
  \<open>N\<close> with \<open>N * r * dt * 0.006\<close> at least the excess over 220 ms, the drift is back in the release
  band, and on the way it never grew.
\<close>

theorem soft_correction_converges:
  assumes "soft_zone l" and "0 < r" and "0 < dt" and "r * dt \<le> 4400"
    and "\<bar>gap l\<bar> \<le> DRIFT_RELEASE_MS + of_nat N * (r * dt * (6 / 1000))"
  shows "\<exists>k \<le> N. \<bar>gap ((loop_tick r dt ^^ k) l)\<bar> \<le> DRIFT_RELEASE_MS \<and>
           (\<forall>j \<le> k. \<bar>gap ((loop_tick r dt ^^ j) l)\<bar> \<le> \<bar>gap l\<bar>)"
  using assms(1,5)
proof (induction N arbitrary: l)
  case 0
  then show ?case by simp
next
  case (Suc N)
  show ?case
  proof (cases "\<bar>gap l\<bar> \<le> DRIFT_RELEASE_MS")
    case True
    then show ?thesis by (intro exI [of _ 0]) simp
  next
    case False
    let ?l = "loop_tick r dt l"
    from False have shrink: "soft_zone ?l" "\<bar>gap ?l\<bar> \<le> \<bar>gap l\<bar> - r * dt * (6 / 1000)"
      using loop_tick_shrinks [OF Suc.prems(1) _ assms(2-4)] by simp_all
    moreover from shrink(2) Suc.prems(2)
    have "\<bar>gap ?l\<bar> \<le> DRIFT_RELEASE_MS + of_nat N * (r * dt * (6 / 1000))"
      by (simp add: field_simps)
    ultimately obtain k where k: "k \<le> N" "\<bar>gap ((loop_tick r dt ^^ k) ?l)\<bar> \<le> DRIFT_RELEASE_MS"
      "\<forall>j \<le> k. \<bar>gap ((loop_tick r dt ^^ j) ?l)\<bar> \<le> \<bar>gap ?l\<bar>"
      using Suc.IH by blast
    have pos: "0 < r * dt" using assms(2,3) by simp
    have "\<forall>j \<le> Suc k. \<bar>gap ((loop_tick r dt ^^ j) l)\<bar> \<le> \<bar>gap l\<bar>"
    proof (intro allI impI)
      fix j assume "j \<le> Suc k"
      with k(3) shrink(2) pos show "\<bar>gap ((loop_tick r dt ^^ j) l)\<bar> \<le> \<bar>gap l\<bar>"
        by (cases j) (fastforce simp: funpow_Suc_right simp del: funpow.simps(2))+
    qed
    with k(1,2) show ?thesis
      by (intro exI [of _ "Suc k"]) (simp add: funpow_Suc_right del: funpow.simps(2))
  qed
qed

theorem soft_correction_converges_witness:
  "\<exists>k \<le> 500. \<bar>gap ((loop_tick 1 750 ^^ k) \<lparr>l_expected = 10000, l_actual = 8000, l_now = 0,
        l_drift = newDrift\<lparr>correcting := True\<rparr>\<rparr>)\<bar> \<le> DRIFT_RELEASE_MS"
  using soft_correction_converges [of "\<lparr>l_expected = 10000, l_actual = 8000, l_now = 0,
      l_drift = newDrift\<lparr>correcting := True\<rparr>\<rparr>" 1 750 500]
  by (auto simp: soft_zone_def newDrift_def drift_consts)

end
