(* ===== verification/SyncController.thy ===== *)
theory SyncController
  imports Timers PlaybackModel ClockSynchronizer DriftCorrector
begin

text \<open>
  The controller that drives the local video element from the room's playback state,
  \<open>web/src/player/SyncController.ts\<close>. One record holds the object's fields and the parts of
  the browser it owns: its timers, the promises it waits for, the microtask it queued, the
  elements it let go of (\<open>detached\<close>) and the log of visible effects (writes to the element,
  commands to the server, status callbacks). Every
  method and every callback is one definition over that record.

  A handler runs at one instant: \<open>performance.now()\<close> is \<open>now\<close> and \<open>ws.clock\<close> is \<open>wsclock\<close> of
  its environment. Between handlers the browser may change the element in any way
  (\<open>Media\<close>), dispatch media events to the registered listeners, run due timers and settle
  promises with either result, in any order. As in the browser's event loop, the microtask
  queued by \<open>apply\<close> runs before the next task.
\<close>

section \<open>State\<close>

definition SYNC_CHECK_INTERVAL_MS :: rat where "SYNC_CHECK_INTERVAL_MS = 750"
definition HOST_HEARTBEAT_INTERVAL_MS :: rat where "HOST_HEARTBEAT_INTERVAL_MS = 5000"
definition BUFFER_CONFIRM_MS :: rat where "BUFFER_CONFIRM_MS = 1800"
definition BUFFER_RECOVERY_STABLE_MS :: rat where "BUFFER_RECOVERY_STABLE_MS = 600"
definition PROGRAMMATIC_SEEK_BUFFER_GRACE_MS :: rat where
  "PROGRAMMATIC_SEEK_BUFFER_GRACE_MS = 2500"
definition TIMELINE_JUMP_MS :: rat where "TIMELINE_JUMP_MS = 1000"
definition ALIGN_ON_TRANSITION_MS :: rat where "ALIGN_ON_TRANSITION_MS = 750"
definition CORRECTION_STATUS_DELAY_MS :: rat where "CORRECTION_STATUS_DELAY_MS = 2000"

lemmas sync_consts = SYNC_CHECK_INTERVAL_MS_def HOST_HEARTBEAT_INTERVAL_MS_def BUFFER_CONFIRM_MS_def
  BUFFER_RECOVERY_STABLE_MS_def PROGRAMMATIC_SEEK_BUFFER_GRACE_MS_def TIMELINE_JUMP_MS_def
  ALIGN_ON_TRANSITION_MS_def CORRECTION_STATUS_DELAY_MS_def

text \<open>\<open>HTMLMediaElement\<close>: the ready states, and the element as the controller sees it.\<close>

definition HAVE_METADATA :: nat where "HAVE_METADATA = 1"
definition HAVE_FUTURE_DATA :: nat where "HAVE_FUTURE_DATA = 3"

datatype listener = L_waiting | L_canPlay | L_retrySeek | L_loadedMetadata | L_nativePause | L_ended

record Video =
  v_currentTime :: rat
  v_playbackRate :: rat
  v_paused :: bool
  v_readyState :: nat
  v_duration :: jsnum
  v_seekable :: "(rat \<times> rat) list"
  v_width :: rat
  v_height :: rat
  v_setThrows :: bool
  v_listeners :: "(string \<times> listener) list"

datatype SyncStatus = Synced | Correcting | Local_buffering | Host_buffering | Autoplay_blocked

datatype ctl_timer = TickT | HeartbeatT | PlayT | BufferConfirmT | RecoveryT

text \<open>The promises whose settlement the controller acts on.\<close>

datatype ctl_promise = PlayPromise | HostBufferingPromise | HostReadyPromise

datatype effect =
    Status SyncStatus
  | Send string json bool
  | VPlay
  | VPause
  | VSeek rat
  | VRate rat

record Controller =
  video :: "Video option"
  state :: "PlaybackState option"
  lastRevision :: int
  tickTimer :: "nat option"
  heartbeatTimer :: "nat option"
  playTimer :: "nat option"
  bufferConfirmTimer :: "nat option"
  recoveryTimer :: "nat option"
  pendingSeek :: "rat option"
  applyingRemoteState :: bool
  bufferSuspected :: bool
  confirmedBuffering :: bool
  hostBufferingReported :: bool
  memberBufferingReported :: bool
  ignoreBufferUntil :: rat
  recoveryUntil :: rat
  softCorrectionSince :: "rat option"
  autoplayBlocked :: bool
  currentStatus :: "SyncStatus option"
  drift :: Drift
  isHost :: bool
  timers :: "ctl_timer timers"
  promises :: "ctl_promise list"
  microtask :: bool
  detached :: "Video list"
  log :: "effect list"

record env =
  now :: rat
  wsclock :: Clock

definition newController :: "bool \<Rightarrow> Controller" where
  "newController host =
     \<lparr>video = None, state = None, lastRevision = - 1, tickTimer = None, heartbeatTimer = None,
      playTimer = None, bufferConfirmTimer = None, recoveryTimer = None, pendingSeek = None,
      applyingRemoteState = False, bufferSuspected = False, confirmedBuffering = False,
      hostBufferingReported = False, memberBufferingReported = False, ignoreBufferUntil = 0,
      recoveryUntil = 0, softCorrectionSince = None, autoplayBlocked = False, currentStatus = None,
      drift = newDrift, isHost = host, timers = noTimers, promises = [], microtask = False,
      detached = [], log = []\<rparr>"

section \<open>Effects\<close>

definition srv :: "env \<Rightarrow> rat" where
  "srv e = serverNow (now e) (wsclock e)"

definition emit :: "effect \<Rightarrow> Controller \<Rightarrow> Controller" where
  "emit x c = c\<lparr>log := log c @ [x]\<rparr>"

definition video_pause :: "Controller \<Rightarrow> Controller" where
  "video_pause c =
     (case video c of
        None \<Rightarrow> c
      | Some v \<Rightarrow> emit VPause (c\<lparr>video := Some (v\<lparr>v_paused := True\<rparr>)\<rparr>))"

definition set_rate :: "rat \<Rightarrow> Controller \<Rightarrow> Controller" where
  "set_rate r c =
     (case video c of
        None \<Rightarrow> c
      | Some v \<Rightarrow> emit (VRate r) (c\<lparr>video := Some (v\<lparr>v_playbackRate := r\<rparr>)\<rparr>))"

definition ws_send :: "string \<Rightarrow> json \<Rightarrow> bool \<Rightarrow> ctl_promise option \<Rightarrow> Controller \<Rightarrow> Controller" where
  "ws_send t p ack pr c =
     (emit (Send t p ack) c)\<lparr>promises := promises c @ (case pr of None \<Rightarrow> [] | Some x \<Rightarrow> [x])\<rparr>"

definition position_of :: "jsnum \<Rightarrow> json" where
  "position_of ms = JObj [(''positionMs'', JNum ms)]"

definition current_ms :: "Video \<Rightarrow> jsnum" where
  "current_ms v = Num (Math_round (v_currentTime v * 1000))"

definition addEventListener :: "string \<Rightarrow> listener \<Rightarrow> Video \<Rightarrow> Video" where
  "addEventListener t l v =
     (if (t, l) \<in> set (v_listeners v) then v else v\<lparr>v_listeners := v_listeners v @ [(t, l)]\<rparr>)"

definition removeEventListener :: "string \<Rightarrow> listener \<Rightarrow> Video \<Rightarrow> Video" where
  "removeEventListener t l v = v\<lparr>v_listeners := filter (\<lambda>x. x \<noteq> (t, l)) (v_listeners v)\<rparr>"

definition emitStatus :: "SyncStatus \<Rightarrow> Controller \<Rightarrow> Controller" where
  "emitStatus next c =
     (if autoplayBlocked c \<and> next \<noteq> Autoplay_blocked then c
      else if currentStatus c = Some next then c
      else emit (Status next) (c\<lparr>currentStatus := Some next\<rparr>))"

section \<open>Playing and seeking\<close>

definition cancelScheduledPlay :: "Controller \<Rightarrow> Controller" where
  "cancelScheduledPlay c =
     c\<lparr>timers := clearField (playTimer c) (timers c), playTimer := None\<rparr>"

definition tryPlay :: "Controller \<Rightarrow> Controller" where
  "tryPlay c =
     (case video c of
        None \<Rightarrow> c
      | Some v \<Rightarrow>
          if autoplayBlocked c \<or> confirmedBuffering c then c
          else (emit VPlay c)\<lparr>promises := promises c @ [PlayPromise]\<rparr>)"

definition schedulePlay :: "env \<Rightarrow> rat \<Rightarrow> Controller \<Rightarrow> Controller" where
  "schedulePlay e anchor c =
     (let c1 = cancelScheduledPlay c;
          delay = max 0 (anchor - srv e);
          c2 = (case video c1 of
                  Some v \<Rightarrow> if delay > 20 \<and> \<not> v_paused v then video_pause c1 else c1
                | None \<Rightarrow> c1);
          (h, ts) = setTimeout PlayT (now e) delay (timers c2)
      in c2\<lparr>playTimer := Some h, timers := ts\<rparr>)"

definition in_seekable :: "rat \<Rightarrow> Video \<Rightarrow> bool" where
  "in_seekable seconds v \<longleftrightarrow>
     list_ex (\<lambda>(lo, hi). seconds \<ge> lo - 5 / 100 \<and> seconds \<le> hi + 5 / 100) (v_seekable v)"

text \<open>The local function \<open>perform\<close> of \<open>seek\<close>; the setter of \<open>currentTime\<close> may throw.\<close>

definition perform_seek :: "env \<Rightarrow> rat \<Rightarrow> rat \<Rightarrow> Controller \<Rightarrow> Controller" where
  "perform_seek e seconds ms c =
     (case video c of
        None \<Rightarrow> c
      | Some v \<Rightarrow>
          if v_setThrows v then c\<lparr>pendingSeek := Some ms\<rparr>
          else (emit (VSeek seconds) c)
                 \<lparr>video := Some (v\<lparr>v_currentTime := seconds\<rparr>),
                  pendingSeek := None,
                  ignoreBufferUntil := now e + PROGRAMMATIC_SEEK_BUFFER_GRACE_MS,
                  recoveryUntil := now e + POST_SEEK_SETTLE_MS,
                  drift := resetDrift (now e) POST_SEEK_SETTLE_MS (drift c)\<rparr>)"

definition seek :: "env \<Rightarrow> jsnum \<Rightarrow> Controller \<Rightarrow> Controller" where
  "seek e ms c =
     (case video c of
        None \<Rightarrow> c
      | Some v \<Rightarrow>
          (case ms of
             Num m \<Rightarrow>
               let seconds = max 0 (m / 1000) in
               if \<bar>v_currentTime v - seconds\<bar> < 5 / 100 then c\<lparr>pendingSeek := None\<rparr>
               else if in_seekable seconds v then perform_seek e seconds m c
               else
                 let c1 = c\<lparr>pendingSeek := Some m\<rparr> in
                 if v_readyState v \<ge> HAVE_METADATA \<and> isFinite (v_duration v)
                      \<and> Num seconds \<le> v_duration v
                 then perform_seek e seconds m c1 else c1
           | _ \<Rightarrow> c))"

definition retrySeek :: "env \<Rightarrow> Controller \<Rightarrow> Controller" where
  "retrySeek e c = (case pendingSeek c of None \<Rightarrow> c | Some m \<Rightarrow> seek e (Num m) c)"

section \<open>Buffering recovery\<close>

definition scheduleRecovery :: "env \<Rightarrow> Controller \<Rightarrow> Controller" where
  "scheduleRecovery e c =
     (let (h, ts) = setTimeout RecoveryT (now e) BUFFER_RECOVERY_STABLE_MS
                      (clearField (recoveryTimer c) (timers c))
      in c\<lparr>recoveryTimer := Some h, timers := ts\<rparr>)"

text \<open>The callback of the recovery timer.\<close>

definition recovery_fires :: "env \<Rightarrow> Controller \<Rightarrow> Controller" where
  "recovery_fires e c =
     (let c0 = c\<lparr>recoveryTimer := None\<rparr> in
      case (video c0, state c0) of
        (Some v, Some st) \<Rightarrow>
          if bufferSuspected c0 \<or> v_readyState v < HAVE_FUTURE_DATA then c0
          else if isHost c0 \<and> hostBufferingReported c0 \<and> phase st \<noteq> Buffering
            then c0\<lparr>confirmedBuffering := True\<rparr>
          else
            let c1 = c0\<lparr>confirmedBuffering := False,
                        recoveryUntil := now e + POST_SEEK_SETTLE_MS,
                        drift := resetDrift (now e) POST_SEEK_SETTLE_MS (drift c0)\<rparr>;
                c2 = (if isHost c1 \<and> hostBufferingReported c1 then
                        if phase st = Buffering
                        then ws_send ''cmd.playback.host_ready'' (position_of (current_ms v)) True
                               (Some HostReadyPromise) c1
                        else c1
                      else if \<not> isHost c1 \<and> memberBufferingReported c1
                        then ws_send ''telemetry.member.playback''
                               (JObj [(''positionMs'', JNum (current_ms v)),
                                      (''buffering'', JBool False)]) False None
                               (c1\<lparr>memberBufferingReported := False\<rparr>)
                      else c1);
                c3 = emitStatus (if phase st = Buffering then Host_buffering else Synced) c2
            in if phase st = Playing then tryPlay c3 else c3
      | _ \<Rightarrow> c0)"

section \<open>Applying room state\<close>

definition isTimelineJump :: "PlaybackState option \<Rightarrow> PlaybackState \<Rightarrow> bool" where
  "isTimelineJump previous next =
     (case previous of
        None \<Rightarrow> True
      | Some p \<Rightarrow>
          if mediaId p \<noteq> mediaId next then True
          else if (case timelineEpoch p of None \<Rightarrow> 0 | Some x \<Rightarrow> x)
                    \<noteq> (case timelineEpoch next of None \<Rightarrow> 0 | Some x \<Rightarrow> x) then True
          else if phase p = Playing \<and> phase next = Playing then False
          else phase p = phase next
                 \<and> \<bar>anchorPositionMs p - anchorPositionMs next\<bar> \<ge> TIMELINE_JUMP_MS)"

text \<open>The part of \<open>apply\<close> for a phase other than playing.\<close>

definition apply_stopped :: "env \<Rightarrow> Video \<Rightarrow> PlaybackState \<Rightarrow> Controller \<Rightarrow> Controller" where
  "apply_stopped e v st c =
     (let c1 = set_rate (playbackRate st) (video_pause (cancelScheduledPlay c));
          c2 = c1\<lparr>softCorrectionSince := None, drift := resetDrift (now e) 0 (drift c1)\<rparr>
      in if phase st = Buffering
         then
           let c3 = emitStatus (if isHost c2 then Local_buffering else Host_buffering) c2
           in if isHost c3 \<and> hostBufferingReported c3 \<and> v_readyState v \<ge> HAVE_FUTURE_DATA
              then scheduleRecovery e c3 else c3
         else emitStatus Synced c2)"

text \<open>The part of \<open>apply\<close> for the phase playing.\<close>

definition apply_playing :: "env \<Rightarrow> PlaybackState \<Rightarrow> bool \<Rightarrow> bool \<Rightarrow> Controller \<Rightarrow> Controller" where
  "apply_playing e st reschedule phaseChanged c =
     (let c1 = (if reschedule then schedulePlay e (anchorServerTimeMs st) c else c)
      in if phaseChanged
         then c1\<lparr>recoveryUntil := now e + POST_SEEK_SETTLE_MS,
                 drift := resetDrift (now e) POST_SEEK_SETTLE_MS (drift c1)\<rparr>
         else c1)"

text \<open>
  The first part of \<open>apply\<close>: the host's element is the physical reference and is aligned only on
  a snapshot or a media change, a member's also on a jump of the timeline.
\<close>

definition apply_align ::
    "env \<Rightarrow> Video \<Rightarrow> PlaybackState \<Rightarrow> bool \<Rightarrow> bool \<Rightarrow> bool \<Rightarrow> Controller \<Rightarrow> Controller" where
  "apply_align e v st force mediaChanged timelineJump c =
     (let target = expectedPosition st (srv e);
          shouldAlign = (force \<or> mediaChanged \<or> timelineJump);
          c1 = set_rate (playbackRate st) (c\<lparr>applyingRemoteState := True\<rparr>)
      in if shouldAlign \<and> (\<not> isHost c \<or> force \<or> mediaChanged)
              \<and> phase st \<noteq> Buffering \<and> phase st \<noteq> Loading
              \<and> \<bar>v_currentTime v * 1000 - target\<bar> \<ge> ALIGN_ON_TRANSITION_MS
         then seek e (Num target) c1 else c1)"

definition apply_state :: "env \<Rightarrow> PlaybackState option \<Rightarrow> bool \<Rightarrow> Controller \<Rightarrow> Controller" where
  "apply_state e previous force c =
     (case (video c, state c) of
        (Some v, Some st) \<Rightarrow>
          let mediaChanged = (case previous of None \<Rightarrow> False | Some p \<Rightarrow> mediaId p \<noteq> mediaId st);
              phaseChanged = (case previous of None \<Rightarrow> True | Some p \<Rightarrow> phase p \<noteq> phase st);
              timelineJump = isTimelineJump previous st;
              c2 = apply_align e v st force mediaChanged timelineJump c;
              c3 = (if phase st = Playing
                    then apply_playing e st (phaseChanged \<or> force \<or> timelineJump) phaseChanged c2
                    else apply_stopped e v st c2)
          in c3\<lparr>microtask := True\<rparr>
      | _ \<Rightarrow> c)"

section \<open>Periodic work\<close>

definition applyCorrection :: "env \<Rightarrow> Correction \<Rightarrow> Controller \<Rightarrow> Controller" where
  "applyCorrection e action c =
     (case video c of
        None \<Rightarrow> c
      | Some v \<Rightarrow>
          let c1 = set_rate (rate action) c in
          if ctype action = HARD_SEEK \<and> targetMs action \<noteq> None
          then seek e (case targetMs action of None \<Rightarrow> NaN | Some t \<Rightarrow> Num t)
                 (emitStatus Correcting (c1\<lparr>softCorrectionSince := None\<rparr>))
          else if ctype action = NOOP
          then emitStatus Synced (c1\<lparr>softCorrectionSince := None\<rparr>)
          else
            let since = (case softCorrectionSince c1 of None \<Rightarrow> now e | Some t \<Rightarrow> t);
                c2 = c1\<lparr>softCorrectionSince := Some since\<rparr>
            in emitStatus (if now e - since \<ge> CORRECTION_STATUS_DELAY_MS then Correcting else Synced) c2)"

definition play_if_paused :: "Controller \<Rightarrow> Controller" where
  "play_if_paused c =
     (case video c of None \<Rightarrow> c | Some v \<Rightarrow> if v_paused v then tryPlay c else c)"

definition tick :: "env \<Rightarrow> Controller \<Rightarrow> Controller" where
  "tick e c =
     (case (video c, state c) of
        (Some v, Some st) \<Rightarrow>
          if v_readyState v < HAVE_METADATA then c
          else if phase st \<noteq> Playing then c
          else if srv e + 20 < anchorServerTimeMs st then c
          else if bufferSuspected c \<or> confirmedBuffering c \<or> v_readyState v < HAVE_FUTURE_DATA
            then set_rate (playbackRate st) c
          else if isHost c
            then let c1 = emitStatus Synced (set_rate (playbackRate st) c)
                 in if applyingRemoteState c1 then c1 else play_if_paused c1
          else if now e < recoveryUntil c
            then play_if_paused (emitStatus Synced (set_rate (playbackRate st) c))
          else
            let (action, d) = correct (expectedPosition st (srv e)) (v_currentTime v * 1000)
                                (playbackRate st) (now e) (drift c)
            in play_if_paused (applyCorrection e action (c\<lparr>drift := d\<rparr>))
      | _ \<Rightarrow> c)"

definition heartbeat :: "Controller \<Rightarrow> Controller" where
  "heartbeat c =
     (case video c of
        None \<Rightarrow> c
      | Some v \<Rightarrow>
          ws_send ''telemetry.host.playback''
            (JObj [(''positionMs'', JNum (current_ms v)), (''paused'', JBool (v_paused v)),
                   (''readyState'', JNum (Num (of_nat (v_readyState v))))]) False None c)"

definition updateHeartbeat :: "env \<Rightarrow> Controller \<Rightarrow> Controller" where
  "updateHeartbeat e c =
     (let c1 = c\<lparr>timers := clearField (heartbeatTimer c) (timers c), heartbeatTimer := None\<rparr>
      in if isHost c1 \<and> video c1 \<noteq> None
         then let (h, ts) = setInterval HeartbeatT (now e) HOST_HEARTBEAT_INTERVAL_MS (timers c1)
              in c1\<lparr>heartbeatTimer := Some h, timers := ts\<rparr>
         else c1)"

section \<open>Public methods\<close>

definition attach_listeners :: "Video \<Rightarrow> Video" where
  "attach_listeners v =
     (let v = addEventListener ''waiting'' L_waiting v;
          v = addEventListener ''stalled'' L_waiting v;
          v = addEventListener ''canplay'' L_canPlay v;
          v = addEventListener ''playing'' L_canPlay v;
          v = addEventListener ''progress'' L_retrySeek v;
          v = addEventListener ''loadedmetadata'' L_loadedMetadata v;
          v = addEventListener ''pause'' L_nativePause v
      in addEventListener ''ended'' L_ended v)"

definition detach_listeners :: "Video \<Rightarrow> Video" where
  "detach_listeners v =
     (let v = removeEventListener ''waiting'' L_waiting v;
          v = removeEventListener ''stalled'' L_waiting v;
          v = removeEventListener ''canplay'' L_canPlay v;
          v = removeEventListener ''playing'' L_canPlay v;
          v = removeEventListener ''progress'' L_retrySeek v;
          v = removeEventListener ''loadedmetadata'' L_loadedMetadata v;
          v = removeEventListener ''pause'' L_nativePause v
      in removeEventListener ''ended'' L_ended v)"

definition attach :: "env \<Rightarrow> Video \<Rightarrow> Controller \<Rightarrow> Controller" where
  "attach e v c =
     (let (h, ts) = setInterval TickT (now e) SYNC_CHECK_INTERVAL_MS (timers c);
          c1 = c\<lparr>video := Some (attach_listeners v), tickTimer := Some h, timers := ts\<rparr>;
          c2 = updateHeartbeat e c1
      in if state c2 \<noteq> None then apply_state e None True c2 else c2)"

definition setRoomState :: "env \<Rightarrow> PlaybackState \<Rightarrow> bool \<Rightarrow> Controller \<Rightarrow> Controller" where
  "setRoomState e next force c =
     (if \<not> force \<and> \<not> acceptRevision (lastRevision c) (revision next) then c
      else apply_state e (state c) force (c\<lparr>lastRevision := revision next, state := Some next\<rparr>))"

definition setHost :: "env \<Rightarrow> bool \<Rightarrow> Controller \<Rightarrow> Controller" where
  "setHost e value c =
     (if isHost c = value then c
      else
        let c1 = c\<lparr>isHost := value, drift := resetDrift (now e) POST_SEEK_SETTLE_MS (drift c),
                   softCorrectionSince := None\<rparr>;
            c2 = updateHeartbeat e c1
        in if video c2 \<noteq> None \<and> state c2 \<noteq> None then apply_state e None True c2 else c2)"

definition onUserPlay :: "Controller \<Rightarrow> Controller" where
  "onUserPlay c =
     (case video c of
        None \<Rightarrow> c
      | Some v \<Rightarrow>
          if \<not> isHost c then c
          else ws_send ''cmd.playback.play'' (position_of (current_ms v)) True None
                 (c\<lparr>autoplayBlocked := False\<rparr>))"

definition onUserPause :: "Controller \<Rightarrow> Controller" where
  "onUserPause c =
     (case video c of
        None \<Rightarrow> c
      | Some v \<Rightarrow>
          if \<not> isHost c then c
          else ws_send ''cmd.playback.pause'' (position_of (current_ms v)) True None
                 (video_pause (cancelScheduledPlay c)))"

definition onUserSeek :: "env \<Rightarrow> jsnum \<Rightarrow> Controller \<Rightarrow> Controller" where
  "onUserSeek e positionMs c =
     (if \<not> isHost c then c
      else
        let c1 = seek e positionMs c;
            c2 = (case state c1 of
                    Some st \<Rightarrow> if phase st = Playing then video_pause c1 else c1
                  | None \<Rightarrow> c1)
        in ws_send ''cmd.playback.seek'' (position_of (js_round positionMs)) True None c2)"

definition onUserRateChange :: "rat \<Rightarrow> Controller \<Rightarrow> Controller" where
  "onUserRateChange r c =
     (if \<not> isHost c then c
      else
        let c1 = set_rate r c
        in ws_send ''cmd.playback.rate''
             (JObj [(''playbackRate'', JNum (Num r)),
                    (''positionMs'', JNum (case video c1 of None \<Rightarrow> Num (Math_round 0) | Some v \<Rightarrow> current_ms v))])
             True None c1)"

definition resumeLocal :: "Controller \<Rightarrow> Controller" where
  "resumeLocal c = tryPlay (c\<lparr>autoplayBlocked := False\<rparr>)"

definition realign :: "env \<Rightarrow> Controller \<Rightarrow> Controller" where
  "realign e c = (if state c \<noteq> None then apply_state e None True c else c)"

definition suspend :: "Controller \<Rightarrow> Controller" where
  "suspend c = (if \<not> isHost c then video_pause c else c)"

definition destroy :: "Controller \<Rightarrow> Controller" where
  "destroy c =
     (let ts1 = clearField (heartbeatTimer c) (clearField (tickTimer c) (timers c));
          c1 = cancelScheduledPlay (c\<lparr>timers := ts1\<rparr>);
          ts2 = clearField (recoveryTimer c1) (clearField (bufferConfirmTimer c1) (timers c1))
      in c1\<lparr>timers := ts2,
            detached := detached c1 @ (case video c1 of None \<Rightarrow> [] | Some v \<Rightarrow> [detach_listeners v]),
            video := None, tickTimer := None, heartbeatTimer := None,
            bufferConfirmTimer := None, recoveryTimer := None\<rparr>)"

section \<open>Media events\<close>

definition loadedMetadata :: "env \<Rightarrow> Controller \<Rightarrow> Controller" where
  "loadedMetadata e c =
     (let c1 = retrySeek e c in
      case (video c1, state c1) of
        (Some v, Some st) \<Rightarrow>
          (case mediaId st of
             Some m \<Rightarrow>
               if m = '''' then c1
               else ws_send ''client.ready''
                      (JObj [(''mediaId'', JStr m), (''ready'', JBool True),
                             (''durationMs'', JNum (js_round (js_scale (v_duration v) 1000))),
                             (''videoWidth'', JNum (Num (v_width v))),
                             (''videoHeight'', JNum (Num (v_height v)))]) True None c1
           | None \<Rightarrow> c1)
      | _ \<Rightarrow> c1)"

definition waiting :: "env \<Rightarrow> Controller \<Rightarrow> Controller" where
  "waiting e c =
     (case (video c, state c) of
        (Some v, Some st) \<Rightarrow>
          if phase st \<noteq> Playing \<or> v_readyState v \<ge> HAVE_FUTURE_DATA then c
          else
            let c1 = set_rate (playbackRate st) (c\<lparr>bufferSuspected := True\<rparr>);
                c2 = c1\<lparr>softCorrectionSince := None, drift := resetDrift (now e) 0 (drift c1)\<rparr>;
                c3 = c2\<lparr>timers := clearField (recoveryTimer c2) (timers c2), recoveryTimer := None\<rparr>
            in if bufferConfirmTimer c3 \<noteq> None then c3
               else
                 let delay = max BUFFER_CONFIRM_MS (ignoreBufferUntil c3 - now e);
                     (h, ts) = setTimeout BufferConfirmT (now e) delay (timers c3)
                 in c3\<lparr>bufferConfirmTimer := Some h, timers := ts\<rparr>
      | _ \<Rightarrow> c)"

text \<open>The callback of the confirmation timer.\<close>

definition bufferConfirm_fires :: "env \<Rightarrow> Controller \<Rightarrow> Controller" where
  "bufferConfirm_fires e c =
     (let c0 = c\<lparr>bufferConfirmTimer := None\<rparr> in
      case (video c0, state c0) of
        (Some v, Some st) \<Rightarrow>
          if phase st \<noteq> Playing \<or> v_readyState v \<ge> HAVE_FUTURE_DATA
          then c0\<lparr>bufferSuspected := False\<rparr>
          else
            let c1 = emitStatus Local_buffering (c0\<lparr>confirmedBuffering := True\<rparr>) in
            if isHost c1 \<and> \<not> hostBufferingReported c1
            then ws_send ''cmd.playback.host_buffering'' (position_of (current_ms v)) True
                   (Some HostBufferingPromise)
                   (video_pause (c1\<lparr>hostBufferingReported := True\<rparr>))
            else if \<not> isHost c1 \<and> \<not> memberBufferingReported c1
            then ws_send ''telemetry.member.playback''
                   (JObj [(''positionMs'', JNum (current_ms v)), (''buffering'', JBool True)])
                   False None (c1\<lparr>memberBufferingReported := True\<rparr>)
            else c1
      | _ \<Rightarrow> c0\<lparr>bufferSuspected := False\<rparr>)"

definition canPlay :: "env \<Rightarrow> Controller \<Rightarrow> Controller" where
  "canPlay e c =
     (let c1 = c\<lparr>timers := clearField (bufferConfirmTimer c) (timers c),
                 bufferConfirmTimer := None, bufferSuspected := False\<rparr>
      in if \<not> confirmedBuffering c1 then tick e c1 else scheduleRecovery e c1)"

definition nativePause :: "Controller \<Rightarrow> Controller" where
  "nativePause c =
     (case state c of
        Some st \<Rightarrow>
          if \<not> isHost c \<and> \<not> applyingRemoteState c \<and> \<not> confirmedBuffering c \<and> phase st = Playing
          then tryPlay c else c
      | None \<Rightarrow> c)"

definition ended :: "Controller \<Rightarrow> Controller" where
  "ended c =
     (case video c of
        Some v \<Rightarrow>
          if isHost c
          then ws_send ''cmd.playback.ended''
                 (position_of (js_round (js_scale (v_duration v) 1000))) True None c
          else c
      | None \<Rightarrow> c)"

section \<open>Callbacks of timers and promises\<close>

definition play_fires :: "Controller \<Rightarrow> Controller" where
  "play_fires c =
     (let c0 = c\<lparr>playTimer := None\<rparr> in
      case state c0 of
        Some st \<Rightarrow> if \<not> confirmedBuffering c0 \<and> phase st = Playing then tryPlay c0 else c0
      | None \<Rightarrow> c0)"

fun run_timer :: "env \<Rightarrow> ctl_timer \<Rightarrow> Controller \<Rightarrow> Controller" where
  "run_timer e TickT c = tick e c"
| "run_timer e HeartbeatT c = heartbeat c"
| "run_timer e PlayT c = play_fires c"
| "run_timer e BufferConfirmT c = bufferConfirm_fires e c"
| "run_timer e RecoveryT c = recovery_fires e c"

fun settle :: "ctl_promise \<Rightarrow> bool \<Rightarrow> Controller \<Rightarrow> Controller" where
  "settle PlayPromise True c = c\<lparr>autoplayBlocked := False\<rparr>"
| "settle PlayPromise False c = emitStatus Autoplay_blocked (c\<lparr>autoplayBlocked := True\<rparr>)"
| "settle HostBufferingPromise True c = c"
| "settle HostBufferingPromise False c = c\<lparr>hostBufferingReported := False\<rparr>"
| "settle HostReadyPromise True c = c\<lparr>hostBufferingReported := False\<rparr>"
| "settle HostReadyPromise False c = c\<lparr>confirmedBuffering := True\<rparr>"

fun run_listener :: "env \<Rightarrow> listener \<Rightarrow> Controller \<Rightarrow> Controller" where
  "run_listener e L_waiting c = waiting e c"
| "run_listener e L_canPlay c = canPlay e c"
| "run_listener e L_retrySeek c = retrySeek e c"
| "run_listener e L_loadedMetadata c = loadedMetadata e c"
| "run_listener e L_nativePause c = nativePause c"
| "run_listener e L_ended c = ended c"

definition dispatch :: "env \<Rightarrow> string \<Rightarrow> Controller \<Rightarrow> Controller" where
  "dispatch e t c =
     (case video c of
        None \<Rightarrow> c
      | Some v \<Rightarrow> fold (run_listener e) (map snd (filter (\<lambda>x. fst x = t) (v_listeners v))) c)"

section \<open>The event loop\<close>

datatype ctl_event =
    Attach Video
  | SetRoomState PlaybackState bool
  | SetHost bool
  | UserPlay
  | UserPause
  | UserSeek jsnum
  | UserRate rat
  | ResumeLocal
  | Realign
  | Suspend
  | Destroy
  | Media Video
  | MediaEvent string
  | TimerFires nat
  | Settle ctl_promise bool

fun handle :: "env \<Rightarrow> ctl_event \<Rightarrow> Controller \<Rightarrow> Controller" where
  "handle e (Attach v) c = attach e v c"
| "handle e (SetRoomState st force) c = setRoomState e st force c"
| "handle e (SetHost b) c = setHost e b c"
| "handle e UserPlay c = onUserPlay c"
| "handle e UserPause c = onUserPause c"
| "handle e (UserSeek ms) c = onUserSeek e ms c"
| "handle e (UserRate r) c = onUserRateChange r c"
| "handle e ResumeLocal c = resumeLocal c"
| "handle e Realign c = realign e c"
| "handle e Suspend c = suspend c"
| "handle e Destroy c = destroy c"
| "handle e (Media v') c =
     (case video c of
        None \<Rightarrow> c
      | Some v \<Rightarrow> c\<lparr>video := Some (v'\<lparr>v_listeners := v_listeners v\<rparr>)\<rparr>)"
| "handle e (MediaEvent t) c = dispatch e t c"
| "handle e (TimerFires h) c =
     (case expire h (now e) (timers c) of
        None \<Rightarrow> c
      | Some (k, ts) \<Rightarrow> run_timer e k (c\<lparr>timers := ts\<rparr>))"
| "handle e (Settle p ok) c =
     (if p \<in> set (promises c) then settle p ok (c\<lparr>promises := remove1 p (promises c)\<rparr>) else c)"

definition run_microtask :: "Controller \<Rightarrow> Controller" where
  "run_microtask c =
     (if microtask c then c\<lparr>applyingRemoteState := False, microtask := False\<rparr> else c)"

text \<open>One task of the event loop; the log holds the effects of this task.\<close>

definition step :: "env \<Rightarrow> ctl_event \<Rightarrow> Controller \<Rightarrow> Controller" where
  "step e ev c = run_microtask (handle e ev (c\<lparr>log := []\<rparr>))"

text \<open>
  \<open>attach\<close> is called by \<open>connectPlayer\<close>, whose disposer calls \<open>destroy\<close>; the player component
  connects a new element only after it disposed of the old one.
\<close>

inductive ctl_step :: "Controller \<Rightarrow> env \<times> ctl_event \<Rightarrow> Controller \<Rightarrow> bool" where
  step_attach: "video c = None \<Longrightarrow> ctl_step c (e, Attach v) (step e (Attach v) c)"
| step_other: "\<forall>v. ev \<noteq> Attach v \<Longrightarrow> ctl_step c (e, ev) (step e ev c)"

definition ctl_init :: "Controller \<Rightarrow> bool" where
  "ctl_init c \<longleftrightarrow> (\<exists>host. c = newController host)"

abbreviation ctl_reachable :: "Controller \<Rightarrow> bool" where
  "ctl_reachable \<equiv> reachable ctl_init ctl_step"

text \<open>The two ways \<open>apply\<close> can go, shared by the proofs about it.\<close>

lemma apply_state_cases [case_names idle playing stopped]:
  obtains
    "video c = None \<or> state c = None" "apply_state e p f c = c"
  | v st m j a b where "video c = Some v" "state c = Some st" "phase st = Playing"
      "m = (case p of None \<Rightarrow> False | Some q \<Rightarrow> mediaId q \<noteq> mediaId st)"
      "j = isTimelineJump p st"
      "b = (case p of None \<Rightarrow> True | Some q \<Rightarrow> phase q \<noteq> phase st)" "a = (b \<or> f \<or> j)"
      "apply_state e p f c = (apply_playing e st a b (apply_align e v st f m j c))\<lparr>microtask := True\<rparr>"
  | v st m j where "video c = Some v" "state c = Some st" "phase st \<noteq> Playing"
      "m = (case p of None \<Rightarrow> False | Some q \<Rightarrow> mediaId q \<noteq> mediaId st)"
      "j = isTimelineJump p st"
      "apply_state e p f c = (apply_stopped e v st (apply_align e v st f m j c))\<lparr>microtask := True\<rparr>"
proof (cases "video c = None \<or> state c = None")
  case True
  then show ?thesis by (intro that(1)) (auto simp: apply_state_def split: option.splits)
next
  case False
  then obtain v st where vs: "video c = Some v" "state c = Some st" by auto
  show ?thesis
  proof (cases "phase st = Playing")
    case True
    show ?thesis
      by (rule that(2) [OF vs True refl refl refl refl]) (simp add: apply_state_def vs True Let_def)
  next
    case False
    show ?thesis
      by (rule that(3) [OF vs False refl refl]) (simp add: apply_state_def vs False Let_def)
  qed
qed

section \<open>Concrete values\<close>

text \<open>An element, an environment and a room state as the front end's own tests set them up.\<close>

definition demo_video :: Video where
  "demo_video = \<lparr>v_currentTime = 10, v_playbackRate = 1, v_paused = False, v_readyState = 4,
     v_duration = Num 120, v_seekable = [(0, 120)], v_width = 1920, v_height = 1080,
     v_setThrows = False, v_listeners = []\<rparr>"

definition demo_env :: "rat \<Rightarrow> env" where
  "demo_env t = \<lparr>now = t, wsclock = \<lparr>samples = [], pending = [], offset = 100000\<rparr>\<rparr>"

definition demo_state :: "int \<Rightarrow> PlaybackPhase \<Rightarrow> PlaybackState" where
  "demo_state n ph = \<lparr>mediaId = Some ''media'', revision = n, timelineEpoch = Some 0, phase = ph,
     anchorPositionMs = 10000, anchorServerTimeMs = 100000, playbackRate = 1,
     durationMs = Some 120000, resumeIntent = None\<rparr>"

fun run :: "(env \<times> ctl_event) list \<Rightarrow> Controller \<Rightarrow> Controller" where
  "run [] c = c"
| "run ((e, ev) # evs) c = run evs (step e ev c)"

lemma run_append: "run (xs @ ys) c = run ys (run xs c)"
  by (induction xs c rule: run.induct) auto

text \<open>A run that attaches at most once, at its beginning, stays within the step relation.\<close>

lemma run_reachable:
  "ctl_reachable c \<Longrightarrow> list_all (\<lambda>(e, ev). \<forall>v. ev \<noteq> Attach v) evs \<Longrightarrow> ctl_reachable (run evs c)"
  by (induction evs c rule: run.induct) (auto intro: reachable_step ctl_step.step_other)

lemma attached_reachable: "ctl_reachable (step e (Attach v) (newController host))"
proof -
  have "ctl_reachable (newController host)"
    by (rule reachable_init) (auto simp: ctl_init_def)
  then show ?thesis
    by (rule reachable_step) (rule ctl_step.step_attach, simp add: newController_def)
qed

end
