(* ===== verification/SyncController_Timers.thy ===== *)
theory SyncController_Timers
  imports SyncController
begin

text \<open>
  Resources of the controller: its five timers and the listeners on the element. The invariant
  says that each handle field knows all live timers of its kind, that the check timer runs exactly
  while an element is attached and the heartbeat exactly while that happens on the host.
\<close>

section \<open>Frames\<close>

text \<open>Everything the invariant reads is the same in both states.\<close>

definition same_timers :: "Controller \<Rightarrow> Controller \<Rightarrow> bool" where
  "same_timers c c' \<longleftrightarrow>
     timers c' = timers c \<and> tickTimer c' = tickTimer c \<and> heartbeatTimer c' = heartbeatTimer c \<and>
     playTimer c' = playTimer c \<and> bufferConfirmTimer c' = bufferConfirmTimer c \<and>
     recoveryTimer c' = recoveryTimer c \<and> isHost c' = isHost c \<and>
     (video c' = None) = (video c = None)"

definition slots ::
    "ctl_timer timers \<Rightarrow> nat option \<Rightarrow> nat option \<Rightarrow> nat option \<Rightarrow> nat option \<Rightarrow> nat option \<Rightarrow> bool" where
  "slots ts t h p b r \<longleftrightarrow>
     timers_wf ts \<and> tracks ts TickT True t \<and> tracks ts HeartbeatT True h \<and>
     tracks ts PlayT False p \<and> tracks ts BufferConfirmT False b \<and>
     tracks ts RecoveryT False r"

definition timers_core :: "Controller \<Rightarrow> bool" where
  "timers_core c \<longleftrightarrow>
     slots (timers c) (tickTimer c) (heartbeatTimer c) (playTimer c) (bufferConfirmTimer c) (recoveryTimer c) \<and>
     (tickTimer c = None) = (video c = None)"

definition timers_ok :: "Controller \<Rightarrow> bool" where
  "timers_ok c \<longleftrightarrow>
     timers_core c \<and> (heartbeatTimer c = None) = (\<not> isHost c \<or> video c = None)"

lemmas timers_ok_defs = timers_ok_def timers_core_def

lemma slots_stop:
  assumes "slots ts t h p b r"
  shows "slots (clearField t ts) None h p b r" and "slots (clearField h ts) t None p b r"
    and "slots (clearField p ts) t h None b r" and "slots (clearField b ts) t h p None r"
    and "slots (clearField r ts) t h p b None"
  using assms unfolding slots_def by (auto intro: tsv.wf_stop tsv.trk_stop tsv.trk_stop_other)

lemmas tracks_timeout = tsv.trk_start [where p = None, simplified]
lemmas tracks_interval = tsv.trk_start [where p = "Some p" for p, simplified]

lemma slots_start:
  shows "slots ts None h p b r \<Longrightarrow> slots (snd (arm TickT d (Some i) ts)) (Some (fst (arm TickT d (Some i) ts))) h p b r"
    and "slots ts t None p b r \<Longrightarrow> slots (snd (arm HeartbeatT d (Some i) ts)) t (Some (fst (arm HeartbeatT d (Some i) ts))) p b r"
    and "slots ts t h None b r \<Longrightarrow> slots (snd (arm PlayT d None ts)) t h (Some (fst (arm PlayT d None ts))) b r"
    and "slots ts t h p None r \<Longrightarrow> slots (snd (arm BufferConfirmT d None ts)) t h p (Some (fst (arm BufferConfirmT d None ts))) r"
    and "slots ts t h p b None \<Longrightarrow> slots (snd (arm RecoveryT d None ts)) t h p b (Some (fst (arm RecoveryT d None ts)))"
  unfolding slots_def
  by (auto intro: tsv.wf_start tracks_timeout tracks_interval tsv.trk_start_other)

lemma same_timers_refl [simp]: "same_timers c c"
  by (simp add: same_timers_def)

lemma same_timers_trans: "same_timers a b \<Longrightarrow> same_timers b c \<Longrightarrow> same_timers a c"
  by (simp add: same_timers_def)

lemma timers_ok_cong: "same_timers c c' \<Longrightarrow> timers_ok c' = timers_ok c"
  by (simp add: same_timers_def timers_ok_defs)

lemma same_timers_basic [simp]:
  "same_timers c0 (emit x c) = same_timers c0 c"
  "same_timers c0 (video_pause c) = same_timers c0 c"
  "same_timers c0 (set_rate r c) = same_timers c0 c"
  "same_timers c0 (ws_send t p a pr c) = same_timers c0 c"
  "same_timers c0 (emitStatus s c) = same_timers c0 c"
  "same_timers c0 (tryPlay c) = same_timers c0 c"
  "same_timers c0 (play_if_paused c) = same_timers c0 c"
  "same_timers c0 (heartbeat c) = same_timers c0 c"
  by (auto simp: same_timers_def emit_def video_pause_def set_rate_def ws_send_def emitStatus_def
      tryPlay_def play_if_paused_def heartbeat_def split: option.splits)

lemma same_timers_seek [simp]:
  "same_timers c0 (perform_seek e x m c) = same_timers c0 c"
  "same_timers c0 (seek e ms c) = same_timers c0 c"
  "same_timers c0 (retrySeek e c) = same_timers c0 c"
proof -
  show perf: "same_timers c0 (perform_seek e x m c) = same_timers c0 c" for x m c
    by (auto simp: perform_seek_def same_timers_def emit_def split: option.splits)
  show sk: "same_timers c0 (seek e ms c) = same_timers c0 c" for ms
    by (auto simp: seek_def perf Let_def split: option.splits jsnum.splits)
       (auto simp: same_timers_def)
  show "same_timers c0 (retrySeek e c) = same_timers c0 c"
    by (simp add: retrySeek_def sk split: option.splits)
qed

lemma same_timers_update [simp]:
  "same_timers c0 (c\<lparr>state := a\<rparr>) = same_timers c0 c"
  "same_timers c0 (c\<lparr>lastRevision := b\<rparr>) = same_timers c0 c"
  "same_timers c0 (c\<lparr>pendingSeek := m\<rparr>) = same_timers c0 c"
  "same_timers c0 (c\<lparr>applyingRemoteState := x\<rparr>) = same_timers c0 c"
  "same_timers c0 (c\<lparr>bufferSuspected := x\<rparr>) = same_timers c0 c"
  "same_timers c0 (c\<lparr>confirmedBuffering := x\<rparr>) = same_timers c0 c"
  "same_timers c0 (c\<lparr>hostBufferingReported := x\<rparr>) = same_timers c0 c"
  "same_timers c0 (c\<lparr>memberBufferingReported := x\<rparr>) = same_timers c0 c"
  "same_timers c0 (c\<lparr>recoveryUntil := r\<rparr>) = same_timers c0 c"
  "same_timers c0 (c\<lparr>softCorrectionSince := m\<rparr>) = same_timers c0 c"
  "same_timers c0 (c\<lparr>autoplayBlocked := x\<rparr>) = same_timers c0 c"
  "same_timers c0 (c\<lparr>drift := d\<rparr>) = same_timers c0 c"
  "same_timers c0 (c\<lparr>promises := ps\<rparr>) = same_timers c0 c"
  "same_timers c0 (c\<lparr>microtask := x\<rparr>) = same_timers c0 c"
  "same_timers c0 (c\<lparr>log := l\<rparr>) = same_timers c0 c"
  by (simp_all add: same_timers_def)

lemma same_timers_work [simp]:
  "same_timers c0 (apply_align e v st f m j c) = same_timers c0 c"
  "same_timers c0 (applyCorrection e a c) = same_timers c0 c"
  "same_timers c0 (tick e c) = same_timers c0 c"
  "same_timers c0 (loadedMetadata e c) = same_timers c0 c"
  "same_timers c0 (nativePause c) = same_timers c0 c"
  "same_timers c0 (ended c) = same_timers c0 c"
  "same_timers c0 (settle p ok c) = same_timers c0 c"
proof -
  show "same_timers c0 (apply_align e v st f m j c) = same_timers c0 c"
    by (simp add: apply_align_def Let_def)
  show ac: "same_timers c0 (applyCorrection e a c) = same_timers c0 c" for a c
    by (simp add: applyCorrection_def Let_def split: option.splits)
  show "same_timers c0 (tick e c) = same_timers c0 c"
    by (simp add: tick_def Let_def ac split: option.splits prod.splits)
  show "same_timers c0 (loadedMetadata e c) = same_timers c0 c"
    by (simp add: loadedMetadata_def Let_def split: option.splits)
  show "same_timers c0 (nativePause c) = same_timers c0 c"
    by (simp add: nativePause_def split: option.splits)
  show "same_timers c0 (ended c) = same_timers c0 c"
    by (simp add: ended_def split: option.splits)
  show "same_timers c0 (settle p ok c) = same_timers c0 c"
    by (cases p; cases ok) simp_all
qed

lemma same_timers_user [simp]:
  "same_timers c0 (onUserPlay c) = same_timers c0 c"
  "same_timers c0 (onUserSeek e ms c) = same_timers c0 c"
  "same_timers c0 (onUserRateChange r c) = same_timers c0 c"
  "same_timers c0 (resumeLocal c) = same_timers c0 c"
  "same_timers c0 (suspend c) = same_timers c0 c"
  by (simp_all add: onUserPlay_def onUserSeek_def onUserRateChange_def resumeLocal_def suspend_def
      Let_def split: option.splits)

lemma timers_ok_frame:
  assumes "timers_ok c" and "same_timers c c'"
  shows "timers_ok c'"
  using assms timers_ok_cong by blast

section \<open>Operations on timers\<close>

lemma setTimeout_arm: "setTimeout k t d ts = arm k (t + max 0 d) None ts"
  by (simp add: setTimeout_def)

lemma setInterval_arm: "setInterval k t p ts = arm k (t + p) (Some p) ts"
  by (simp add: setInterval_def)

lemma timers_ok_cancel: "timers_ok c \<Longrightarrow> timers_ok (cancelScheduledPlay c)"
  unfolding timers_ok_defs cancelScheduledPlay_def by (simp add: slots_stop)

lemma timers_ok_arm_play:
  assumes "timers_ok c" and "playTimer c = None"
  shows "timers_ok (c\<lparr>playTimer := Some (fst (arm PlayT t None (timers c))),
                      timers := snd (arm PlayT t None (timers c))\<rparr>)"
  using assms unfolding timers_ok_defs by (simp add: slots_start)

lemma timers_ok_schedulePlay:
  assumes ok: "timers_ok c"
  shows "timers_ok (schedulePlay e a c)"
proof -
  define c2 where "c2 = (case video (cancelScheduledPlay c) of
      Some v \<Rightarrow> if max 0 (a - srv e) > 20 \<and> \<not> v_paused v
        then video_pause (cancelScheduledPlay c) else cancelScheduledPlay c
    | None \<Rightarrow> cancelScheduledPlay c)"
  have same: "same_timers (cancelScheduledPlay c) c2"
    by (simp add: c2_def split: option.splits)
  from timers_ok_frame [OF timers_ok_cancel [OF ok] same] have "timers_ok c2" .
  moreover from same have "playTimer c2 = None"
    by (simp add: same_timers_def cancelScheduledPlay_def)
  ultimately show ?thesis
    by (simp add: schedulePlay_def Let_def setTimeout_arm timers_ok_arm_play case_prod_beta flip: c2_def)
qed

lemma timers_ok_scheduleRecovery:
  assumes "timers_ok c"
  shows "timers_ok (scheduleRecovery e c)"
  using assms unfolding timers_ok_defs scheduleRecovery_def setTimeout_arm
  by (simp add: case_prod_beta slots_start slots_stop)

lemma timers_ok_updateHeartbeat: "timers_core c \<Longrightarrow> timers_ok (updateHeartbeat e c)"
  unfolding timers_ok_defs updateHeartbeat_def setInterval_arm Let_def
  by (auto simp: case_prod_beta slots_start slots_stop)

lemma timers_ok_apply:
  assumes ok: "timers_ok c"
  shows "timers_ok (apply_state e p f c)"
proof -
  have playing: "timers_ok c1 \<Longrightarrow> timers_ok (apply_playing e st a b c1)" for st a b c1
  proof -
    assume "timers_ok c1"
    then have "timers_ok (if a then schedulePlay e (anchorServerTimeMs st) c1 else c1)"
      by (simp add: timers_ok_schedulePlay)
    then show ?thesis
      unfolding apply_playing_def Let_def by (rule timers_ok_frame) simp
  qed
  have stopped: "timers_ok (apply_stopped e v st c1)" if "timers_ok c1" for v st c1
  proof -
    have any: "timers_ok c2" if "same_timers (cancelScheduledPlay c1) c2" for c2
      using timers_ok_frame [OF timers_ok_cancel [OF \<open>timers_ok c1\<close>] that] .
    show ?thesis
      unfolding apply_stopped_def Let_def
      by (auto intro!: any timers_ok_scheduleRecovery)
  qed
  have micro: "timers_ok (c1\<lparr>microtask := True\<rparr>)" if "timers_ok c1" for c1
    using that by (rule timers_ok_frame) simp
  have align: "timers_ok (apply_align e v st f m j c)" for v st m j
    using ok by (rule timers_ok_frame) simp
  show ?thesis
    by (rule apply_state_cases [where c = c and e = e and p = p and f = f]) (simp_all add: ok micro align playing stopped)
qed

lemma timers_ok_clear_confirm:
  "timers_ok c \<Longrightarrow> timers_ok (c\<lparr>timers := clearField (bufferConfirmTimer c) (timers c),
     bufferConfirmTimer := None\<rparr>)"
  unfolding timers_ok_defs by (simp add: slots_stop)

lemma timers_ok_clear_recovery:
  "timers_ok c \<Longrightarrow> timers_ok (c\<lparr>timers := clearField (recoveryTimer c) (timers c),
     recoveryTimer := None\<rparr>)"
  unfolding timers_ok_defs by (simp add: slots_stop)

lemma timers_ok_arm_confirm:
  "timers_ok c \<Longrightarrow> bufferConfirmTimer c = None \<Longrightarrow>
     timers_ok (c\<lparr>bufferConfirmTimer := Some (fst (arm BufferConfirmT t None (timers c))),
                  timers := snd (arm BufferConfirmT t None (timers c))\<rparr>)"
  unfolding timers_ok_defs by (simp add: slots_start)

lemma timers_ok_waiting:
  assumes ok: "timers_ok c"
  shows "timers_ok (waiting e c)"
proof (cases "\<exists>v st. video c = Some v \<and> state c = Some st \<and> phase st = Playing
    \<and> \<not> v_readyState v \<ge> HAVE_FUTURE_DATA")
  case False
  with ok show ?thesis by (auto simp: waiting_def split: option.splits)
next
  case True
  then obtain v st where vs: "video c = Some v" "state c = Some st" "phase st = Playing"
    "\<not> v_readyState v \<ge> HAVE_FUTURE_DATA" by blast
  define c2 where "c2 = (set_rate (playbackRate st) (c\<lparr>bufferSuspected := True\<rparr>))
     \<lparr>softCorrectionSince := None,
      drift := resetDrift (now e) 0 (drift (set_rate (playbackRate st) (c\<lparr>bufferSuspected := True\<rparr>)))\<rparr>"
  define c3 where "c3 = c2\<lparr>timers := clearField (recoveryTimer c2) (timers c2), recoveryTimer := None\<rparr>"
  have "timers_ok c2" using ok by (rule timers_ok_frame) (simp add: c2_def)
  then have ok3: "timers_ok c3" unfolding c3_def by (rule timers_ok_clear_recovery)
  have "waiting e c = (if bufferConfirmTimer c3 \<noteq> None then c3 else
      c3\<lparr>bufferConfirmTimer := Some (fst (arm BufferConfirmT
            (now e + max 0 (max BUFFER_CONFIRM_MS (ignoreBufferUntil c3 - now e))) None (timers c3))),
         timers := snd (arm BufferConfirmT
            (now e + max 0 (max BUFFER_CONFIRM_MS (ignoreBufferUntil c3 - now e))) None (timers c3))\<rparr>)"
    using vs by (simp add: waiting_def Let_def setTimeout_arm case_prod_beta c3_def c2_def)
  with ok3 timers_ok_arm_confirm [OF ok3] show ?thesis by simp
qed

lemma timers_ok_canPlay:
  assumes "timers_ok c"
  shows "timers_ok (canPlay e c)"
proof -
  let ?c1 = "c\<lparr>timers := clearField (bufferConfirmTimer c) (timers c), bufferConfirmTimer := None,
    bufferSuspected := False\<rparr>"
  have ok1: "timers_ok ?c1"
    using timers_ok_clear_confirm [OF assms] by (rule timers_ok_frame) (simp add: same_timers_def)
  then have "timers_ok (tick e ?c1)" by (rule timers_ok_frame) simp
  with ok1 show ?thesis by (simp add: canPlay_def Let_def timers_ok_scheduleRecovery)
qed

lemma timers_ok_attach:
  assumes ok: "timers_ok c" and no: "video c = None"
  shows "timers_ok (attach e v c)"
proof -
  let ?a = "arm TickT (now e + SYNC_CHECK_INTERVAL_MS) (Some SYNC_CHECK_INTERVAL_MS) (timers c)"
  let ?c1 = "c\<lparr>video := Some (attach_listeners v), tickTimer := Some (fst ?a), timers := snd ?a\<rparr>"
  from ok no have "timers_core ?c1"
    unfolding timers_ok_defs by (auto simp: slots_start)
  then have "timers_ok (updateHeartbeat e ?c1)" by (rule timers_ok_updateHeartbeat)
  then show ?thesis
    by (simp add: attach_def setInterval_arm case_prod_beta Let_def timers_ok_apply)
qed

lemma timers_ok_setHost:
  assumes "timers_ok c"
  shows "timers_ok (setHost e b c)"
proof (cases "isHost c = b")
  case False
  let ?c1 = "c\<lparr>isHost := b, drift := resetDrift (now e) POST_SEEK_SETTLE_MS (drift c),
    softCorrectionSince := None\<rparr>"
  from assms have "timers_core ?c1" unfolding timers_ok_defs by simp
  then have "timers_ok (updateHeartbeat e ?c1)" by (rule timers_ok_updateHeartbeat)
  with False show ?thesis by (simp add: setHost_def Let_def timers_ok_apply)
qed (simp add: setHost_def assms)

text \<open>After \<open>destroy\<close> no timer of the controller is left.\<close>

lemma live_empty:
  assumes "\<And>k. handles_of k ts = []"
  shows "live ts = []"
proof (rule ccontr)
  assume "live ts \<noteq> []"
  then obtain x xs where "live ts = x # xs" by (cases "live ts") auto
  then have "handles_of (callback (snd x)) ts \<noteq> []" by (simp add: handles_of_def)
  with assms show False by blast
qed

lemma destroy_timers:
  assumes "timers_ok c"
  shows "timers_ok (destroy c)" and "live (timers (destroy c)) = []"
proof -
  from assms have empty: "slots (timers (destroy c)) None None None None None"
    by (simp add: timers_ok_defs destroy_def Let_def cancelScheduledPlay_def slots_stop)
  then show "timers_ok (destroy c)"
    by (simp add: timers_ok_defs) (simp add: destroy_def Let_def cancelScheduledPlay_def)
  have "handles_of k (timers (destroy c)) = []" for k
    using empty by (cases k) (simp_all add: slots_def tracks_def)
  then show "live (timers (destroy c)) = []" by (rule live_empty)
qed

section \<open>The event loop keeps the invariant\<close>

lemma timers_ok_run_timer:
  assumes ok: "timers_ok c" and ex: "expire h t (timers c) = Some (k, ts)"
  shows "timers_ok (run_timer e k (c\<lparr>timers := ts\<rparr>))"
proof -
  from ok have sl: "slots (timers c) (tickTimer c) (heartbeatTimer c) (playTimer c)
      (bufferConfirmTimer c) (recoveryTimer c)"
    by (simp add: timers_ok_defs)
  have interval: "timers_ok (c\<lparr>timers := ts\<rparr>)" if "tracks (timers c) k True f" for f
    using expire_interval [OF _ ex that] ok sl by (simp add: timers_ok_defs slots_def)
  show ?thesis
  proof (cases k)
    case TickT
    with sl interval have "timers_ok (c\<lparr>timers := ts\<rparr>)" unfolding slots_def by blast
    with TickT show ?thesis by (simp add: timers_ok_frame [where c = "c\<lparr>timers := ts\<rparr>"])
  next
    case HeartbeatT
    with sl interval have "timers_ok (c\<lparr>timers := ts\<rparr>)" unfolding slots_def by blast
    with HeartbeatT show ?thesis by (simp add: timers_ok_frame [where c = "c\<lparr>timers := ts\<rparr>"])
  next
    case PlayT
    with sl have "ts = clearField (playTimer c) (timers c)"
      by (intro expire_timeout_field [OF ex]) (simp add: slots_def)
    then have "same_timers (cancelScheduledPlay c) (play_fires (c\<lparr>timers := ts\<rparr>))"
      by (simp add: play_fires_def cancelScheduledPlay_def Let_def split: option.splits)
    with PlayT ok show ?thesis by (auto intro: timers_ok_frame timers_ok_cancel)
  next
    case BufferConfirmT
    with sl have ts: "ts = clearField (bufferConfirmTimer c) (timers c)"
      by (intro expire_timeout_field [OF ex]) (simp add: slots_def)
    then have "same_timers (c\<lparr>timers := ts, bufferConfirmTimer := None\<rparr>) (bufferConfirm_fires e (c\<lparr>timers := ts\<rparr>))"
      by (simp add: bufferConfirm_fires_def Let_def split: option.splits)
    with BufferConfirmT ts timers_ok_clear_confirm [OF ok] show ?thesis
      by (auto intro: timers_ok_frame)
  next
    case RecoveryT
    with sl have ts: "ts = clearField (recoveryTimer c) (timers c)"
      by (intro expire_timeout_field [OF ex]) (simp add: slots_def)
    then have "same_timers (c\<lparr>timers := ts, recoveryTimer := None\<rparr>) (recovery_fires e (c\<lparr>timers := ts\<rparr>))"
      by (simp add: recovery_fires_def Let_def split: option.splits)
    with RecoveryT ts timers_ok_clear_recovery [OF ok] show ?thesis
      by (auto intro: timers_ok_frame)
  qed
qed

lemma timers_ok_listener: "timers_ok c \<Longrightarrow> timers_ok (run_listener e l c)"
  by (cases l) (auto simp: timers_ok_waiting timers_ok_canPlay intro: timers_ok_frame)

lemma timers_ok_dispatch: "timers_ok c \<Longrightarrow> timers_ok (dispatch e t c)"
proof -
  have "timers_ok (fold (run_listener e) ls c)" if "timers_ok c" for ls
    using that by (induction ls arbitrary: c) (auto simp: timers_ok_listener)
  then show "timers_ok c \<Longrightarrow> timers_ok (dispatch e t c)"
    by (simp add: dispatch_def split: option.splits)
qed

lemma timers_ok_onUserPause: "timers_ok c \<Longrightarrow> timers_ok (onUserPause c)"
  unfolding onUserPause_def
  by (auto intro: timers_ok_frame [OF timers_ok_cancel] split: option.splits)

lemma timers_ok_handle:
  assumes ok: "timers_ok c" and "\<And>v. ev = Attach v \<Longrightarrow> video c = None"
  shows "timers_ok (handle e ev c)"
proof (cases ev)
  case (SetRoomState st f)
  have "timers_ok (c\<lparr>lastRevision := revision st, state := Some st\<rparr>)"
    using ok by (rule timers_ok_frame) simp
  with ok show ?thesis by (simp add: SetRoomState setRoomState_def timers_ok_apply)
next
  case (Media v)
  have "same_timers c (handle e (Media v) c)" by (simp add: same_timers_def split: option.splits)
  with ok Media show ?thesis by (auto intro: timers_ok_frame)
next
  case (TimerFires h)
  with ok show ?thesis by (auto simp: timers_ok_run_timer split: option.splits)
next
  case (Settle p b)
  then show ?thesis using ok by (auto intro: timers_ok_frame)
qed (use assms in \<open>auto simp: timers_ok_attach timers_ok_setHost realign_def timers_ok_apply
    timers_ok_dispatch timers_ok_onUserPause destroy_timers intro: timers_ok_frame\<close>)

lemma timers_ok_step:
  assumes "timers_ok c" and "\<And>v. ev = Attach v \<Longrightarrow> video c = None"
  shows "timers_ok (step e ev c)"
proof -
  have "timers_ok (c\<lparr>log := []\<rparr>)" using assms(1) by (rule timers_ok_frame) simp
  then have "timers_ok (handle e ev (c\<lparr>log := []\<rparr>))" using assms(2) by (simp add: timers_ok_handle)
  then show ?thesis
    unfolding step_def run_microtask_def by (auto intro: timers_ok_frame)
qed

interpretation ctl_timers: invariant_system ctl_init ctl_step timers_ok
proof unfold_locales
  show "ctl_init c \<Longrightarrow> timers_ok c" for c
    by (auto simp: ctl_init_def newController_def timers_ok_defs slots_def)
  show "timers_ok c \<Longrightarrow> ctl_step c ee c' \<Longrightarrow> timers_ok c'" for c ee c'
    by (erule ctl_step.cases) (auto intro: timers_ok_step)
qed

section \<open>Properties\<close>

text \<open>The field that keeps the handle of a kind of timer.\<close>

fun field_of :: "ctl_timer \<Rightarrow> Controller \<Rightarrow> nat option" where
  "field_of TickT c = tickTimer c"
| "field_of HeartbeatT c = heartbeatTimer c"
| "field_of PlayT c = playTimer c"
| "field_of BufferConfirmT c = bufferConfirmTimer c"
| "field_of RecoveryT c = recoveryTimer c"

lemma slots_field:
  assumes "slots (timers c) (tickTimer c) (heartbeatTimer c) (playTimer c) (bufferConfirmTimer c) (recoveryTimer c)"
  shows "tracks (timers c) k (k = TickT \<or> k = HeartbeatT) (field_of k c)"
  using assms by (cases k) (simp_all add: slots_def)

lemma tracks_all:
  assumes "\<And>k. tracks ts k (k = TickT \<or> k = HeartbeatT) (f k)"
  shows "handles_of k ts = (case f k of None \<Rightarrow> [] | Some h \<Rightarrow> [h])"
    and "x \<in> set (live ts) \<Longrightarrow> (period (snd x) \<noteq> None) = (callback (snd x) = TickT \<or> callback (snd x) = HeartbeatT)"
  using assms unfolding tracks_def by blast+

text \<open>
  C11. No timer leaks: in every reachable state of the controller the live timers are exactly the ones its fields
  name, each kind its own: a field that is set names the only live timer of its kind, a field that is not set has
  none, and no two timers share a handle. The synchronisation check and the heartbeat repeat, the
  others do not; the check runs exactly while an element is attached, and the heartbeat exactly
  while the attached element is the host's.
\<close>

theorem controller_timers:
  assumes "ctl_reachable c"
  shows "(\<forall>k. handles_of k (timers c) = (case field_of k c of None \<Rightarrow> [] | Some h \<Rightarrow> [h])) \<and>
         distinct (map fst (live (timers c))) \<and>
         (\<forall>x \<in> set (live (timers c)). (period (snd x) \<noteq> None) = (callback (snd x) = TickT \<or> callback (snd x) = HeartbeatT)) \<and>
         (tickTimer c = None) = (video c = None) \<and>
         (heartbeatTimer c = None) = (\<not> isHost c \<or> video c = None)"
proof -
  have "timers_ok c" using assms by (rule ctl_timers.inv_reachable)
  then have sl: "slots (timers c) (tickTimer c) (heartbeatTimer c) (playTimer c)
      (bufferConfirmTimer c) (recoveryTimer c)"
    and iff: "(tickTimer c = None) = (video c = None)"
      "(heartbeatTimer c = None) = (\<not> isHost c \<or> video c = None)"
    by (simp_all add: timers_ok_defs)
  show ?thesis using iff tracks_all [OF slots_field [OF sl]] sl by (simp add: slots_def timers_wf_def)
qed

theorem controller_timers_witness:
  "length (handles_of HeartbeatT (timers (step (demo_env 0) (Attach demo_video) (newController True)))) = 1"
proof -
  let ?c = "step (demo_env 0) (Attach demo_video) (newController True)"
  have "isHost ?c \<and> video ?c \<noteq> None"
    by code_simp
  then show ?thesis using controller_timers [OF attached_reachable [of "demo_env 0" demo_video True]] by auto
qed

text \<open>
  \<open>destroy\<close> releases everything, in every reachable state: no timer is left alive, the element
  is dropped, and it is left with its listeners removed.
\<close>

theorem destroy_releases:
  assumes "ctl_reachable c"
  shows "live (timers (step e Destroy c)) = [] \<and> video (step e Destroy c) = None \<and>
         (\<forall>v. video c = Some v \<longrightarrow> detach_listeners v \<in> set (detached (step e Destroy c)))"
proof -
  have "timers_ok c" using assms by (rule ctl_timers.inv_reachable)
  then have "timers_ok (c\<lparr>log := []\<rparr>)" by (rule timers_ok_frame) simp
  then have "live (timers (destroy (c\<lparr>log := []\<rparr>))) = []" by (rule destroy_timers)
  then show ?thesis
    by (auto simp: step_def run_microtask_def) (simp_all add: destroy_def Let_def cancelScheduledPlay_def)
qed

theorem destroy_releases_witness:
  "live (timers (step (demo_env 5) Destroy (step (demo_env 0) (Attach demo_video) (newController True)))) = []"
  using destroy_releases [OF attached_reachable, of "demo_env 5" "demo_env 0" demo_video True] by blast

definition ctl_listeners :: "(string \<times> listener) list" where
  "ctl_listeners = [(''waiting'', L_waiting), (''stalled'', L_waiting), (''canplay'', L_canPlay),
     (''playing'', L_canPlay), (''progress'', L_retrySeek), (''loadedmetadata'', L_loadedMetadata),
     (''pause'', L_nativePause), (''ended'', L_ended)]"

lemma addEventListener_fresh:
  "(t, l) \<notin> set (v_listeners v) \<Longrightarrow> addEventListener t l v = v\<lparr>v_listeners := v_listeners v @ [(t, l)]\<rparr>"
  by (simp add: addEventListener_def)

text \<open>
  Attaching and detaching is a round trip: an element that had none of the controller's
  listeners is, after both, exactly what it was.
\<close>

theorem attach_detach_roundtrip:
  assumes "set (v_listeners v) \<inter> set ctl_listeners = {}"
  shows "detach_listeners (attach_listeners v) = v"
proof -
  have att: "attach_listeners v = v\<lparr>v_listeners := v_listeners v @ ctl_listeners\<rparr>"
    using assms by (simp add: attach_listeners_def Let_def addEventListener_fresh ctl_listeners_def)
  have "detach_listeners w = w\<lparr>v_listeners := filter (\<lambda>x. x \<notin> set ctl_listeners) (v_listeners w)\<rparr>" for w
    by (simp add: detach_listeners_def removeEventListener_def ctl_listeners_def Let_def)
  moreover have "filter (\<lambda>x. x \<notin> set ctl_listeners) (v_listeners v) = v_listeners v"
    using assms by (auto simp: filter_id_conv)
  ultimately show ?thesis by (simp add: att)
qed

theorem attach_detach_roundtrip_witness: "detach_listeners (attach_listeners demo_video) = demo_video"
  by (rule attach_detach_roundtrip) (simp add: demo_video_def)

end
