(* ===== verification/SyncController_Log.thy ===== *)
theory SyncController_Log
  imports SyncController_Timers
begin

text \<open>
  What the operations of the controller change and what they emit: for every operation, the fields
  it leaves alone (collected in \<open>frame_simps\<close>) and the condition under which all the effects it
  logs satisfy a predicate (collected in \<open>log_simps\<close>). The properties of the controller read
  off these two collections.
\<close>

definition logs :: "(effect \<Rightarrow> bool) \<Rightarrow> Controller \<Rightarrow> bool" where
  "logs P c \<longleftrightarrow> list_all P (log c)"

section \<open>Fields left alone\<close>

lemma basic_frame [frame_simps]:
  "state (emit x c) = state c" "state (video_pause c) = state c" "state (set_rate r c) = state c"
  "state (ws_send t p a pr c) = state c" "state (emitStatus s c) = state c" "state (tryPlay c) = state c"
  "state (play_if_paused c) = state c" "state (cancelScheduledPlay c) = state c"
  "isHost (emit x c) = isHost c" "isHost (video_pause c) = isHost c" "isHost (set_rate r c) = isHost c"
  "isHost (ws_send t p a pr c) = isHost c" "isHost (emitStatus s c) = isHost c" "isHost (tryPlay c) = isHost c"
  "isHost (play_if_paused c) = isHost c" "isHost (cancelScheduledPlay c) = isHost c"
  "confirmedBuffering (emit x c) = confirmedBuffering c"
  "confirmedBuffering (video_pause c) = confirmedBuffering c"
  "confirmedBuffering (set_rate r c) = confirmedBuffering c"
  "confirmedBuffering (ws_send t p a pr c) = confirmedBuffering c"
  "confirmedBuffering (emitStatus s c) = confirmedBuffering c"
  "confirmedBuffering (tryPlay c) = confirmedBuffering c"
  "confirmedBuffering (play_if_paused c) = confirmedBuffering c"
  "confirmedBuffering (cancelScheduledPlay c) = confirmedBuffering c"
  "hostBufferingReported (emit x c) = hostBufferingReported c"
  "hostBufferingReported (video_pause c) = hostBufferingReported c"
  "hostBufferingReported (set_rate r c) = hostBufferingReported c"
  "hostBufferingReported (ws_send t p a pr c) = hostBufferingReported c"
  "hostBufferingReported (emitStatus s c) = hostBufferingReported c"
  "hostBufferingReported (tryPlay c) = hostBufferingReported c"
  "hostBufferingReported (play_if_paused c) = hostBufferingReported c"
  "hostBufferingReported (cancelScheduledPlay c) = hostBufferingReported c"
  "lastRevision (emit x c) = lastRevision c" "lastRevision (video_pause c) = lastRevision c"
  "lastRevision (set_rate r c) = lastRevision c" "lastRevision (ws_send t p a pr c) = lastRevision c"
  "lastRevision (emitStatus s c) = lastRevision c" "lastRevision (tryPlay c) = lastRevision c"
  "lastRevision (play_if_paused c) = lastRevision c" "lastRevision (cancelScheduledPlay c) = lastRevision c"
  by (simp_all add: emit_def video_pause_def set_rate_def ws_send_def emitStatus_def tryPlay_def
      play_if_paused_def cancelScheduledPlay_def split: option.splits)

lemma video_frame [frame_simps]:
  "(video (emit x c) = None) = (video c = None)" "(video (video_pause c) = None) = (video c = None)"
  "(video (set_rate r c) = None) = (video c = None)" "(video (ws_send t p a pr c) = None) = (video c = None)"
  "(video (emitStatus s c) = None) = (video c = None)" "(video (tryPlay c) = None) = (video c = None)"
  "(video (cancelScheduledPlay c) = None) = (video c = None)"
  by (simp_all add: emit_def video_pause_def set_rate_def ws_send_def emitStatus_def tryPlay_def
      cancelScheduledPlay_def split: option.splits)

text \<open>The fields the protocol with the server turns on, as one value.\<close>

definition flags :: "Controller \<Rightarrow> PlaybackState option \<times> bool \<times> bool \<times> bool \<times> int" where
  "flags c = (state c, isHost c, confirmedBuffering c, hostBufferingReported c, lastRevision c)"

lemma flagsD:
  assumes "flags c = flags c'"
  shows "state c = state c'" "isHost c = isHost c'" "confirmedBuffering c = confirmedBuffering c'"
    "hostBufferingReported c = hostBufferingReported c'" "lastRevision c = lastRevision c'"
  using assms by (simp_all add: flags_def)

lemma flags_update [frame_simps]:
  "flags (c\<lparr>pendingSeek := m\<rparr>) = flags c" "flags (c\<lparr>applyingRemoteState := b\<rparr>) = flags c"
  "flags (c\<lparr>bufferSuspected := b\<rparr>) = flags c" "flags (c\<lparr>memberBufferingReported := b\<rparr>) = flags c"
  "flags (c\<lparr>ignoreBufferUntil := r\<rparr>) = flags c" "flags (c\<lparr>recoveryUntil := r\<rparr>) = flags c"
  "flags (c\<lparr>softCorrectionSince := m\<rparr>) = flags c" "flags (c\<lparr>autoplayBlocked := b\<rparr>) = flags c"
  "flags (c\<lparr>drift := d\<rparr>) = flags c" "flags (c\<lparr>timers := ts\<rparr>) = flags c" "flags (c\<lparr>promises := ps\<rparr>) = flags c"
  "flags (c\<lparr>microtask := b\<rparr>) = flags c" "flags (c\<lparr>log := l\<rparr>) = flags c" "flags (c\<lparr>video := ov\<rparr>) = flags c"
  "flags (c\<lparr>playTimer := h\<rparr>) = flags c" "flags (c\<lparr>recoveryTimer := h\<rparr>) = flags c"
  "flags (c\<lparr>bufferConfirmTimer := h\<rparr>) = flags c" "flags (c\<lparr>tickTimer := h\<rparr>) = flags c"
  "flags (c\<lparr>heartbeatTimer := h\<rparr>) = flags c" "flags (c\<lparr>detached := dt\<rparr>) = flags c"
  by (simp_all add: flags_def)

lemma flags_basic [frame_simps]:
  "flags (emit x c) = flags c" "flags (video_pause c) = flags c" "flags (set_rate r c) = flags c"
  "flags (ws_send t p a pr c) = flags c" "flags (emitStatus s c) = flags c" "flags (tryPlay c) = flags c"
  "flags (play_if_paused c) = flags c" "flags (cancelScheduledPlay c) = flags c"
  by (simp_all add: flags_def basic_frame)

lemma flags_seek [frame_simps]:
  "flags (perform_seek e x m c) = flags c" "flags (seek e ms c) = flags c" "flags (retrySeek e c) = flags c"
proof -
  show perf: "flags (perform_seek e x m c) = flags c" for x m c
    by (simp add: perform_seek_def frame_simps split: option.splits)
  show sk: "flags (seek e ms c) = flags c" for ms
    by (simp add: seek_def perf Let_def frame_simps split: option.splits jsnum.splits)
  show "flags (retrySeek e c) = flags c"
    by (simp add: retrySeek_def sk split: option.splits)
qed

lemma flags_apply [frame_simps]:
  "flags (schedulePlay e t c) = flags c" "flags (scheduleRecovery e c) = flags c"
  "flags (apply_align e v st f m j c) = flags c" "flags (apply_stopped e v st c) = flags c"
  "flags (apply_playing e st a b c) = flags c"
  by (simp_all add: schedulePlay_def scheduleRecovery_def apply_align_def apply_stopped_def apply_playing_def
      Let_def frame_simps split: prod.splits option.splits)

lemma flags_apply_state [frame_simps]: "flags (apply_state e p f c) = flags c"
  by (rule apply_state_cases [where c = c and e = e and p = p and f = f]) (simp_all add: frame_simps)

lemma flags_work [frame_simps]:
  "flags (applyCorrection e a c) = flags c" "flags (tick e c) = flags c" "flags (heartbeat c) = flags c"
  "flags (updateHeartbeat e c) = flags c" "flags (loadedMetadata e c) = flags c" "flags (waiting e c) = flags c"
  "flags (canPlay e c) = flags c" "flags (nativePause c) = flags c" "flags (ended c) = flags c"
  "flags (play_fires c) = flags c"
proof -
  show ac: "flags (applyCorrection e a c) = flags c" for a c
    by (simp add: applyCorrection_def Let_def frame_simps split: option.splits)
  show tk: "flags (tick e c) = flags c" for c
    by (simp add: tick_def Let_def ac frame_simps split: option.splits prod.splits)
  show "flags (heartbeat c) = flags c" "flags (updateHeartbeat e c) = flags c"
    "flags (loadedMetadata e c) = flags c" "flags (waiting e c) = flags c" "flags (canPlay e c) = flags c"
    "flags (nativePause c) = flags c" "flags (ended c) = flags c" "flags (play_fires c) = flags c"
    by (simp_all add: heartbeat_def updateHeartbeat_def loadedMetadata_def waiting_def canPlay_def
        nativePause_def ended_def play_fires_def tk Let_def frame_simps split: option.splits prod.splits)
qed

lemma flags_listener [frame_simps]: "flags (run_listener e l c) = flags c"
  by (cases l) (simp_all add: frame_simps)

lemma flags_dispatch [frame_simps]: "flags (dispatch e t c) = flags c"
proof -
  have "flags (fold (run_listener e) ls c) = flags c" for ls
    by (induction ls arbitrary: c) (simp_all add: frame_simps)
  then show ?thesis by (simp add: dispatch_def split: option.splits)
qed

lemma flags_user [frame_simps]:
  "flags (onUserPlay c) = flags c" "flags (onUserPause c) = flags c" "flags (onUserSeek e ms c) = flags c"
  "flags (onUserRateChange r c) = flags c" "flags (resumeLocal c) = flags c" "flags (realign e c) = flags c"
  "flags (suspend c) = flags c" "flags (destroy c) = flags c" "flags (attach e v c) = flags c"
  "flags (run_microtask c) = flags c"
  by (simp_all add: onUserPlay_def onUserPause_def onUserSeek_def onUserRateChange_def resumeLocal_def
      realign_def suspend_def destroy_def attach_def run_microtask_def Let_def frame_simps
      split: option.splits prod.splits)

section \<open>Effects\<close>

lemma logs_update [log_simps]:
  "logs P (c\<lparr>state := a\<rparr>) = logs P c" "logs P (c\<lparr>lastRevision := i\<rparr>) = logs P c"
  "logs P (c\<lparr>pendingSeek := m\<rparr>) = logs P c" "logs P (c\<lparr>applyingRemoteState := b\<rparr>) = logs P c"
  "logs P (c\<lparr>bufferSuspected := b\<rparr>) = logs P c" "logs P (c\<lparr>confirmedBuffering := b\<rparr>) = logs P c"
  "logs P (c\<lparr>hostBufferingReported := b\<rparr>) = logs P c" "logs P (c\<lparr>memberBufferingReported := b\<rparr>) = logs P c"
  "logs P (c\<lparr>ignoreBufferUntil := r\<rparr>) = logs P c" "logs P (c\<lparr>recoveryUntil := r\<rparr>) = logs P c"
  "logs P (c\<lparr>softCorrectionSince := m\<rparr>) = logs P c" "logs P (c\<lparr>autoplayBlocked := b\<rparr>) = logs P c"
  "logs P (c\<lparr>currentStatus := s\<rparr>) = logs P c" "logs P (c\<lparr>isHost := b\<rparr>) = logs P c"
  "logs P (c\<lparr>drift := d\<rparr>) = logs P c" "logs P (c\<lparr>timers := ts\<rparr>) = logs P c" "logs P (c\<lparr>promises := ps\<rparr>) = logs P c"
  "logs P (c\<lparr>microtask := b\<rparr>) = logs P c" "logs P (c\<lparr>video := ov\<rparr>) = logs P c"
  "logs P (c\<lparr>playTimer := h\<rparr>) = logs P c" "logs P (c\<lparr>recoveryTimer := h\<rparr>) = logs P c"
  "logs P (c\<lparr>bufferConfirmTimer := h\<rparr>) = logs P c" "logs P (c\<lparr>tickTimer := h\<rparr>) = logs P c"
  "logs P (c\<lparr>heartbeatTimer := h\<rparr>) = logs P c" "logs P (c\<lparr>detached := dt\<rparr>) = logs P c"
  "logs P (c\<lparr>log := []\<rparr>)"
  by (simp_all add: logs_def)

lemma logs_basic [log_simps]:
  "logs P (emit x c) = (logs P c \<and> P x)"
  "logs P (video_pause c) = (logs P c \<and> (video c \<noteq> None \<longrightarrow> P VPause))"
  "logs P (set_rate r c) = (logs P c \<and> (video c \<noteq> None \<longrightarrow> P (VRate r)))"
  "logs P (ws_send t p a pr c) = (logs P c \<and> P (Send t p a))"
  "logs P (cancelScheduledPlay c) = logs P c"
  "logs P (tryPlay c) =
     (logs P c \<and> (video c \<noteq> None \<and> \<not> autoplayBlocked c \<and> \<not> confirmedBuffering c \<longrightarrow> P VPlay))"
  "logs P (emitStatus s c) =
     (logs P c \<and> (\<not> (autoplayBlocked c \<and> s \<noteq> Autoplay_blocked) \<and> currentStatus c \<noteq> Some s \<longrightarrow> P (Status s)))"
  by (auto simp: logs_def emit_def video_pause_def set_rate_def ws_send_def cancelScheduledPlay_def
      tryPlay_def emitStatus_def split: option.splits)

lemma logs_mono: "logs P c \<Longrightarrow> (\<And>x. P x \<Longrightarrow> Q x) \<Longrightarrow> logs Q c"
  unfolding logs_def by (rule list.pred_mono_strong)

lemma logs_memb: "logs (\<lambda>x. x \<noteq> y) c \<longleftrightarrow> y \<notin> set (log c)"
  by (auto simp: logs_def list_all_iff)

text \<open>
  A predicate that admits the harmless effects: pausing, setting the rate, reporting a status. The
  rules below say under which conditions an operation adds only effects that satisfy it.
\<close>

definition harmless :: "(effect \<Rightarrow> bool) \<Rightarrow> bool" where
  "harmless P \<longleftrightarrow> P VPause \<and> (\<forall>r. P (VRate r)) \<and> (\<forall>s. P (Status s))"

lemma harmlessD [simp]:
  "harmless P \<Longrightarrow> P VPause" "harmless P \<Longrightarrow> P (VRate r)" "harmless P \<Longrightarrow> P (Status s)"
  by (simp_all add: harmless_def)

lemma logs_seek:
  assumes "\<And>s. P (VSeek s)"
  shows "logs P (perform_seek e x m c) = logs P c" "logs P (seek e ms c) = logs P c"
    "logs P (retrySeek e c) = logs P c"
proof -
  show perf: "logs P (perform_seek e x m c) = logs P c" for x m c
    using assms by (simp add: perform_seek_def log_simps split: option.splits)
  show sk: "logs P (seek e ms c) = logs P c" for ms
    by (simp add: seek_def perf Let_def log_simps split: option.splits jsnum.splits)
  show "logs P (retrySeek e c) = logs P c"
    by (simp add: retrySeek_def sk split: option.splits)
qed

lemma logs_retrySeek_none: "pendingSeek c = None \<Longrightarrow> retrySeek e c = c"
  by (simp add: retrySeek_def)

lemma logs_apply_parts:
  assumes "harmless P"
  shows "logs P (schedulePlay e t c) = logs P c" "logs P (scheduleRecovery e c) = logs P c"
    "logs P (apply_stopped e v st c) = logs P c" "logs P (apply_playing e st a b c) = logs P c"
    "logs P (heartbeat c) = (logs P c \<and> (\<forall>v. video c = Some v \<longrightarrow> P (Send ''telemetry.host.playback''
            (JObj [(''positionMs'', JNum (current_ms v)), (''paused'', JBool (v_paused v)),
                   (''readyState'', JNum (Num (of_nat (v_readyState v))))]) False)))"
    "logs P (updateHeartbeat e c) = logs P c"
  using assms
  by (simp_all add: schedulePlay_def scheduleRecovery_def apply_stopped_def apply_playing_def
      heartbeat_def updateHeartbeat_def Let_def log_simps split: prod.splits option.splits)

lemma logs_apply_align:
  assumes "harmless P" and "\<not> isHost c \<or> f \<or> m \<longrightarrow> (\<forall>s. P (VSeek s))"
  shows "logs P (apply_align e v st f m j c) = logs P c"
  using assms by (auto simp: apply_align_def Let_def log_simps logs_seek)

lemma logs_apply:
  assumes "harmless P"
    and "\<not> isHost c \<or> f \<or> (\<exists>q st. p = Some q \<and> state c = Some st \<and> mediaId q \<noteq> mediaId st)
           \<longrightarrow> (\<forall>s. P (VSeek s))"
  shows "logs P (apply_state e p f c) = logs P c"
proof (rule apply_state_cases [where c = c and e = e and p = p and f = f])
  fix v st m j a b
  assume "state c = Some st" "m = (case p of None \<Rightarrow> False | Some q \<Rightarrow> mediaId q \<noteq> mediaId st)"
    "apply_state e p f c = (apply_playing e st a b (apply_align e v st f m j c))\<lparr>microtask := True\<rparr>"
  with assms show ?thesis
    by (auto simp: log_simps logs_apply_parts logs_apply_align split: option.splits)
next
  fix v st m j
  assume "state c = Some st" "m = (case p of None \<Rightarrow> False | Some q \<Rightarrow> mediaId q \<noteq> mediaId st)"
    "apply_state e p f c = (apply_stopped e v st (apply_align e v st f m j c))\<lparr>microtask := True\<rparr>"
  with assms show ?thesis
    by (auto simp: log_simps logs_apply_parts logs_apply_align split: option.splits)
qed simp

lemma logs_play_if_paused:
  assumes "\<not> confirmedBuffering c \<Longrightarrow> P VPlay"
  shows "logs P (play_if_paused c) = logs P c"
  using assms by (auto simp: play_if_paused_def log_simps split: option.splits)

lemma logs_applyCorrection:
  assumes "harmless P" and "\<And>s. P (VSeek s)"
  shows "logs P (applyCorrection e a c) = logs P c"
  using assms by (simp add: applyCorrection_def Let_def log_simps logs_seek split: option.splits)

lemma logs_tick:
  assumes "harmless P" and "\<not> isHost c \<longrightarrow> (\<forall>s. P (VSeek s))"
    and play: "\<And>st. state c = Some st \<Longrightarrow> phase st = Playing \<Longrightarrow> \<not> confirmedBuffering c \<Longrightarrow> P VPlay"
  shows "logs P (tick e c) = logs P c"
proof -
  have lp: "logs P (play_if_paused c') = logs P c'"
    if "state c = Some st" "phase st = Playing" "flags c' = flags c" for c' st
    by (rule logs_play_if_paused) (use that play flagsD(3) [of c' c] in blast)
  show ?thesis
    using assms(1,2)
    by (auto simp: tick_def Let_def log_simps lp frame_simps logs_applyCorrection
        split: option.splits prod.splits)
qed

section \<open>Answers awaited and the flag of \<open>apply\<close>\<close>

text \<open>The answers the host's reports still wait for.\<close>

definition hostp :: "Controller \<Rightarrow> ctl_promise list" where
  "hostp c = filter (\<lambda>p. p \<noteq> PlayPromise) (promises c)"

lemma hostp_update [frame_simps]:
  "hostp (c\<lparr>state := a\<rparr>) = hostp c" "hostp (c\<lparr>lastRevision := i\<rparr>) = hostp c"
  "hostp (c\<lparr>pendingSeek := m\<rparr>) = hostp c" "hostp (c\<lparr>applyingRemoteState := b\<rparr>) = hostp c"
  "hostp (c\<lparr>bufferSuspected := b\<rparr>) = hostp c" "hostp (c\<lparr>confirmedBuffering := b\<rparr>) = hostp c"
  "hostp (c\<lparr>hostBufferingReported := b\<rparr>) = hostp c" "hostp (c\<lparr>memberBufferingReported := b\<rparr>) = hostp c"
  "hostp (c\<lparr>ignoreBufferUntil := r\<rparr>) = hostp c" "hostp (c\<lparr>recoveryUntil := r\<rparr>) = hostp c"
  "hostp (c\<lparr>softCorrectionSince := m\<rparr>) = hostp c" "hostp (c\<lparr>autoplayBlocked := b\<rparr>) = hostp c"
  "hostp (c\<lparr>drift := d\<rparr>) = hostp c" "hostp (c\<lparr>timers := ts\<rparr>) = hostp c" "hostp (c\<lparr>isHost := b\<rparr>) = hostp c"
  "hostp (c\<lparr>microtask := b\<rparr>) = hostp c" "hostp (c\<lparr>log := l\<rparr>) = hostp c" "hostp (c\<lparr>video := ov\<rparr>) = hostp c"
  "hostp (c\<lparr>playTimer := h\<rparr>) = hostp c" "hostp (c\<lparr>recoveryTimer := h\<rparr>) = hostp c"
  "hostp (c\<lparr>bufferConfirmTimer := h\<rparr>) = hostp c" "hostp (c\<lparr>tickTimer := h\<rparr>) = hostp c"
  "hostp (c\<lparr>heartbeatTimer := h\<rparr>) = hostp c" "hostp (c\<lparr>detached := dt\<rparr>) = hostp c"
  "hostp (c\<lparr>currentStatus := s\<rparr>) = hostp c"
  by (simp_all add: hostp_def)

lemma hostp_basic [frame_simps]:
  "hostp (emit x c) = hostp c" "hostp (video_pause c) = hostp c" "hostp (set_rate r c) = hostp c"
  "hostp (ws_send t p a None c) = hostp c" "hostp (emitStatus s c) = hostp c" "hostp (tryPlay c) = hostp c"
  "hostp (play_if_paused c) = hostp c" "hostp (cancelScheduledPlay c) = hostp c"
  by (simp_all add: hostp_def emit_def video_pause_def set_rate_def ws_send_def emitStatus_def tryPlay_def
      play_if_paused_def cancelScheduledPlay_def split: option.splits)

lemma hostp_seek [frame_simps]:
  "hostp (perform_seek e x m c) = hostp c" "hostp (seek e ms c) = hostp c" "hostp (retrySeek e c) = hostp c"
proof -
  show perf: "hostp (perform_seek e x m c) = hostp c" for x m c
    by (simp add: perform_seek_def frame_simps split: option.splits)
  show sk: "hostp (seek e ms c) = hostp c" for ms
    by (simp add: seek_def perf Let_def frame_simps split: option.splits jsnum.splits)
  show "hostp (retrySeek e c) = hostp c"
    by (simp add: retrySeek_def sk split: option.splits)
qed

lemma hostp_apply [frame_simps]:
  "hostp (schedulePlay e t c) = hostp c" "hostp (scheduleRecovery e c) = hostp c"
  "hostp (apply_align e v st f m j c) = hostp c" "hostp (apply_stopped e v st c) = hostp c"
  "hostp (apply_playing e st a b c) = hostp c"
  by (simp_all add: schedulePlay_def scheduleRecovery_def apply_align_def apply_stopped_def apply_playing_def
      Let_def frame_simps split: prod.splits option.splits)

lemma hostp_apply_state [frame_simps]: "hostp (apply_state e p f c) = hostp c"
  by (rule apply_state_cases [where c = c and e = e and p = p and f = f]) (simp_all add: frame_simps)

lemma hostp_work [frame_simps]:
  "hostp (applyCorrection e a c) = hostp c" "hostp (tick e c) = hostp c" "hostp (heartbeat c) = hostp c"
  "hostp (updateHeartbeat e c) = hostp c" "hostp (loadedMetadata e c) = hostp c" "hostp (waiting e c) = hostp c"
  "hostp (canPlay e c) = hostp c" "hostp (nativePause c) = hostp c" "hostp (ended c) = hostp c"
  "hostp (play_fires c) = hostp c"
proof -
  show ac: "hostp (applyCorrection e a c) = hostp c" for a c
    by (simp add: applyCorrection_def Let_def frame_simps split: option.splits)
  show tk: "hostp (tick e c) = hostp c" for c
    by (simp add: tick_def Let_def ac frame_simps split: option.splits prod.splits)
  show "hostp (heartbeat c) = hostp c" "hostp (updateHeartbeat e c) = hostp c"
    "hostp (loadedMetadata e c) = hostp c" "hostp (waiting e c) = hostp c" "hostp (canPlay e c) = hostp c"
    "hostp (nativePause c) = hostp c" "hostp (ended c) = hostp c" "hostp (play_fires c) = hostp c"
    by (simp_all add: heartbeat_def updateHeartbeat_def loadedMetadata_def waiting_def canPlay_def
        nativePause_def ended_def play_fires_def tk Let_def frame_simps split: option.splits prod.splits)
qed

lemma hostp_dispatch [frame_simps]: "hostp (dispatch e t c) = hostp c"
proof -
  have "hostp (run_listener e l c) = hostp c" for l c by (cases l) (simp_all add: frame_simps)
  then have "hostp (fold (run_listener e) ls c) = hostp c" for ls
    by (induction ls arbitrary: c) simp_all
  then show ?thesis by (simp add: dispatch_def split: option.splits)
qed

lemma hostp_user [frame_simps]:
  "hostp (onUserPlay c) = hostp c" "hostp (onUserPause c) = hostp c" "hostp (onUserSeek e ms c) = hostp c"
  "hostp (onUserRateChange r c) = hostp c" "hostp (resumeLocal c) = hostp c" "hostp (realign e c) = hostp c"
  "hostp (suspend c) = hostp c" "hostp (destroy c) = hostp c" "hostp (attach e v c) = hostp c"
  "hostp (setRoomState e st f c) = hostp c" "hostp (run_microtask c) = hostp c"
  by (simp_all add: onUserPlay_def onUserPause_def onUserSeek_def onUserRateChange_def resumeLocal_def
      realign_def suspend_def destroy_def attach_def setRoomState_def run_microtask_def Let_def frame_simps
      split: option.splits prod.splits)

definition marks :: "Controller \<Rightarrow> bool \<times> bool" where
  "marks c = (applyingRemoteState c, microtask c)"

lemma marks_update [frame_simps]:
  "marks (c\<lparr>state := a\<rparr>) = marks c" "marks (c\<lparr>lastRevision := i\<rparr>) = marks c"
  "marks (c\<lparr>pendingSeek := m\<rparr>) = marks c" "marks (c\<lparr>promises := ps\<rparr>) = marks c"
  "marks (c\<lparr>bufferSuspected := b\<rparr>) = marks c" "marks (c\<lparr>confirmedBuffering := b\<rparr>) = marks c"
  "marks (c\<lparr>hostBufferingReported := b\<rparr>) = marks c" "marks (c\<lparr>memberBufferingReported := b\<rparr>) = marks c"
  "marks (c\<lparr>ignoreBufferUntil := r\<rparr>) = marks c" "marks (c\<lparr>recoveryUntil := r\<rparr>) = marks c"
  "marks (c\<lparr>softCorrectionSince := m\<rparr>) = marks c" "marks (c\<lparr>autoplayBlocked := b\<rparr>) = marks c"
  "marks (c\<lparr>drift := d\<rparr>) = marks c" "marks (c\<lparr>timers := ts\<rparr>) = marks c" "marks (c\<lparr>isHost := b\<rparr>) = marks c"
  "marks (c\<lparr>log := l\<rparr>) = marks c" "marks (c\<lparr>video := ov\<rparr>) = marks c"
  "marks (c\<lparr>playTimer := h\<rparr>) = marks c" "marks (c\<lparr>recoveryTimer := h\<rparr>) = marks c"
  "marks (c\<lparr>bufferConfirmTimer := h\<rparr>) = marks c" "marks (c\<lparr>tickTimer := h\<rparr>) = marks c"
  "marks (c\<lparr>heartbeatTimer := h\<rparr>) = marks c" "marks (c\<lparr>detached := dt\<rparr>) = marks c"
  by (simp_all add: marks_def)

lemma marks_basic [frame_simps]:
  "marks (emit x c) = marks c" "marks (video_pause c) = marks c" "marks (set_rate r c) = marks c"
  "marks (ws_send t p a pr c) = marks c" "marks (emitStatus s c) = marks c" "marks (tryPlay c) = marks c"
  "marks (play_if_paused c) = marks c" "marks (cancelScheduledPlay c) = marks c"
  by (simp_all add: marks_def emit_def video_pause_def set_rate_def ws_send_def emitStatus_def tryPlay_def
      play_if_paused_def cancelScheduledPlay_def split: option.splits)

lemma marks_seek [frame_simps]:
  "marks (perform_seek e x m c) = marks c" "marks (seek e ms c) = marks c" "marks (retrySeek e c) = marks c"
proof -
  show perf: "marks (perform_seek e x m c) = marks c" for x m c
    by (simp add: perform_seek_def frame_simps split: option.splits)
  show sk: "marks (seek e ms c) = marks c" for ms
    by (simp add: seek_def perf Let_def frame_simps split: option.splits jsnum.splits)
  show "marks (retrySeek e c) = marks c"
    by (simp add: retrySeek_def sk split: option.splits)
qed

lemma marks_work [frame_simps]:
  "marks (applyCorrection e a c) = marks c" "marks (tick e c) = marks c" "marks (heartbeat c) = marks c"
  "marks (updateHeartbeat e c) = marks c" "marks (loadedMetadata e c) = marks c" "marks (waiting e c) = marks c"
  "marks (scheduleRecovery e c) = marks c" "marks (canPlay e c) = marks c" "marks (nativePause c) = marks c"
  "marks (ended c) = marks c" "marks (play_fires c) = marks c" "marks (bufferConfirm_fires e c) = marks c"
  "marks (recovery_fires e c) = marks c"
proof -
  show ac: "marks (applyCorrection e a c) = marks c" for a c
    by (simp add: applyCorrection_def Let_def frame_simps split: option.splits)
  show tk: "marks (tick e c) = marks c" for c
    by (simp add: tick_def Let_def ac frame_simps split: option.splits prod.splits)
  show sr: "marks (scheduleRecovery e c) = marks c" for c
    by (simp add: scheduleRecovery_def frame_simps split: prod.splits)
  show "marks (heartbeat c) = marks c" "marks (updateHeartbeat e c) = marks c"
    "marks (loadedMetadata e c) = marks c" "marks (waiting e c) = marks c" "marks (canPlay e c) = marks c"
    "marks (nativePause c) = marks c" "marks (ended c) = marks c" "marks (play_fires c) = marks c"
    "marks (bufferConfirm_fires e c) = marks c" "marks (recovery_fires e c) = marks c"
    by (simp_all add: heartbeat_def updateHeartbeat_def loadedMetadata_def waiting_def canPlay_def
        nativePause_def ended_def play_fires_def bufferConfirm_fires_def recovery_fires_def tk sr Let_def
        frame_simps split: option.splits prod.splits)
qed

lemma marks_dispatch [frame_simps]: "marks (dispatch e t c) = marks c"
proof -
  have "marks (run_listener e l c) = marks c" for l c by (cases l) (simp_all add: frame_simps)
  then have "marks (fold (run_listener e) ls c) = marks c" for ls
    by (induction ls arbitrary: c) simp_all
  then show ?thesis by (simp add: dispatch_def split: option.splits)
qed

lemma marks_user [frame_simps]:
  "marks (onUserPlay c) = marks c" "marks (onUserPause c) = marks c" "marks (onUserSeek e ms c) = marks c"
  "marks (onUserRateChange r c) = marks c" "marks (resumeLocal c) = marks c"
  "marks (suspend c) = marks c" "marks (destroy c) = marks c"
  by (simp_all add: onUserPlay_def onUserPause_def onUserSeek_def onUserRateChange_def resumeLocal_def
      suspend_def destroy_def Let_def frame_simps split: option.splits prod.splits)

text \<open>\<open>apply\<close> raises the flag and queues its reset, or does nothing.\<close>

lemma marks_apply: "marks (apply_state e p f c) = marks c \<or> snd (marks (apply_state e p f c))"
  by (rule apply_state_cases [where c = c and e = e and p = p and f = f]) (simp_all add: marks_def)

lemma marks_handle: "marks (handle e ev c) = marks c \<or> snd (marks (handle e ev c))"
proof (cases ev)
  case (TimerFires h)
  have "marks (run_timer e k c) = marks c" for k c by (cases k) (simp_all add: frame_simps)
  then show ?thesis by (simp add: TimerFires frame_simps split: option.splits)
next
  case (Settle p ok)
  have "marks (settle p ok c) = marks c" for c by (cases p; cases ok) (simp_all add: frame_simps)
  then show ?thesis by (simp add: Settle frame_simps)
next
  case (Attach v)
  then show ?thesis
    using marks_apply [of e None True] by (auto simp: attach_def Let_def frame_simps split: prod.splits)
      (metis marks_update(14,17,21) marks_work(4))+
next
  case (SetRoomState st f)
  then show ?thesis
    using marks_apply [of e "state c" f "c\<lparr>lastRevision := revision st, state := Some st\<rparr>"]
    by (simp add: setRoomState_def frame_simps)
next
  case (SetHost b)
  then show ?thesis
    using marks_apply [of e None True] by (simp add: setHost_def Let_def frame_simps)
      (metis marks_update(11,13,15) marks_work(4))
next
  case Realign
  then show ?thesis using marks_apply by (simp add: realign_def)
qed (simp_all add: frame_simps split: option.splits)

definition unmarked :: "Controller \<Rightarrow> bool" where
  "unmarked c \<longleftrightarrow> marks c = (False, False)"

lemma unmarked_step: "unmarked c \<Longrightarrow> unmarked (step e ev c)"
  using marks_handle [of e ev "c\<lparr>log := []\<rparr>"]
  by (auto simp: unmarked_def step_def run_microtask_def) (auto simp: marks_def)

interpretation ctl_marks: invariant_system ctl_init ctl_step unmarked
proof unfold_locales
  show "ctl_init c \<Longrightarrow> unmarked c" for c
    by (auto simp: ctl_init_def newController_def unmarked_def marks_def)
  show "unmarked c \<Longrightarrow> ctl_step c ee c' \<Longrightarrow> unmarked c'" for c ee c'
    by (erule ctl_step.cases) (auto intro: unmarked_step)
qed

end
