(* ===== verification/SyncController_Props.thy ===== *)
theory SyncController_Props
  imports SyncController_Log
begin

text \<open>
  What the controller promises: who may be seeked and when, which room states take effect, when it
  starts playback, how it reports buffering, and two runs in which it does not do what its
  comments and the design document ask for.
\<close>

section \<open>Seeking\<close>

fun is_seek :: "effect \<Rightarrow> bool" where
  "is_seek (VSeek s) = True"
| "is_seek x = False"

lemma harmless_no_seek [simp]: "harmless (\<lambda>x. \<not> is_seek x)"
  by (simp add: harmless_def)

lemma no_seek_log: "logs (\<lambda>x. \<not> is_seek x) c \<longleftrightarrow> (\<forall>s. VSeek s \<notin> set (log c))"
  by (auto simp: logs_def list_all_iff elim!: is_seek.elims)

lemma pendingSeek_frame [frame_simps]:
  "pendingSeek (emit x c) = pendingSeek c" "pendingSeek (video_pause c) = pendingSeek c"
  "pendingSeek (set_rate r c) = pendingSeek c" "pendingSeek (ws_send t p a pr c) = pendingSeek c"
  "pendingSeek (emitStatus s c) = pendingSeek c" "pendingSeek (tryPlay c) = pendingSeek c"
  "pendingSeek (play_if_paused c) = pendingSeek c" "pendingSeek (scheduleRecovery e c) = pendingSeek c"
  by (simp_all add: emit_def video_pause_def set_rate_def ws_send_def emitStatus_def tryPlay_def
      play_if_paused_def scheduleRecovery_def split: option.splits prod.splits)

text \<open>A host with no seek pending keeps both facts through every listener, and is not seeked.\<close>

definition host_settled :: "Controller \<Rightarrow> bool" where
  "host_settled c \<longleftrightarrow> isHost c \<and> pendingSeek c = None \<and> logs (\<lambda>x. \<not> is_seek x) c"

lemma host_settled_tick: "host_settled c \<Longrightarrow> host_settled (tick e c)"
  using flagsD(2) [OF flags_work(2), of e c]
  by (auto simp: host_settled_def logs_tick)
     (auto simp: tick_def Let_def frame_simps split: option.splits)

lemma host_settled_listener: "host_settled c \<Longrightarrow> host_settled (run_listener e l c)"
proof (cases l)
  case L_canPlay
  assume hs: "host_settled c"
  let ?c = "c\<lparr>timers := clearField (bufferConfirmTimer c) (timers c), bufferConfirmTimer := None,
    bufferSuspected := False\<rparr>"
  have c1: "host_settled ?c" using hs by (simp add: host_settled_def log_simps)
  moreover have "isHost (scheduleRecovery e ?c)"
    using hs flagsD(2) [OF flags_apply(2), of e ?c] by (simp add: host_settled_def)
  ultimately have "host_settled (scheduleRecovery e ?c)"
    by (simp add: host_settled_def frame_simps logs_apply_parts)
  with host_settled_tick [OF c1] show ?thesis by (simp add: L_canPlay canPlay_def Let_def)
qed (auto simp: host_settled_def waiting_def retrySeek_def loadedMetadata_def nativePause_def ended_def
    Let_def frame_simps log_simps split: option.splits prod.splits)

lemma host_settled_dispatch: "host_settled c \<Longrightarrow> host_settled (dispatch e t c)"
proof -
  have "host_settled c \<Longrightarrow> host_settled (fold (run_listener e) ls c)" for ls
    by (induction ls arbitrary: c) (simp_all add: host_settled_listener)
  then show "host_settled c \<Longrightarrow> host_settled (dispatch e t c)"
    by (simp add: dispatch_def split: option.splits)
qed

lemma no_seek_timer:
  assumes "isHost c" and "logs (\<lambda>x. \<not> is_seek x) c"
  shows "logs (\<lambda>x. \<not> is_seek x) (run_timer e k c)"
  using assms
  by (cases k) (auto simp: logs_tick logs_apply_parts play_fires_def bufferConfirm_fires_def
      recovery_fires_def Let_def log_simps frame_simps split: option.splits)

lemma no_seek_settle: "logs (\<lambda>x. \<not> is_seek x) c \<Longrightarrow> logs (\<lambda>x. \<not> is_seek x) (settle p ok c)"
  by (cases p; cases ok) (simp_all add: log_simps)

definition host_seek_cause :: "Controller \<Rightarrow> ctl_event \<Rightarrow> bool" where
  "host_seek_cause c ev =
     (case ev of
        Attach v \<Rightarrow> True
      | SetRoomState st force \<Rightarrow>
          force \<or> (case state c of None \<Rightarrow> False | Some p \<Rightarrow> mediaId p \<noteq> mediaId st)
      | SetHost b \<Rightarrow> True
      | UserSeek ms \<Rightarrow> True
      | Realign \<Rightarrow> True
      | MediaEvent t \<Rightarrow> pendingSeek c \<noteq> None
      | _ \<Rightarrow> False)"

text \<open>
  C9. The host's element is the physical reference: on the host the controller writes
  \<open>currentTime\<close> only when an element is attached, on a forced snapshot or a change of the media, on
  a change of the host role, on the host's own seek, on an explicit realignment, or to retry a seek
  the element could not do before. In particular no heartbeat refresh and no drift check seeks it.
\<close>

theorem host_seek_causes:
  assumes "isHost c" and "VSeek s \<in> set (log (step e ev c))"
  shows "host_seek_cause c ev"
proof (rule ccontr)
  assume no: "\<not> host_seek_cause c ev"
  let ?c = "c\<lparr>log := []\<rparr>" and ?P = "\<lambda>x. \<not> is_seek x"
  have "logs ?P (handle e ev ?c)"
  proof (cases ev)
    case (SetRoomState st f)
    then show ?thesis using assms(1) no
      by (auto simp: host_seek_cause_def setRoomState_def log_simps logs_apply split: option.splits)
  next
    case (MediaEvent t)
    then have "host_settled (dispatch e t ?c)" using assms(1) no
      by (intro host_settled_dispatch) (simp add: host_settled_def host_seek_cause_def log_simps)
    then show ?thesis by (simp add: MediaEvent host_settled_def)
  next
    case (TimerFires h)
    then show ?thesis using assms(1)
      by (auto simp: log_simps no_seek_timer split: option.splits)
  next
    case (Settle p ok)
    then show ?thesis by (simp add: log_simps no_seek_settle)
  qed (use no in \<open>auto simp: host_seek_cause_def onUserPlay_def onUserPause_def onUserRateChange_def
      resumeLocal_def suspend_def destroy_def Let_def log_simps split: option.splits\<close>)
  then have "logs ?P (step e ev c)" by (simp add: step_def run_microtask_def log_simps)
  with assms(2) show False by (simp add: no_seek_log)
qed

abbreviation demo_host :: Controller where
  "demo_host \<equiv> step (demo_env 0) (Attach demo_video) (newController True)"

abbreviation demo_member :: Controller where
  "demo_member \<equiv> step (demo_env 0) (Attach demo_video) (newController False)"

theorem host_seek_causes_witness:
  "VSeek 40 \<in> set (log (step (demo_env 5) (UserSeek (Num 40000)) demo_host)) \<and>
   host_seek_cause demo_host (UserSeek (Num 40000))"
proof -
  have "isHost demo_host" "VSeek 40 \<in> set (log (step (demo_env 5) (UserSeek (Num 40000)) demo_host))"
    by code_simp+
  then show ?thesis using host_seek_causes by blast
qed

text \<open>
  A heartbeat refresh is smoothed, never jumped: a newer room state with the same media and the
  same epoch, playing before and after, only sets the rate of the element, however far the anchor
  moved. Nothing is seeked, paused, played or sent, and no timer is touched.
\<close>

theorem heartbeat_refresh_smooth:
  assumes "state c = Some p" and "phase p = Playing" and "phase st = Playing"
    and "mediaId p = mediaId st" and "timelineEpoch p = timelineEpoch st"
    and "lastRevision c < revision st" and "video c = Some v"
    and "ctl_reachable c"
  shows "step e (SetRoomState st False) c =
         c\<lparr>state := Some st, lastRevision := revision st,
           video := Some (v\<lparr>v_playbackRate := playbackRate st\<rparr>), log := [VRate (playbackRate st)]\<rparr>"
  using assms ctl_marks.inv_reachable [OF assms(8)]
  by (simp add: step_def setRoomState_def acceptRevision_def apply_state_def apply_align_def
      isTimelineJump_def apply_playing_def set_rate_def emit_def run_microtask_def unmarked_def marks_def Let_def)

theorem heartbeat_refresh_smooth_witness:
  "log (step (demo_env 900) (SetRoomState (demo_state 2 Playing\<lparr>anchorPositionMs := 90000\<rparr>) False)
         (step (demo_env 800) (SetRoomState (demo_state 1 Playing) False) demo_member)) = [VRate 1]"
proof -
  let ?c = "step (demo_env 800) (SetRoomState (demo_state 1 Playing) False) demo_member"
  have "state ?c = Some (demo_state 1 Playing)" "lastRevision ?c = 1" "video ?c \<noteq> None"
    by code_simp+
  moreover have "ctl_reachable ?c"
    using run_reachable [OF attached_reachable, of "[(demo_env 800, SetRoomState (demo_state 1 Playing) False)]"] by simp
  ultimately show ?thesis
    using heartbeat_refresh_smooth [of ?c "demo_state 1 Playing" "demo_state 2 Playing\<lparr>anchorPositionMs := 90000\<rparr>"]
    by (auto simp: demo_state_def)
qed

text \<open>
  The element was written to \<open>x\<close> seconds by the handler that ran at \<open>e\<close>, nothing is left to
  retry, and buffering events count only after the grace period.
\<close>

definition seeked_to :: "env \<Rightarrow> rat \<Rightarrow> Controller \<Rightarrow> bool" where
  "seeked_to e x c \<longleftrightarrow>
     (\<exists>v. video c = Some v \<and> v_currentTime v = x) \<and> VSeek x \<in> set (log c) \<and> pendingSeek c = None \<and>
     ignoreBufferUntil c = now e + PROGRAMMATIC_SEEK_BUFFER_GRACE_MS"

lemma seeked_to_after:
  assumes "seeked_to e x c"
  shows "seeked_to e x (apply_playing e st q r c)" and "seeked_to e x (apply_stopped e v st c)"
    and "seeked_to e x (c\<lparr>microtask := b\<rparr>)" and "seeked_to e x (run_microtask c)"
  using assms
  by (auto simp: seeked_to_def apply_playing_def apply_stopped_def schedulePlay_def scheduleRecovery_def
      cancelScheduledPlay_def video_pause_def set_rate_def emitStatus_def emit_def run_microtask_def Let_def
      split: prod.splits)

lemma seeked_to_align:
  assumes "\<not> isHost c \<or> f \<or> m" and "f \<or> m \<or> j" and "phase st \<noteq> Buffering" and "phase st \<noteq> Loading"
    and "video c = Some v" and "\<not> v_setThrows v" and "in_seekable (expectedPosition st (srv e) / 1000) v"
    and "\<bar>v_currentTime v * 1000 - expectedPosition st (srv e)\<bar> \<ge> ALIGN_ON_TRANSITION_MS"
  shows "seeked_to e (expectedPosition st (srv e) / 1000) (apply_align e v st f m j c)"
proof -
  have nonneg: "0 \<le> expectedPosition st (srv e)" by (simp add: expectedPosition_def Let_def)
  have far: "\<not> \<bar>v_currentTime v - expectedPosition st (srv e) / 1000\<bar> < 5 / 100"
    using assms(8) by (auto simp: sync_consts abs_if field_simps split: if_splits)
  show ?thesis
    using assms far nonneg
    by (auto simp: seeked_to_def apply_align_def seek_def perform_seek_def set_rate_def emit_def
        in_seekable_def Let_def)
qed

lemma seeked_to_apply:
  assumes "\<not> isHost c \<or> f \<or> (\<exists>q. p = Some q \<and> mediaId q \<noteq> mediaId st)"
    and "f \<or> isTimelineJump p st" and "phase st \<noteq> Buffering" and "phase st \<noteq> Loading"
    and "video c = Some v" and "state c = Some st" and "\<not> v_setThrows v"
    and "in_seekable (expectedPosition st (srv e) / 1000) v"
    and "\<bar>v_currentTime v * 1000 - expectedPosition st (srv e)\<bar> \<ge> ALIGN_ON_TRANSITION_MS"
  shows "seeked_to e (expectedPosition st (srv e) / 1000) (apply_state e p f c)"
proof -
  have al: "seeked_to e (expectedPosition st (srv e) / 1000)
      (apply_align e v st f (case p of None \<Rightarrow> False | Some q \<Rightarrow> mediaId q \<noteq> mediaId st) (isTimelineJump p st) c)"
    using assms by (intro seeked_to_align) (auto split: option.splits)
  show ?thesis
    by (rule apply_state_cases [where c = c and e = e and p = p and f = f])
       (use al assms(5,6) in \<open>auto intro!: seeked_to_after\<close>)
qed

text \<open>
  A member follows an explicit seek of the host: when the epoch of the timeline changes, the
  room has a position, and the element is away from it and can go there, it is there at once, and
  buffering events count only after the grace period.
\<close>

theorem member_follows_jump:
  assumes "state c = Some p" and "timelineEpoch p = Some a" and "timelineEpoch st = Some b" and "a \<noteq> b"
    and "\<not> isHost c" and "lastRevision c < revision st" and "phase st \<noteq> Buffering" and "phase st \<noteq> Loading"
    and "video c = Some v" and "\<not> v_setThrows v" and "in_seekable (expectedPosition st (srv e) / 1000) v"
    and "\<bar>v_currentTime v * 1000 - expectedPosition st (srv e)\<bar> \<ge> ALIGN_ON_TRANSITION_MS"
  shows "seeked_to e (expectedPosition st (srv e) / 1000) (step e (SetRoomState st False) c)"
proof -
  have "isTimelineJump (Some p) st" using assms(2-4) by (simp add: isTimelineJump_def)
  then have "seeked_to e (expectedPosition st (srv e) / 1000)
      (apply_state e (Some p) False (c\<lparr>log := [], lastRevision := revision st, state := Some st\<rparr>))"
    using assms by (intro seeked_to_apply) auto
  then show ?thesis
    using assms(1,6) by (simp add: step_def setRoomState_def acceptRevision_def seeked_to_after)
qed

theorem member_follows_jump_witness:
  "seeked_to (demo_env 900) 90
     (step (demo_env 900) (SetRoomState (demo_state 2 Paused\<lparr>anchorPositionMs := 90000, timelineEpoch := Some 1\<rparr>) False)
       (step (demo_env 800) (SetRoomState (demo_state 1 Paused) False) demo_member))"
proof -
  let ?c = "step (demo_env 800) (SetRoomState (demo_state 1 Paused) False) demo_member"
  let ?st = "demo_state 2 Paused\<lparr>anchorPositionMs := 90000, timelineEpoch := Some 1\<rparr>"
  have at: "expectedPosition ?st (srv (demo_env 900)) = 90000"
    by (simp add: demo_state_def expectedPosition_def)
  have c: "state ?c = Some (demo_state 1 Paused)" "\<not> isHost ?c" "lastRevision ?c = 1"
    "map_option v_currentTime (video ?c) = Some 10" "map_option v_setThrows (video ?c) = Some False"
    "map_option v_seekable (video ?c) = Some [(0, 120)]"
    by code_simp+
  then obtain v where "video ?c = Some v" "v_currentTime v = 10" "\<not> v_setThrows v" "v_seekable v = [(0, 120)]"
    by auto
  with c(1-3) show ?thesis
    using member_follows_jump [of ?c "demo_state 1 Paused" 0 ?st 1 v "demo_env 900"]
    by (simp add: at in_seekable_def sync_consts) (simp add: demo_state_def)
qed

section \<open>Which room states take effect\<close>

lemma step_flags: 
  "flags (step e (SetRoomState st False) c) =
     (if lastRevision c < revision st
      then (Some st, isHost c, confirmedBuffering c, hostBufferingReported c, revision st) else flags c)"
proof (cases "lastRevision c < revision st")
  case True
  then show ?thesis
    by (simp add: step_def setRoomState_def acceptRevision_def flags_user(10) flags_apply_state) (simp add: flags_def)
next
  case False
  then show ?thesis by (simp add: step_def setRoomState_def acceptRevision_def frame_simps)
qed

text \<open>Updates that arrive with the environments in which they are handled.\<close>

definition updates :: "(env \<times> PlaybackState) list \<Rightarrow> (env \<times> ctl_event) list" where
  "updates xs = map (\<lambda>(e, st). (e, SetRoomState st False)) xs"

lemma updates_Cons: "run (updates ((e, st) # xs)) c = run (updates xs) (step e (SetRoomState st False) c)"
  by (simp add: updates_def)

lemma updates_revision:
  "lastRevision (run (updates xs) c) = Max (insert (lastRevision c) (revision ` snd ` set xs))"
proof (induction xs arbitrary: c)
  case (Cons x xs)
  obtain e st where x: "x = (e, st)" by (cases x)
  have step: "lastRevision (step e (SetRoomState st False) c) = max (lastRevision c) (revision st)"
    using step_flags [of e st c] by (auto simp: flags_def split: if_splits)
  have "max a (Max (insert b S)) = Max (insert (max a b) S)" if "finite S" for a b :: int and S
    using that by (cases "S = {}") (simp_all add: max.assoc)
  then show ?case
    using Cons [of "step e (SetRoomState st False) c"] by (simp add: x updates_Cons step)
qed (simp add: updates_def)

text \<open>
  C8. Out of order delivery converges: after any sequence of room states, in whatever order they
  arrive, the last revision is the greatest one seen, and the state in force is one that carries it
  (or the one from before, when all that arrived was stale).
\<close>

theorem newest_state_wins:
  "lastRevision (run (updates xs) c) = Max (insert (lastRevision c) (revision ` snd ` set xs)) \<and>
   (state (run (updates xs) c) = state c \<and> lastRevision (run (updates xs) c) = lastRevision c \<or>
    (\<exists>st. st \<in> snd ` set xs \<and> state (run (updates xs) c) = Some st \<and>
      revision st = lastRevision (run (updates xs) c)))"
proof (intro conjI updates_revision)
  show "state (run (updates xs) c) = state c \<and> lastRevision (run (updates xs) c) = lastRevision c \<or>
    (\<exists>st. st \<in> snd ` set xs \<and> state (run (updates xs) c) = Some st \<and>
      revision st = lastRevision (run (updates xs) c))"
  proof (induction xs arbitrary: c)
    case (Cons x xs)
    obtain e st where x: "x = (e, st)" by (cases x)
    let ?c = "step e (SetRoomState st False) c"
    have "state ?c = state c \<and> lastRevision ?c = lastRevision c \<or>
        state ?c = Some st \<and> revision st = lastRevision ?c"
      using step_flags [of e st c] by (auto simp: flags_def split: if_splits)
    with Cons [of ?c] show ?case by (auto simp: x updates_Cons)
  qed (simp add: updates_def)
qed

section \<open>Starting playback and reporting buffering\<close>

text \<open>
  A predicate that admits everything but playing and the two reports of the host's buffering: the
  rules say which operations stay within it.
\<close>

definition ordinary :: "(effect \<Rightarrow> bool) \<Rightarrow> bool" where
  "ordinary P \<longleftrightarrow> harmless P \<and> (\<forall>s. P (VSeek s)) \<and>
     (\<forall>t p a. t \<notin> {''cmd.playback.host_buffering'', ''cmd.playback.host_ready''} \<longrightarrow> P (Send t p a))"

lemma ordinaryD [simp]:
  "ordinary P \<Longrightarrow> harmless P" "ordinary P \<Longrightarrow> P (VSeek s)"
  "ordinary P \<Longrightarrow> t \<noteq> ''cmd.playback.host_buffering'' \<Longrightarrow> t \<noteq> ''cmd.playback.host_ready'' \<Longrightarrow> P (Send t p a)"
  by (simp_all add: ordinary_def)

definition room_playing :: "Controller \<Rightarrow> bool" where
  "room_playing c \<longleftrightarrow> (\<exists>st. state c = Some st \<and> phase st = Playing) \<and> \<not> confirmedBuffering c"

lemma room_playing_cong: "flags c = flags c' \<Longrightarrow> room_playing c = room_playing c'"
  by (simp add: room_playing_def flags_def)

lemma logs_tick_ordinary:
  assumes "ordinary P" and "room_playing c \<longrightarrow> P VPlay"
  shows "logs P (tick e c) = logs P c"
  by (rule logs_tick) (use assms in \<open>auto simp: room_playing_def\<close>)

lemma logs_ordinary:
  assumes "ordinary P" and "logs P c"
  shows "logs P (attach e v c)" "logs P (setRoomState e st f c)" "logs P (setHost e b c)"
    "logs P (onUserPlay c)" "logs P (onUserPause c)" "logs P (onUserSeek e ms c)"
    "logs P (onUserRateChange r c)" "logs P (realign e c)" "logs P (suspend c)" "logs P (destroy c)"
    "logs P (settle p ok c)" "logs P (heartbeat c)" "logs P (waiting e c)" "logs P (retrySeek e c)"
    "logs P (loadedMetadata e c)" "logs P (ended c)"
  using assms
  by (auto simp: attach_def setRoomState_def setHost_def onUserPlay_def onUserPause_def onUserSeek_def
      onUserRateChange_def realign_def suspend_def destroy_def heartbeat_def waiting_def loadedMetadata_def
      ended_def Let_def log_simps logs_apply logs_seek logs_apply_parts
      split: option.splits prod.splits)
     (cases p; cases ok; simp add: log_simps)

lemma logs_listener:
  assumes "ordinary P" and "logs P c" and "room_playing c \<longrightarrow> P VPlay"
  shows "logs P (run_listener e l c)"
proof (cases l)
  case L_canPlay
  let ?c = "c\<lparr>timers := clearField (bufferConfirmTimer c) (timers c), bufferConfirmTimer := None,
    bufferSuspected := False\<rparr>"
  have "logs P (tick e ?c) = logs P ?c"
    using assms by (intro logs_tick_ordinary) (auto simp: room_playing_def)
  with assms show ?thesis
    by (simp add: L_canPlay canPlay_def Let_def log_simps logs_apply_parts)
next
  case L_nativePause
  with assms(2,3) show ?thesis
    by (auto simp: nativePause_def room_playing_def log_simps split: option.splits)
qed (use assms in \<open>simp_all add: logs_ordinary\<close>)

lemma logs_dispatch:
  assumes "ordinary P" and "logs P c" and "room_playing c \<longrightarrow> P VPlay"
  shows "logs P (dispatch e t c)"
proof -
  have "logs P (fold (run_listener e) ls c)" for ls
    using assms(2,3)
  proof (induction ls arbitrary: c)
    case (Cons l ls)
    have "logs P (run_listener e l c)" using Cons.prems assms(1) by (intro logs_listener)
    then show ?case using Cons by (simp add: room_playing_cong [OF flags_listener])
  qed simp
  with assms(2) show ?thesis by (simp add: dispatch_def split: option.splits)
qed

lemma logs_timer:
  assumes "ordinary P" and "logs P c" and "room_playing c \<longrightarrow> P VPlay" and "k \<notin> {BufferConfirmT, RecoveryT}"
  shows "logs P (run_timer e k c)"
proof (cases k)
  case PlayT
  with assms(2,3) show ?thesis
    by (auto simp: play_fires_def room_playing_def Let_def log_simps split: option.splits)
qed (use assms in \<open>simp_all add: logs_tick_ordinary logs_ordinary\<close>)

lemma flags_timer: "k \<notin> {BufferConfirmT, RecoveryT} \<Longrightarrow> flags (run_timer e k c) = flags c"
  by (cases k) (simp_all add: frame_simps)

lemma step_log_flags: "log (step e ev c) = log (handle e ev (c\<lparr>log := []\<rparr>))"
  "flags (step e ev c) = flags (handle e ev (c\<lparr>log := []\<rparr>))"
  by (simp_all add: step_def frame_simps) (simp add: run_microtask_def)

lemma room_playing_timer:
  assumes "VPlay \<notin> set (log c)" and "VPlay \<in> set (log (run_timer e k c))"
  shows "room_playing (run_timer e k c)"
proof (cases "k \<in> {BufferConfirmT, RecoveryT}")
  case False
  let ?P = "\<lambda>x. x = VPlay \<longrightarrow> room_playing c"
  have "logs ?P c" using assms(1) by (auto simp: logs_def list_all_iff)
  then have "logs ?P (run_timer e k c)"
    using False by (intro logs_timer) (auto simp: ordinary_def harmless_def)
  with assms(2) have "room_playing c" by (auto simp: logs_def list_all_iff)
  then show ?thesis by (simp add: room_playing_cong [OF flags_timer [OF False]])
next
  case True
  have conf: "VPlay \<notin> set (log (bufferConfirm_fires e c))"
    using assms(1) unfolding logs_memb [symmetric]
    by (simp add: bufferConfirm_fires_def Let_def log_simps split: option.splits)
  have "room_playing (recovery_fires e c)" if "VPlay \<in> set (log (recovery_fires e c))"
  proof (rule ccontr)
    assume no: "\<not> room_playing (recovery_fires e c)"
    have "logs (\<lambda>x. x \<noteq> VPlay) (recovery_fires e c)"
      using assms(1) no unfolding logs_memb [symmetric]
      by (auto simp: recovery_fires_def Let_def log_simps room_playing_def frame_simps split: option.splits if_splits)
    then show False using that by (simp add: logs_memb)
  qed
  with True conf assms(2) show ?thesis by auto
qed

lemma play_cause:
  assumes "VPlay \<in> set (log (step e ev c))"
  shows "(ev = ResumeLocal \<or> (\<exists>st. state (step e ev c) = Some st \<and> phase st = Playing)) \<and>
         \<not> confirmedBuffering (step e ev c)"
proof -
  let ?c = "c\<lparr>log := []\<rparr>"
  let ?c' = "handle e ev ?c"
  let ?P = "\<lambda>x. x = VPlay \<longrightarrow> room_playing ?c"
  have ord: "ordinary (\<lambda>x. x \<noteq> VPlay)" "ordinary ?P" by (auto simp: ordinary_def harmless_def)
  have play: "VPlay \<in> set (log ?c')" using assms by (simp add: step_log_flags)
  note none = logs_ordinary [OF ord(1), unfolded logs_memb]
  have "ev = ResumeLocal \<and> \<not> confirmedBuffering ?c' \<or> room_playing ?c'"
  proof (cases ev)
    case (MediaEvent t)
    have "logs ?P (dispatch e t ?c)" using ord(2) by (intro logs_dispatch) (simp_all add: log_simps)
    then have "room_playing ?c" using play MediaEvent by (auto simp: logs_def list_all_iff)
    then show ?thesis by (simp add: MediaEvent room_playing_cong [OF flags_dispatch])
  next
    case (TimerFires h)
    then show ?thesis using play by (auto simp: room_playing_timer split: option.splits)
  next
    case ResumeLocal
    then show ?thesis using play
      by (auto simp: resumeLocal_def tryPlay_def emit_def split: option.splits if_splits)
  qed (use play none in \<open>auto split: option.splits if_splits\<close>)
  then show ?thesis using flagsD [OF step_log_flags(2), of e ev c] by (auto simp: room_playing_def)
qed

text \<open>
  C10. Playback is started only when it should be: the controller calls \<open>play()\<close> only while the
  room's phase is playing, or because the user asked to resume locally, and never while it considers
  itself buffering.
\<close>

theorem play_only_when_playing:
  assumes "VPlay \<in> set (log (step e ev c))"
  shows "(ev = ResumeLocal \<or> (\<exists>st. state (step e ev c) = Some st \<and> phase st = Playing)) \<and>
         \<not> confirmedBuffering (step e ev c)"
  using assms by (rule play_cause)

theorem play_only_when_playing_witness:
  "\<not> confirmedBuffering (step (demo_env 2000) (TimerFires 2)
      (step (demo_env 800) (SetRoomState (demo_state 1 Playing) False) demo_member))"
proof -
  have "VPlay \<in> set (log (step (demo_env 2000) (TimerFires 2)
      (step (demo_env 800) (SetRoomState (demo_state 1 Playing) False) demo_member)))"
    by code_simp
  then show ?thesis using play_only_when_playing by blast
qed

fun host_report :: "effect \<Rightarrow> bool" where
  "host_report (Send t p a) = (t \<in> {''cmd.playback.host_buffering'', ''cmd.playback.host_ready''})"
| "host_report x = False"

lemma ordinary_no_report: "ordinary (\<lambda>x. \<not> host_report x)"
  by (simp add: ordinary_def harmless_def)

lemma no_report_log:
  "logs (\<lambda>x. \<not> host_report x) c \<Longrightarrow> t \<in> {''cmd.playback.host_buffering'', ''cmd.playback.host_ready''} \<Longrightarrow>
   Send t p a \<notin> set (log c)"
  unfolding logs_def list_all_iff by (metis host_report.simps(1))

text \<open>Outside the two timers the host's buffering is never reported.\<close>

lemma no_report_handle:
  assumes "\<And>h k ts. ev = TimerFires h \<Longrightarrow> expire h (now e) (timers c) = Some (k, ts) \<Longrightarrow> k \<notin> {BufferConfirmT, RecoveryT}"
  shows "logs (\<lambda>x. \<not> host_report x) (handle e ev (c\<lparr>log := []\<rparr>))"
proof (cases ev)
  case (MediaEvent t)
  then show ?thesis by (simp add: logs_dispatch [OF ordinary_no_report] log_simps)
next
  case (TimerFires h)
  then show ?thesis using assms
    by (fastforce simp: log_simps intro: logs_timer [OF ordinary_no_report] split: option.splits)
qed (auto simp: log_simps resumeLocal_def logs_ordinary [OF ordinary_no_report] split: option.splits)

lemma confirm_report:
  assumes "Send t p a \<in> set (log (bufferConfirm_fires e c))" and "log c = []"
    and "t \<in> {''cmd.playback.host_buffering'', ''cmd.playback.host_ready''}"
  shows "t = ''cmd.playback.host_buffering'' \<and> isHost c \<and> \<not> hostBufferingReported c \<and>
         (\<exists>v st. video c = Some v \<and> state c = Some st \<and> phase st = Playing \<and> v_readyState v < HAVE_FUTURE_DATA)"
  using assms
  by (auto simp: bufferConfirm_fires_def Let_def emitStatus_def emit_def ws_send_def video_pause_def
      split: option.splits if_splits)

lemma recovery_report:
  assumes "Send t p a \<in> set (log (recovery_fires e c))" and "log c = []"
    and "t \<in> {''cmd.playback.host_buffering'', ''cmd.playback.host_ready''}"
  shows "t = ''cmd.playback.host_ready'' \<and> isHost c \<and> hostBufferingReported c \<and>
         (\<exists>v st. video c = Some v \<and> state c = Some st \<and> phase st = Buffering \<and> v_readyState v \<ge> HAVE_FUTURE_DATA)"
  using assms
  by (auto simp: recovery_fires_def Let_def emitStatus_def emit_def ws_send_def tryPlay_def
      split: option.splits if_splits)

lemma report_cause:
  assumes "Send t p a \<in> set (log (step e ev c))"
    and "t \<in> {''cmd.playback.host_buffering'', ''cmd.playback.host_ready''}"
  shows "isHost c \<and> hostBufferingReported c = (t = ''cmd.playback.host_ready'') \<and>
         (\<exists>v st. video c = Some v \<and> state c = Some st \<and>
            (if t = ''cmd.playback.host_ready'' then phase st = Buffering \<and> HAVE_FUTURE_DATA \<le> v_readyState v
             else phase st = Playing \<and> v_readyState v < HAVE_FUTURE_DATA))"
proof -
  have rep: "Send t p a \<in> set (log (handle e ev (c\<lparr>log := []\<rparr>)))" using assms(1) by (simp add: step_log_flags)
  then obtain h k ts where h: "ev = TimerFires h" "expire h (now e) (timers c) = Some (k, ts)"
      "k \<in> {BufferConfirmT, RecoveryT}"
    using no_report_log [OF no_report_handle assms(2)] by blast
  then consider "Send t p a \<in> set (log (bufferConfirm_fires e (c\<lparr>log := [], timers := ts\<rparr>)))"
    | "Send t p a \<in> set (log (recovery_fires e (c\<lparr>log := [], timers := ts\<rparr>)))"
    using rep by auto
  then show ?thesis
  proof cases
    case 1
    from confirm_report [OF this _ assms(2)] show ?thesis by auto
  next
    case 2
    from recovery_report [OF this _ assms(2)] show ?thesis by auto
  qed
qed

text \<open>
  The host reports its buffering to the server by the rules of the protocol: it asks the room to
  stop only while the room plays, its element has no data and it has no report outstanding; it
  declares itself ready only while the room is in the buffering phase that its own report caused and
  the element can play again.
\<close>

theorem buffering_reports:
  assumes "Send t p a \<in> set (log (step e ev c))"
    and "t \<in> {''cmd.playback.host_buffering'', ''cmd.playback.host_ready''}"
  shows "isHost c \<and> hostBufferingReported c = (t = ''cmd.playback.host_ready'') \<and>
         (\<exists>v st. video c = Some v \<and> state c = Some st \<and>
            (if t = ''cmd.playback.host_ready'' then phase st = Buffering \<and> HAVE_FUTURE_DATA \<le> v_readyState v
             else phase st = Playing \<and> v_readyState v < HAVE_FUTURE_DATA))"
  using assms by (rule report_cause)

text \<open>A host that starves, reports it, and gets the answer and the room's buffering phase.\<close>

definition demo_starved :: Video where
  "demo_starved = demo_video\<lparr>v_readyState := 2\<rparr>"

definition starving :: "(env \<times> ctl_event) list" where
  "starving =
     [(demo_env 100, SetRoomState (demo_state 1 Playing) False),
      (demo_env 1000, Media demo_starved),
      (demo_env 1001, MediaEvent ''waiting'')]"

theorem buffering_reports_witness:
  "\<not> hostBufferingReported (run starving demo_host)"
proof -
  have "Send ''cmd.playback.host_buffering'' (position_of (Num 10000)) True
      \<in> set (log (step (demo_env 2801) (TimerFires 4) (run starving demo_host)))"
    by code_simp
  from buffering_reports [OF this] show ?thesis by simp
qed

section \<open>A host that never plays again\<close>

text \<open>
  The host reported that it is buffering and got its answer, but the room left the buffering phase
  some other way than by the host's own \<open>host_ready\<close>.
\<close>

definition stuck :: "Controller \<Rightarrow> bool" where
  "stuck c \<longleftrightarrow> isHost c \<and> hostBufferingReported c \<and> confirmedBuffering c \<and> hostp c = [] \<and>
     (\<exists>st. state c = Some st \<and> phase st \<noteq> Buffering)"

lemma stuck_cong: "flags c' = flags c \<Longrightarrow> hostp c' = hostp c \<Longrightarrow> stuck c' = stuck c"
  by (auto simp: stuck_def flags_def)

lemma stuck_frame: "stuck c \<Longrightarrow> flags c' = flags c \<Longrightarrow> hostp c' = hostp c \<Longrightarrow> stuck c'"
  using stuck_cong by blast

fun releases :: "ctl_event \<Rightarrow> bool" where
  "releases (SetRoomState st f) = (phase st = Buffering)"
| "releases (SetHost b) = (\<not> b)"
| "releases ev = False"

lemma stuck_timer: "stuck c \<Longrightarrow> stuck (run_timer e k c)"
proof (cases k)
  case RecoveryT
  assume "stuck c"
  then show ?thesis
    by (auto simp: RecoveryT stuck_def recovery_fires_def Let_def hostp_update split: option.splits)
next
  case BufferConfirmT
  assume "stuck c"
  then show ?thesis
    by (auto simp: BufferConfirmT stuck_def bufferConfirm_fires_def Let_def frame_simps split: option.splits)
qed (auto intro: stuck_frame simp: frame_simps)

lemma stuck_settle:
  assumes "stuck c" and "p \<in> set (promises c)"
  shows "stuck (settle p ok (c\<lparr>promises := remove1 p (promises c)\<rparr>))"
proof -
  have p: "p = PlayPromise" using assms by (auto simp: stuck_def hostp_def filter_empty_conv)
  have "hostp (c\<lparr>promises := remove1 p (promises c)\<rparr>) = hostp c"
    by (simp add: hostp_def p filter_remove1)
  with assms p show ?thesis
    by (cases ok) (simp_all add: stuck_def frame_simps emitStatus_def emit_def)
qed

lemma stuck_step:
  assumes "stuck c" and "\<not> releases ev"
  shows "stuck (step e ev c)"
proof -
  let ?c = "c\<lparr>log := []\<rparr>"
  have sc: "stuck ?c" using assms(1) by (simp add: stuck_def frame_simps)
  have "stuck (handle e ev ?c)"
  proof (cases ev)
    case (SetRoomState st f)
    have "stuck (apply_state e (state c) f (c\<lparr>log := [], lastRevision := revision st, state := Some st\<rparr>))"
      unfolding stuck_cong [OF flags_apply_state hostp_apply_state]
      using assms SetRoomState by (simp add: stuck_def frame_simps)
    then show ?thesis using sc by (simp add: SetRoomState setRoomState_def)
  next
    case (SetHost b)
    then show ?thesis using sc assms by (simp add: setHost_def stuck_def)
  next
    case (Media v)
    then show ?thesis using sc by (auto simp: stuck_def frame_simps split: option.splits)
  next
    case (TimerFires h)
    then show ?thesis using sc stuck_timer
      by (auto simp: stuck_def frame_simps split: option.splits)
  next
    case (Settle p ok)
    then show ?thesis using sc stuck_settle [OF sc, of p ok] by simp
  qed (use sc in \<open>auto intro: stuck_frame [OF sc] simp: frame_simps\<close>)
  then show ?thesis unfolding step_def by (rule stuck_frame) (simp_all add: frame_simps)
qed

lemma stuck_run:
  "stuck c \<Longrightarrow> list_all (\<lambda>(e, ev). \<not> releases ev) evs \<Longrightarrow> stuck (run evs c)"
  by (induction evs c rule: run.induct) (auto simp: stuck_step)

text \<open>
  C17. The host can get stuck. Once its buffering was reported and answered, if the room leaves the
  buffering phase by a pause, a play or a change of the media instead of the host's own
  \<open>host_ready\<close>, then for as long as the room is not put into the buffering phase again and the role
  is not taken away, no event makes the host play, report buffering or declare itself ready. The
  report that would put the room into that phase is among the commands it no longer sends.
\<close>

theorem stuck_host:
  assumes "stuck c" and "list_all (\<lambda>(e, ev). \<not> releases ev) evs" and "\<not> releases ev"
  shows "VPlay \<notin> set (log (step e ev (run evs c))) \<and>
         Send ''cmd.playback.host_ready'' p a \<notin> set (log (step e ev (run evs c))) \<and>
         Send ''cmd.playback.host_buffering'' p a \<notin> set (log (step e ev (run evs c)))"
proof -
  let ?c = "run evs c"
  have before: "stuck ?c" using assms(1,2) by (rule stuck_run)
  then have "confirmedBuffering (step e ev ?c)"
    using stuck_step [OF before assms(3), of e] by (simp add: stuck_def)
  then have "VPlay \<notin> set (log (step e ev ?c))" using play_cause by blast
  moreover have "Send t p a \<notin> set (log (step e ev ?c))"
    if "t \<in> {''cmd.playback.host_buffering'', ''cmd.playback.host_ready''}" for t
    using report_cause [of t p a e ev ?c] that before by (auto simp: stuck_def)
  ultimately show ?thesis by simp
qed

text \<open>The run: the host starves, the room buffers, and the host pauses the room before it recovers.\<close>

definition pause_while_buffering :: "(env \<times> ctl_event) list" where
  "pause_while_buffering = starving @
     [(demo_env 2801, TimerFires 4),
      (demo_env 2850, Settle HostBufferingPromise True),
      (demo_env 2900, SetRoomState (demo_state 2 Buffering) False),
      (demo_env 3000, SetRoomState (demo_state 3 Paused) False)]"

definition play_after_recovery :: "(env \<times> ctl_event) list" where
  "play_after_recovery =
     [(demo_env 4000, Media demo_video),
      (demo_env 4001, MediaEvent ''canplay''),
      (demo_env 4700, TimerFires 5),
      (demo_env 5000, SetRoomState (demo_state 4 Playing) False)]"

theorem stuck_host_witness:
  "ctl_reachable (run pause_while_buffering demo_host) \<and>
   VPlay \<notin> set (log (step (demo_env 5100) (TimerFires 6)
     (run play_after_recovery (run pause_while_buffering demo_host))))"
proof
  show "ctl_reachable (run pause_while_buffering demo_host)"
    by (rule run_reachable [OF attached_reachable])
       (simp add: pause_while_buffering_def starving_def)
  have "isHost (run pause_while_buffering demo_host)" "hostBufferingReported (run pause_while_buffering demo_host)"
    "confirmedBuffering (run pause_while_buffering demo_host)" "promises (run pause_while_buffering demo_host) = []"
    "map_option phase (state (run pause_while_buffering demo_host)) = Some Paused"
    by code_simp+
  then have "stuck (run pause_while_buffering demo_host)" by (auto simp: stuck_def hostp_def)
  moreover have "list_all (\<lambda>(e, ev). \<not> releases ev) play_after_recovery"
    by (simp add: play_after_recovery_def demo_state_def)
  ultimately show "VPlay \<notin> set (log (step (demo_env 5100) (TimerFires 6)
     (run play_after_recovery (run pause_while_buffering demo_host))))"
    using stuck_host by fastforce
qed

section \<open>Playing before the anchor\<close>

text \<open>
  C18. A member can start early. For a start in the future the controller pauses the element and
  waits for the anchor; but the flag that should tell its own pause from the user's is down again
  when the browser delivers the \<open>pause\<close> event, in every reachable state, so the handler plays at
  once, whatever the anchor is.
\<close>

theorem own_pause_restarts:
  assumes "ctl_reachable c" and "video c = Some v" and "state c = Some st" and "phase st = Playing"
    and "\<not> isHost c" and "\<not> confirmedBuffering c" and "\<not> autoplayBlocked c"
    and "filter (\<lambda>x. fst x = ''pause'') (v_listeners v) = [(''pause'', L_nativePause)]"
  shows "log (step e (MediaEvent ''pause'') c) = [VPlay]"
proof -
  have "\<not> applyingRemoteState c"
    using ctl_marks.inv_reachable [OF assms(1)] by (simp add: unmarked_def marks_def)
  then show ?thesis
    using assms by (simp add: step_log_flags(1) dispatch_def nativePause_def tryPlay_def emit_def)
qed

theorem own_pause_restarts_witness:
  "VPause \<in> set (log (step (demo_env 100) (SetRoomState (demo_state 1 Playing\<lparr>anchorServerTimeMs := 105000\<rparr>) False) demo_member)) \<and>
   srv (demo_env 110) < 105000 \<and>
   log (step (demo_env 110) (MediaEvent ''pause'')
     (step (demo_env 100) (SetRoomState (demo_state 1 Playing\<lparr>anchorServerTimeMs := 105000\<rparr>) False) demo_member)) = [VPlay]"
proof (intro conjI)
  let ?st = "demo_state 1 Playing\<lparr>anchorServerTimeMs := 105000\<rparr>"
  let ?c = "step (demo_env 100) (SetRoomState ?st False) demo_member"
  show "VPause \<in> set (log ?c)" "srv (demo_env 110) < 105000" by code_simp+
  have c: "state ?c = Some ?st" "phase ?st = Playing" "\<not> isHost ?c" "\<not> confirmedBuffering ?c" "\<not> autoplayBlocked ?c"
    "map_option (\<lambda>v. filter (\<lambda>x. fst x = ''pause'') (v_listeners v)) (video ?c) = Some [(''pause'', L_nativePause)]"
    by code_simp+
  have "ctl_reachable ?c"
    using run_reachable [OF attached_reachable, of "[(demo_env 100, SetRoomState ?st False)]"] by simp
  with c show "log (step (demo_env 110) (MediaEvent ''pause'') ?c) = [VPlay]"
    using own_pause_restarts [of ?c _ ?st] by auto
qed

section \<open>Short interruptions are not reported\<close>

text \<open>Every pending confirmation of a buffering suspicion is due the full delay after \<open>t\<close> or later.\<close>

definition late :: "rat \<Rightarrow> ctl_timer timers \<Rightarrow> bool" where
  "late t ts \<longleftrightarrow> (\<forall>x \<in> set (live ts). callback (snd x) = BufferConfirmT \<longrightarrow>
     period (snd x) = None \<and> t + BUFFER_CONFIRM_MS \<le> due (snd x))"

lemma late_clear: "late t ts \<Longrightarrow> late t (clearField f ts)"
  by (auto simp: late_def clearField_def clearTimer_def split: option.splits)

lemma late_arm:
  "late t ts \<Longrightarrow> k \<noteq> BufferConfirmT \<or> p = None \<and> t + BUFFER_CONFIRM_MS \<le> d \<Longrightarrow> late t (snd (arm k d p ts))"
  by (auto simp: late_def arm_def)

lemma late_expire:
  assumes "late t ts" and "expire h tm ts = Some (k, ts')"
  shows "late t ts'" and "k = BufferConfirmT \<Longrightarrow> t + BUFFER_CONFIRM_MS \<le> tm"
proof -
  obtain x where x: "(h, x) \<in> set (live ts)" "callback x = k" "due x \<le> tm"
    and ts': "ts' = (case period x of None \<Rightarrow> clearTimer h ts
      | Some p \<Rightarrow> ts\<lparr>live := map (\<lambda>y. if fst y = h then (h, x\<lparr>due := tm + p\<rparr>) else y) (live ts)\<rparr>)"
    using assms(2) by (auto simp: expire_def dest: map_of_SomeD split: option.splits if_splits)
  show "late t ts'"
    using assms(1) x(1) by (auto simp: ts' late_def clearTimer_def split: option.splits)
  show "k = BufferConfirmT \<Longrightarrow> t + BUFFER_CONFIRM_MS \<le> tm"
    using assms(1) x by (fastforce simp: late_def)
qed

lemma late_frame: "late t (timers c) \<Longrightarrow> same_timers c c' \<Longrightarrow> late t (timers c')"
  by (simp add: same_timers_def)

lemma late_schedule:
  assumes "late t (timers c)"
  shows "late t (timers (schedulePlay e a c))" "late t (timers (scheduleRecovery e c))"
    "late t (timers (updateHeartbeat e c))" "late t (timers (cancelScheduledPlay c))" "late t (timers (destroy c))"
  using assms
  by (auto simp: schedulePlay_def scheduleRecovery_def updateHeartbeat_def cancelScheduledPlay_def destroy_def
      Let_def setTimeout_arm setInterval_arm case_prod_beta video_pause_def emit_def late_clear late_arm
      split: option.splits)

lemma late_apply:
  assumes "late t (timers c)"
  shows "late t (timers (apply_state e p f c))"
proof -
  have al: "late t (timers (apply_align e v st f m j c))" for v st m j
    using assms by (rule late_frame) simp
  have pl: "late t (timers (apply_playing e st a b c1))" if "late t (timers c1)" for st a b c1
    using that by (simp add: apply_playing_def Let_def late_schedule)
  have st: "late t (timers (apply_stopped e v st c1))" if "late t (timers c1)" for v st c1
  proof -
    have any: "late t (timers c2)" if "same_timers (cancelScheduledPlay c1) c2" for c2
      using late_schedule(4) [OF \<open>late t (timers c1)\<close>] that by (rule late_frame)
    show ?thesis unfolding apply_stopped_def Let_def by (auto intro!: any late_schedule)
  qed
  show ?thesis
    by (rule apply_state_cases [where c = c and e = e and p = p and f = f]) (simp_all add: assms al pl st)
qed

lemma late_waiting:
  assumes "late t (timers c)" and "t \<le> now e"
  shows "late t (timers (waiting e c))"
  using assms
  by (auto simp: waiting_def Let_def setTimeout_arm case_prod_beta set_rate_def emit_def late_clear
      intro!: late_arm split: option.splits)

lemma late_listener:
  assumes "late t (timers c)" and "t \<le> now e"
  shows "late t (timers (run_listener e l c))"
proof (cases l)
  case L_canPlay
  let ?c = "c\<lparr>timers := clearField (bufferConfirmTimer c) (timers c), bufferConfirmTimer := None,
    bufferSuspected := False\<rparr>"
  have "late t (timers ?c)" using assms by (simp add: late_clear)
  moreover from this have "late t (timers (tick e ?c))" by (rule late_frame) simp
  ultimately show ?thesis by (simp add: L_canPlay canPlay_def Let_def late_schedule)
qed (use assms in \<open>auto intro: late_waiting late_frame\<close>)

lemma late_timer:
  assumes "late t (timers c)"
  shows "late t (timers (run_timer e k c))"
proof (cases k)
  case BufferConfirmT
  have "same_timers (c\<lparr>bufferConfirmTimer := None\<rparr>) (bufferConfirm_fires e c)"
    by (simp add: bufferConfirm_fires_def Let_def split: option.splits)
  then show ?thesis using assms by (simp add: BufferConfirmT same_timers_def)
next
  case RecoveryT
  have "same_timers (c\<lparr>recoveryTimer := None\<rparr>) (recovery_fires e c)"
    by (simp add: recovery_fires_def Let_def split: option.splits)
  then show ?thesis using assms by (simp add: RecoveryT same_timers_def)
next
  case PlayT
  have "same_timers (c\<lparr>playTimer := None\<rparr>) (play_fires c)"
    by (simp add: play_fires_def Let_def split: option.splits)
  then show ?thesis using assms by (simp add: PlayT same_timers_def)
qed (use assms in \<open>auto intro: late_frame\<close>)

lemma late_handle:
  assumes "late t (timers c)" and "t \<le> now e"
  shows "late t (timers (handle e ev c))"
proof (cases ev)
  case (Attach v)
  have "late t (timers (updateHeartbeat e (c\<lparr>video := w, tickTimer := h,
      timers := snd (arm TickT d q (timers c))\<rparr>)))" for w h d q
    using assms by (intro late_schedule) (simp add: late_arm)
  then show ?thesis by (simp add: Attach attach_def Let_def setInterval_arm case_prod_beta late_apply)
next
  case (SetHost b)
  have "late t (timers (updateHeartbeat e (c\<lparr>isHost := b, drift := d, softCorrectionSince := None\<rparr>)))" for d
    using assms by (intro late_schedule) simp
  then show ?thesis using assms by (simp add: SetHost setHost_def Let_def late_apply)
next
  case (MediaEvent m)
  have "late t (timers (fold (run_listener e) ls c))" for ls
    using assms by (induction ls arbitrary: c) (simp_all add: late_listener)
  then show ?thesis using assms by (simp add: MediaEvent dispatch_def split: option.splits)
next
  case (TimerFires h)
  then show ?thesis using assms by (auto intro!: late_timer dest: late_expire(1) split: option.splits)
next
  case UserPause
  have "same_timers (cancelScheduledPlay c) (onUserPause c) \<or> onUserPause c = c"
    by (simp add: onUserPause_def split: option.splits)
  then show ?thesis using assms late_frame [OF late_schedule(4)] by (auto simp: UserPause)
next
  case (Settle q ok)
  have "same_timers c (settle q ok (c\<lparr>promises := remove1 q (promises c)\<rparr>))" by simp
  then show ?thesis using assms late_frame by (auto simp: Settle)
qed (use assms in \<open>auto simp: setRoomState_def realign_def late_apply late_schedule intro: late_frame split: option.splits\<close>)

lemma late_step: "late t (timers c) \<Longrightarrow> t \<le> now e \<Longrightarrow> late t (timers (step e ev c))"
  using late_handle [of t "c\<lparr>log := []\<rparr>" e ev] by (simp add: step_def run_microtask_def)

lemma late_run:
  "late t (timers c) \<Longrightarrow> list_all (\<lambda>(e, ev). t \<le> now e) evs \<Longrightarrow> late t (timers (run evs c))"
  by (induction evs c rule: run.induct) (auto simp: late_step)

lemma report_timer:
  assumes "Send ''cmd.playback.host_buffering'' p a \<in> set (log (step e ev c))"
  obtains h ts where "ev = TimerFires h" "expire h (now e) (timers c) = Some (BufferConfirmT, ts)"
proof -
  have rep: "Send ''cmd.playback.host_buffering'' p a \<in> set (log (handle e ev (c\<lparr>log := []\<rparr>)))"
    using assms by (simp add: step_log_flags)
  then obtain h k ts where h: "ev = TimerFires h" "expire h (now e) (timers c) = Some (k, ts)"
      "k \<in> {BufferConfirmT, RecoveryT}"
    using no_report_log [OF no_report_handle] by blast
  moreover have "k \<noteq> RecoveryT"
    using rep recovery_report [of "''cmd.playback.host_buffering''" p a e "c\<lparr>log := [], timers := ts\<rparr>"] by (auto simp: h)
  ultimately show thesis using that by auto
qed

lemma canplay_late:
  assumes "timers_ok c" and "video c = Some v"
    and "filter (\<lambda>x. fst x = ''canplay'') (v_listeners v) = [(''canplay'', L_canPlay)]"
  shows "late t (timers (step e (MediaEvent ''canplay'') c))"
proof -
  let ?c = "c\<lparr>log := [], timers := clearField (bufferConfirmTimer c) (timers c), bufferConfirmTimer := None,
    bufferSuspected := False\<rparr>"
  have "tracks (clearField (bufferConfirmTimer c) (timers c)) BufferConfirmT False None"
    using slots_stop(4) [of "timers c"] assms(1) unfolding timers_ok_defs slots_def by blast
  then have "late t (timers ?c)"
    by (auto simp: late_def tracks_def handles_of_def filter_empty_conv)
  moreover from this have "late t (timers (tick e ?c))" by (rule late_frame) simp
  moreover have "step e (MediaEvent ''canplay'') c = run_microtask (canPlay e (c\<lparr>log := []\<rparr>))"
    using assms(2,3) by (simp add: step_def dispatch_def)
  ultimately show ?thesis
    by (simp add: canPlay_def Let_def late_schedule run_microtask_def)
qed

text \<open>
  A short interruption stays local: once the element can play again, the host does not ask the
  room to stop before the full confirmation delay has passed since then, whatever happens meanwhile.
\<close>

theorem buffering_debounced:
  assumes "ctl_reachable c" and "video c = Some v"
    and "filter (\<lambda>x. fst x = ''canplay'') (v_listeners v) = [(''canplay'', L_canPlay)]"
    and "list_all (\<lambda>(e, ev). now e0 \<le> now e) evs"
    and "Send ''cmd.playback.host_buffering'' p a
           \<in> set (log (step e ev (run evs (step e0 (MediaEvent ''canplay'') c))))"
  shows "now e0 + BUFFER_CONFIRM_MS \<le> now e"
proof -
  let ?c = "run evs (step e0 (MediaEvent ''canplay'') c)"
  have "timers_ok c" using assms(1) by (rule ctl_timers.inv_reachable)
  then have "late (now e0) (timers ?c)" using assms(2,3,4) by (intro late_run canplay_late)
  moreover obtain h ts where "expire h (now e) (timers ?c) = Some (BufferConfirmT, ts)"
    using assms(5) by (rule report_timer)
  ultimately show ?thesis using late_expire(2) by blast
qed

theorem buffering_debounced_witness: "(50::rat) + BUFFER_CONFIRM_MS \<le> 2801"
proof -
  have rep: "Send ''cmd.playback.host_buffering'' (position_of (Num 10000)) True
      \<in> set (log (step (demo_env 2801) (TimerFires 4)
          (run [(demo_env 100, SetRoomState (demo_state 1 Playing) False), (demo_env 1000, Media demo_starved),
                (demo_env 1001, MediaEvent ''waiting'')]
             (step (demo_env 50) (MediaEvent ''canplay'') demo_host))))"
    by code_simp
  have "map_option (\<lambda>v. filter (\<lambda>x. fst x = ''canplay'') (v_listeners v)) (video demo_host) =
      Some [(''canplay'', L_canPlay)]"
    by code_simp
  then obtain v where v: "video demo_host = Some v"
      "filter (\<lambda>x. fst x = ''canplay'') (v_listeners v) = [(''canplay'', L_canPlay)]" by auto
  show ?thesis
    using buffering_debounced [OF attached_reachable v _ rep] by (simp add: demo_env_def)
qed

end
