(* ===== verification/RoomNetwork.thy ===== *)
theory RoomNetwork
  imports RoomActor_Props SyncController_Props ClockSynchronizer
begin

text \<open>
  The server's room and the players of its members together: what a connection is told, what a controller
  makes of it whatever else happens to it meanwhile, and how far apart two members may be.
\<close>

section \<open>What a controller makes of the room's states\<close>

abbreviation force :: "Controller \<Rightarrow> PlaybackState option \<times> int" where
  "force c \<equiv> (state c, lastRevision c)"

lemma force_flags: "flags c = flags c' \<Longrightarrow> force c = force c'"
  by (simp add: flags_def)

lemma force_callbacks:
  "force (bufferConfirm_fires e c) = force c" "force (recovery_fires e c) = force c" "force (settle p b c) = force c"
  "force (setHost e h c) = force c"
proof -
  show "force (bufferConfirm_fires e c) = force c" "force (recovery_fires e c) = force c"
    by (auto simp: bufferConfirm_fires_def recovery_fires_def Let_def basic_frame split: option.splits)
  show "force (settle p b c) = force c" by (cases "(p, b, c)" rule: settle.cases) (simp_all add: basic_frame)
  show "force (setHost e h c) = force c"
    using force_flags [OF flags_apply_state] force_flags [OF flags_work(4)]
    by (auto simp: setHost_def Let_def)
qed

text \<open>Only the states of the room set the state in force.\<close>

lemma force_other:
  assumes "\<forall>st f. ev \<noteq> SetRoomState st f"
  shows "force (step e ev c) = force c"
proof -
  have t: "force (run_timer e k c) = force c" for k c
    by (cases k) (use force_flags [OF flags_work(2)] force_flags [OF flags_work(3)] force_flags [OF flags_work(10)] force_callbacks in auto)
  have u: "force (handle e ev c) = force c" for c
    using assms force_flags [OF flags_user(1)] force_flags [OF flags_user(2)] force_flags [OF flags_user(3)]
      force_flags [OF flags_user(4)] force_flags [OF flags_user(5)] force_flags [OF flags_user(6)] force_flags [OF flags_user(7)]
      force_flags [OF flags_user(8)] force_flags [OF flags_user(9)] force_flags [OF flags_dispatch] force_callbacks t
    by (cases ev) (auto split: option.splits)
  show ?thesis using force_flags [OF step_log_flags(2), of e ev c] u [of "c\<lparr>log := []\<rparr>"] by simp
qed

lemma force_update:
  "force (step e (SetRoomState st f) c) =
     (if f \<or> lastRevision c < revision st then (Some st, revision st) else force c)"
proof -
  have "force (apply_state e p f (c\<lparr>log := [], lastRevision := revision st, state := Some st\<rparr>)) = (Some st, revision st)" for p
    using force_flags [OF flags_apply_state] by simp
  then show ?thesis
    using force_flags [OF step_log_flags(2), of e "SetRoomState st f" c] by (auto simp: setRoomState_def acceptRevision_def)
qed

section \<open>What a connection is told\<close>

text \<open>
  What the page makes of a message: a snapshot is the state by force, the playback's state is an offer. The
  other messages do not concern the player.
\<close>

fun told :: "nat \<Rightarrow> actor_out \<Rightarrow> (bool \<times> ServerPlayback) list" where
  "told c (Deliver d (Ev_snapshot r s ms)) = (if d = c then [(True, s)] else [])"
| "told c (Deliver d (Ev_playback s)) = (if d = c then [(False, s)] else [])"
| "told c x = []"

definition feed_of :: "nat \<Rightarrow> actor_out list \<Rightarrow> (bool \<times> ServerPlayback) list" where
  "feed_of c xs = concat (map (told c) xs)"

fun cuts :: "nat \<Rightarrow> actor_out \<Rightarrow> bool" where
  "cuts c (Disconnect d n) = (d = c)"
| "cuts c x = False"

definition cut_off :: "nat \<Rightarrow> actor_out list \<Rightarrow> bool" where
  "cut_off c xs = list_ex (cuts c) xs"

abbreviation feed :: "nat \<Rightarrow> Actor \<Rightarrow> (bool \<times> ServerPlayback) list" where
  "feed c a \<equiv> feed_of c (ac_out a)"

definition conns :: "Actor \<Rightarrow> nat set" where
  "conns a = (\<lambda>x. rt_client (snd x)) ` set (ac_members a)"

lemma feed_simps [simp]:
  "feed_of c [] = []" "feed_of c (x # xs) = told c x @ feed_of c xs" "feed_of c (xs @ ys) = feed_of c xs @ feed_of c ys"
  "cut_off c [] = False" "cut_off c (x # xs) = (cuts c x \<or> cut_off c xs)" "cut_off c (xs @ ys) = (cut_off c xs \<or> cut_off c ys)"
  by (simp_all add: feed_of_def cut_off_def)

lemma told_states: "x \<in> set (told c y) \<Longrightarrow> snd x \<in> out_states y"
  by (cases "(c, y)" rule: told.cases) (auto split: if_splits)

lemma feed_states: "x \<in> set (feed_of c xs) \<Longrightarrow> snd x \<in> states_in xs"
  by (auto simp: feed_of_def states_in_def intro: told_states bexI)

lemma feed_empty: "states_in xs = {} \<Longrightarrow> feed_of c xs = []"
  using feed_states [of _ c xs] by (cases "feed_of c xs") auto

lemma broadcast_Cons:
  "broadcast_to e ev (x # ms) =
     (if se_slow e (rt_client (snd x)) then Disconnect (rt_client (snd x)) 1013 else Deliver (rt_client (snd x)) ev) # broadcast_to e ev ms"
  "broadcast_to e ev [] = []"
  by (simp_all add: broadcast_to_def split: prod.split)

lemma feed_broadcast_other: "c \<notin> (\<lambda>x. rt_client (snd x)) ` set ms \<Longrightarrow> feed_of c (broadcast_to e ev ms) = []"
  by (induction ms) (cases ev; auto simp: broadcast_Cons)+

lemma broadcast_reaches:
  assumes "c \<in> (\<lambda>x. rt_client (snd x)) ` set ms"
  shows "cut_off c (broadcast_to e ev ms) \<or> \<not> se_slow e c \<and> (\<forall>s. ev = Ev_playback s \<longrightarrow> feed_of c (broadcast_to e ev ms) \<noteq> [])"
  using assms by (induction ms) (auto simp: broadcast_Cons)

text \<open>One step of the room, as its connections see it.\<close>

definition served :: "Actor \<Rightarrow> actor_out list \<Rightarrow> Actor \<Rightarrow> nat \<Rightarrow> bool" where
  "served a xs a' c \<longleftrightarrow>
     cut_off c xs \<or>
     (c \<in> conns a \<and> (c \<in> conns a' \<longrightarrow> current a' = current a \<or> feed_of c xs \<noteq> [])) \<or>
     (c \<notin> conns a' \<and> feed_of c xs = []) \<or>
     (feed_of c xs \<noteq> [] \<and> fst (hd (feed_of c xs)))"

definition informs :: "Actor \<Rightarrow> Actor \<Rightarrow> bool" where
  "informs a a' \<longleftrightarrow> (\<exists>xs. ac_out a' = ac_out a @ xs \<and> states_in xs \<subseteq> {current a'} \<and> (\<forall>c. served a xs a' c))"

lemma informsI: "ac_out a' = ac_out a @ xs \<Longrightarrow> states_in xs \<subseteq> {current a'} \<Longrightarrow> (\<And>c. served a xs a' c) \<Longrightarrow> informs a a'"
  by (auto simp: informs_def)

text \<open>A quiet step tells nobody a state and takes nobody in.\<close>

definition quiet :: "Actor \<Rightarrow> Actor \<Rightarrow> bool" where
  "quiet a a' \<longleftrightarrow> (\<exists>xs. ac_out a' = ac_out a @ xs \<and> states_in xs = {} \<and> current a' = current a \<and> conns a' \<subseteq> conns a)"

lemma quietI:
  "ac_out a' = ac_out a @ xs \<Longrightarrow> states_in xs = {} \<Longrightarrow> current a' = current a \<Longrightarrow> conns a' \<subseteq> conns a \<Longrightarrow> quiet a a'"
  by (auto simp: quiet_def)

lemma quiet_refl [simp]: "quiet a a"
  by (rule quietI [of _ _ "[]"]) simp_all

lemma quiet_trans: "quiet a b \<Longrightarrow> quiet b c \<Longrightarrow> quiet a c"
  unfolding quiet_def by (metis append_assoc states_in_simps(3) sup_bot.right_neutral subset_trans)

lemma quiet_basic:
  "states_in xs = {} \<Longrightarrow> quiet b (act xs b)" "event_states ev = {} \<Longrightarrow> quiet b (broadcast e ev b)"
  "quiet b (persistCheckpoint e b)" "quiet b (set_status st b)" "quiet b (set_host i b)" "quiet b (stop_hostTimer b)"
proof -
  show act: "states_in xs = {} \<Longrightarrow> quiet b (act xs b)" for xs by (rule quietI [of _ _ xs]) (simp_all add: conns_def)
  show "event_states ev = {} \<Longrightarrow> quiet b (broadcast e ev b)" by (simp add: broadcast_def act)
  show "quiet b (persistCheckpoint e b)" by (simp add: persistCheckpoint_def Let_def act)
  show "quiet b (set_status st b)" "quiet b (set_host i b)" "quiet b (stop_hostTimer b)"
    by (rule quietI [of _ _ "[]"]; simp add: conns_def)+
qed

lemma quiet_then:
  "quiet a b \<Longrightarrow> states_in xs = {} \<Longrightarrow> quiet a (act xs b)" "quiet a b \<Longrightarrow> event_states ev = {} \<Longrightarrow> quiet a (broadcast e ev b)"
  "quiet a b \<Longrightarrow> quiet a (persistCheckpoint e b)" "quiet a b \<Longrightarrow> quiet a (set_status st b)" "quiet a b \<Longrightarrow> quiet a (set_host i b)"
  "quiet a b \<Longrightarrow> quiet a (stop_hostTimer b)"
  using quiet_trans quiet_basic by blast+

lemma quiet_fields:
  "ac_out b = ac_out a \<Longrightarrow> current b = current a \<Longrightarrow> conns b \<subseteq> conns a \<Longrightarrow> quiet a b"
  by (rule quietI [of _ _ "[]"]) simp_all

lemma quiet_then_fields:
  assumes "quiet a b"
  shows "quiet a (b\<lparr>ac_room := r\<rparr>)" "quiet a (b\<lparr>ac_stopped := s\<rparr>)" "quiet a (b\<lparr>ac_members := [], ac_clients := 0\<rparr>)"
    "quiet a (b\<lparr>ac_expiring := x\<rparr>)"
proof -
  have "quiet b (b\<lparr>ac_room := r\<rparr>)" "quiet b (b\<lparr>ac_stopped := s\<rparr>)" "quiet b (b\<lparr>ac_members := [], ac_clients := 0\<rparr>)"
    "quiet b (b\<lparr>ac_expiring := x\<rparr>)"
    by (rule quiet_fields; simp add: conns_def)+
  then show "quiet a (b\<lparr>ac_room := r\<rparr>)" "quiet a (b\<lparr>ac_stopped := s\<rparr>)" "quiet a (b\<lparr>ac_members := [], ac_clients := 0\<rparr>)"
    "quiet a (b\<lparr>ac_expiring := x\<rparr>)"
    using quiet_trans [OF assms] by blast+
qed

lemmas quiet_rules = quiet_then quiet_then_fields

lemma conns_delete: "(\<lambda>x. rt_client (snd x)) ` set (AList.delete i ms) \<subseteq> (\<lambda>x. rt_client (snd x)) ` set ms"
  by (intro image_mono set_delete)

lemma conns_update: "(\<lambda>x. rt_client (snd x)) ` set (AList.update i m ms) \<subseteq> insert (rt_client m) ((\<lambda>x. rt_client (snd x)) ` set ms)"
  using set_update [of i m ms] by auto

lemma quietE:
  assumes "quiet a a'"
  obtains xs where "ac_out a' = ac_out a @ xs" "states_in xs = {}" "current a' = current a" "conns a' \<subseteq> conns a"
proof -
  assume "\<And>xs. ac_out a' = ac_out a @ xs \<Longrightarrow> states_in xs = {} \<Longrightarrow> current a' = current a \<Longrightarrow> conns a' \<subseteq> conns a \<Longrightarrow> thesis"
  then show thesis using assms by (auto simp: quiet_def)
qed

lemma informs_quiet:
  assumes "quiet a a'"
  shows "informs a a'"
proof -
  obtain xs where xs: "ac_out a' = ac_out a @ xs" "states_in xs = {}" "current a' = current a" "conns a' \<subseteq> conns a"
    using assms by (rule quietE)
  show ?thesis
    by (rule informsI [OF xs(1)]) (use xs(2-4) feed_empty [OF xs(2)] in \<open>auto simp: served_def\<close>)
qed

lemma informs_after:
  assumes "quiet a b" and "informs b d"
  shows "informs a d"
proof -
  obtain xs where xs: "ac_out b = ac_out a @ xs" "states_in xs = {}" "current b = current a" "conns b \<subseteq> conns a"
    using assms(1) by (rule quietE)
  obtain ys where ys: "ac_out d = ac_out b @ ys" "states_in ys \<subseteq> {current d}" "\<And>c. served b ys d c"
    using assms(2) by (auto simp: informs_def)
  show ?thesis
  proof (rule informsI)
    show "served a (xs @ ys) d c" for c using ys(3) [of c] xs(3,4) feed_empty [OF xs(2), of c] by (auto simp: served_def)
  qed (use xs ys in auto)
qed

lemma informs_before:
  assumes "informs a b" and "quiet b d"
  shows "informs a d"
proof -
  obtain xs where xs: "ac_out d = ac_out b @ xs" "states_in xs = {}" "current d = current b" "conns d \<subseteq> conns b"
    using assms(2) by (rule quietE)
  obtain ys where ys: "ac_out b = ac_out a @ ys" "states_in ys \<subseteq> {current b}" "\<And>c. served a ys b c"
    using assms(1) by (auto simp: informs_def)
  show ?thesis
  proof (rule informsI)
    show "served a (ys @ xs) d c" for c using ys(3) [of c] xs(3,4) feed_empty [OF xs(2), of c] by (auto simp: served_def)
  qed (use xs ys in auto)
qed

lemma informs_broadcast:
  assumes "ac_out b = ac_out a" and "conns b \<subseteq> conns a"
  shows "informs a (broadcast e (Ev_playback (current b)) b)"
proof -
  let ?b = "broadcast_to e (Ev_playback (current b)) (ac_members b)"
  have "cut_off c ?b \<or> c \<in> conns a \<and> feed_of c ?b \<noteq> [] \<or> c \<notin> conns b \<and> feed_of c ?b = []" for c
    using assms(2) broadcast_reaches [of c "ac_members b" e "Ev_playback (current b)"]
      feed_broadcast_other [of c "ac_members b" e] by (cases "c \<in> conns b") (auto simp: conns_def)
  moreover have "states_in ?b \<subseteq> {current b}" by auto
  moreover have "conns (broadcast e (Ev_playback (current b)) b) = conns b" by (simp add: conns_def)
  ultimately show ?thesis
    using assms(1) by (intro informsI [of _ _ ?b]) (auto simp: served_def)
qed

lemma informs_publish: "informs a (publish e f a)"
  using informs_broadcast [of "a\<lparr>tl_playback := (f (current a))\<lparr>Revision := Revision (f (current a)) + 1\<rparr>\<rparr>" a e]
  by (simp add: publish_def Let_def conns_def)

lemma informs_join:
  assumes "ac_out a' = ac_out a @ pre @ send_to e c (Ev_snapshot r (current a') l) @ broadcast_to e (Ev_member_joined i) (ac_members a')"
    and "states_in pre = {}" and "current a' = current a" and "c \<in> conns a'" and "conns a' \<subseteq> insert c (conns a)"
  shows "informs a a'"
proof (rule informsI)
  let ?b = "broadcast_to e (Ev_member_joined i) (ac_members a')" and ?s = "send_to e c (Ev_snapshot r (current a') l)"
  show "ac_out a' = ac_out a @ pre @ ?s @ ?b" by (rule assms(1))
  show "states_in (pre @ ?s @ ?b) \<subseteq> {current a'}" using assms(2) by auto
  have b: "feed_of k ?b = []" for k by (rule feed_empty) simp
  show "served a (pre @ ?s @ ?b) a' k" for k
  proof (cases "k = c")
    case True
    then show ?thesis using broadcast_reaches [of c "ac_members a'" e "Ev_member_joined i"] assms(4)
      by (auto simp: served_def conns_def send_to_def feed_empty [OF assms(2)])
  next
    case False
    then show ?thesis using assms(3,5) feed_empty [OF assms(2), of k] b by (auto simp: served_def send_to_def)
  qed
qed

section \<open>Every operation serves its connections\<close>

lemma serves_join: "informs a (snd (join_room_as e i c a))"
proof (cases "sr_Status (ac_room a) = CLOSED_STATUS \<or> member_at (id_id i) a = None \<and> int (length (ac_members a)) \<ge> sr_MaxMembers (ac_room a)")
  case True
  then show ?thesis by (auto simp: join_room_as_def informs_quiet)
next
  case False
  let ?new = "\<lparr>rt_identity = i, rt_client = c, rt_ready = False\<rparr>"
  have new: "(id_id i, ?new) \<in> set (AList.update (id_id i) ?new (ac_members a))"
    by (intro map_of_SomeD) (simp add: update_conv')
  have sub: "(\<lambda>x. rt_client (snd x)) ` set (AList.update (id_id i) ?new (ac_members a)) \<subseteq> insert c (conns a)"
    using conns_update [of "id_id i" ?new "ac_members a"] by (simp add: conns_def)
  define a1 where "a1 = (case member_at (id_id i) a of Some old \<Rightarrow> act [Disconnect (rt_client old) 4001] a
      | None \<Rightarrow> a\<lparr>ac_clients := ac_clients a + 1\<rparr>)"
  define a2 where "a2 = a1\<lparr>ac_members := AList.update (id_id i) ?new (ac_members a1)\<rparr>"
  define a3 where "a3 = (if id_id i = sr_HostUserID (ac_room a2) \<and> sr_Status (ac_room a2) = HOST_DISCONNECTED then host_returns e a2 else a2)"
  define pre where "pre = (case member_at (id_id i) a of Some old \<Rightarrow> [Disconnect (rt_client old) 4001] | None \<Rightarrow> []) @
      (if id_id i = sr_HostUserID (ac_room a2) \<and> sr_Status (ac_room a2) = HOST_DISCONNECTED then [Db (UpdateRoomStatus OPEN_ROOM)] else [])"
  have a1: "ac_members a1 = ac_members a" "current a1 = current a" by (simp_all add: a1_def split: option.split)
  have a3: "ac_out a3 = ac_out a @ pre" "ac_members a3 = AList.update (id_id i) ?new (ac_members a)" "current a3 = current a"
    using a1 by (auto simp: a3_def a2_def pre_def host_returns_def a1_def split: option.split)
  have "snd (join_room_as e i c a) = broadcast e (Ev_member_joined i) (act (send_to e c (snapshot a3)) a3)"
  proof -
    have "sr_Status (ac_room a) \<noteq> CLOSED_STATUS" "\<not> (member_at (id_id i) a = None \<and> int (length (ac_members a)) \<ge> sr_MaxMembers (ac_room a))"
      using False by blast+
    then show ?thesis
      by (simp only: join_room_as_def if_False Let_def snd_conv a1_def [symmetric] a2_def [symmetric] a3_def [symmetric])
  qed
  moreover have "states_in pre = {}" by (auto simp: pre_def split: option.split)
  ultimately show ?thesis
    using a3 sub image_eqI [OF _ new, of c "\<lambda>x. rt_client (snd x)"]
    by (intro informs_join [of _ _ pre e c "ac_room a3" "snapshot_members a3" i]) (simp_all add: snapshot_def conns_def)
qed

lemma serves_leave: "informs a (leave_room_as e i c a)"
proof -
  define a1 where "a1 = broadcast e (Ev_member_left i) (a\<lparr>ac_members := AList.delete i (ac_members a), ac_clients := ac_clients a - 1\<rparr>)"
  have q: "quiet a a1"
    unfolding a1_def by (intro quiet_then quiet_fields) (use conns_delete in \<open>simp_all add: conns_def\<close>)
  have "informs a1 (persistCheckpoint e (publish e f (act [Db (UpdateRoomStatus HOST_DISCONNECTED)] (set_status HOST_DISCONNECTED a1))))" for f
    by (intro informs_before [OF informs_after [OF _ informs_publish] quiet_basic(3)] quiet_then quiet_refl) simp
  then have "informs a1 (host_leaves e i a1)"
    unfolding host_leaves_def Let_def by (rule informs_before) (rule quiet_fields; auto simp: conns_def simp del: publish_fields fields2)
  then show ?thesis
    using q informs_quiet [OF q] informs_quiet [of a a] informs_after [OF q]
    by (auto simp: leave_room_as_def a1_def [symmetric] Let_def split: option.split)
qed

lemma serves_expire: "informs a (expire_host e i a)"
  by (auto simp: expire_host_def intro!: informs_quiet quiet_then split: option.split)

lemma quiet_members:
  assumes "member_at i a = Some m" and "rt_client m' = rt_client m"
  shows "quiet a (a\<lparr>ac_members := AList.update i m' (ac_members a)\<rparr>)"
proof (rule quiet_fields)
  have "rt_client m \<in> conns a" using assms(1) by (force simp: conns_def member_at_def dest: map_of_SomeD)
  then have "insert (rt_client m') (conns a) = conns a" using assms(2) by auto
  moreover have "conns (a\<lparr>ac_members := AList.update i m' (ac_members a)\<rparr>) \<subseteq> insert (rt_client m') (conns a)"
    using conns_update [of i m' "ac_members a"] by (simp add: conns_def)
  ultimately show "conns (a\<lparr>ac_members := AList.update i m' (ac_members a)\<rparr>) \<subseteq> conns a" by simp
qed simp_all

lemma quiet_removal: "quiet a (a\<lparr>ac_members := AList.delete i (ac_members a), ac_clients := n\<rparr>)"
  using conns_delete [of i "ac_members a"] by (intro quiet_fields) (simp_all add: conns_def)

lemma serves_ready: "informs a (snd (client_ready e i v a))"
proof (cases "decode_ready v")
  case None
  then show ?thesis by (simp add: client_ready_def informs_quiet)
next
  case (Some p)
  define a1 where "a1 = (case member_at (id_id i) a of None \<Rightarrow> a
      | Some m \<Rightarrow> a\<lparr>ac_members := AList.update (id_id i) (m\<lparr>rt_ready := r_Ready p\<rparr>) (ac_members a)\<rparr>)"
  have q: "quiet a a1" by (simp add: a1_def quiet_members split: option.split)
  have "informs a (publish e f (act [Db c] a1))" for f c
    by (intro informs_after [OF _ informs_publish] quiet_rules q) simp
  then show ?thesis using informs_quiet [OF q]
    by (simp add: client_ready_def Some a1_def [symmetric] Let_def)
qed

lemma serves_admin:
  "informs a (snd (transfer_host e p a))" "informs a (snd (kick_member e p a))" "informs a (snd (close_room_now e a))"
proof -
  show "informs a (snd (transfer_host e p a))"
    by (auto simp: transfer_host_def Let_def intro!: informs_quiet quiet_rules split: option.split)
  show "informs a (snd (kick_member e p a))"
    by (auto simp: kick_member_def Let_def intro!: informs_quiet quiet_rules quiet_removal split: option.split)
  have d: "states_in (map (\<lambda>(i, m). Disconnect (rt_client m) n) ms) = {}" for n and ms :: "(string \<times> RtMember) list" by simp
  show "informs a (snd (close_room_now e a))"
    by (auto simp: close_room_now_def Let_def d simp del: fields intro!: informs_quiet quiet_rules split: option.split)
qed

lemma serves_media: "informs a (snd (set_media e p a))"
proof -
  have "informs a (persistCheckpoint e (publish e f (act xs a\<lparr>ac_room := r\<rparr>)))" if "states_in xs = {}" for f xs r
    using that by (intro informs_before [OF informs_after [OF _ informs_publish] quiet_basic(3)] quiet_rules) simp_all
  then show ?thesis
    by (auto simp: set_media_def Let_def simp del: fields publish_fields intro!: informs_quiet quiet_rules split: option.split)
qed

lemma serves_playback: "informs a (snd (command_playback e t p a))"
proof (cases rule: command_playback_cases [of e t p a])
  case (changed b)
  have "ac_out b = ac_out a" "conns b = conns a"
    using playback_command_frame(1,2) [of "se_now e" t p a] by (simp_all add: changed(2) conns_def)
  then show ?thesis by (simp add: changed(1) informs_before [OF informs_broadcast quiet_basic(3)])
next
  case kept
  then show ?thesis
    using playback_command_frame(1,2) [of "se_now e" t p a] playback_command_revision(2) [OF kept(2)]
    by (intro informs_quiet quiet_fields) (simp_all add: conns_def)
qed

lemma serves_apply: "informs a (snd (apply_command e i t v a))"
  by (simp add: apply_command_def serves_ready serves_media serves_admin serves_playback informs_quiet split: option.split)

lemma serves_msg: "informs a (receive_msg e m a)"
proof (cases m)
  case (Expire_host i)
  show ?thesis unfolding Expire_host receive_msg.simps by (intro informs_after [OF _ serves_expire] quiet_rules quiet_refl)
next
  case (Ready_req i b)
  then show ?thesis by (auto intro!: informs_quiet quiet_members split: option.split)
next
  case (Rename_req title)
  show ?thesis
    by (auto simp: Rename_req rename_room_def Let_def simp del: fields intro!: informs_quiet quiet_rules split: option.split)
next
  case Close_req
  show ?thesis
    by (auto simp: Close_req shut_down_def Let_def simp del: fields fields2 intro!: informs_quiet quiet_rules)
next
  case (Grace_over h)
  then show ?thesis by (auto intro!: informs_quiet quiet_fields simp: conns_def split: option.split)
qed (auto simp: serves_join serves_leave serves_apply reopen_room_def Let_def simp del: fields intro!: informs_quiet quiet_rules quiet_basic split: option.split)

section \<open>What a connection has been told is the present\<close>

definition fed :: "Actor \<Rightarrow> nat \<Rightarrow> bool" where
  "fed a c \<longleftrightarrow>
     cut_off c (ac_out a) \<or>
     (if feed c a = [] then c \<notin> conns a
      else fst (hd (feed c a)) \<and> (c \<in> conns a \<longrightarrow> snd (last (feed c a)) = current a))"

lemma feed_pubs: "x \<in> set (feed c a) \<Longrightarrow> snd x \<in> out_pubs a"
  using feed_states by (auto simp: out_pubs_def)

lemma fed_informs:
  assumes "fed a c" and "informs a a'"
  shows "fed a' c"
proof -
  obtain xs where xs: "ac_out a' = ac_out a @ xs" "states_in xs \<subseteq> {current a'}" "served a xs a' c"
    using assms(2) by (auto simp: informs_def)
  show ?thesis
  proof (cases "feed_of c xs = []")
    case True
    then show ?thesis using assms(1) xs(3) by (auto simp: fed_def served_def xs(1) split: if_splits)
  next
    case False
    then have "snd (last (feed c a')) = current a'"
      using feed_states [OF last_in_set [OF False]] xs(2) by (auto simp: xs(1))
    then show ?thesis using False assms(1) xs(3) by (auto simp: fed_def served_def xs(1) hd_append split: if_splits)
  qed
qed

definition told_all :: "Actor \<Rightarrow> bool" where
  "told_all a \<longleftrightarrow> actor_ok a \<and> (\<forall>c. fed a c)"

interpretation told_inv: invariant_system actor_init actor_trans told_all
proof unfold_locales
  show "actor_init a \<Longrightarrow> told_all a" for a
  proof -
    assume init: "actor_init a"
    then obtain r ck where "a = NewActor r ck" by (auto simp: actor_init_def)
    then have "ac_out a = []" "ac_members a = []" by (simp_all add: NewActor_def Let_def)
    then show "told_all a" using actor_ok_init [OF init] by (simp add: told_all_def fed_def conns_def)
  qed
  show "told_all a \<Longrightarrow> actor_trans a l a' \<Longrightarrow> told_all a'" for a l a'
  proof -
    assume ok: "told_all a" and tr: "actor_trans a l a'"
    from tr obtain e m where "a' = receive_msg e m a" by (rule actor_transE)
    then show "told_all a'" using ok actor_inv.inv_step [OF _ tr] fed_informs [OF _ serves_msg]
      by (simp add: told_all_def)
  qed
qed

section \<open>What a controller makes of what it is told\<close>

fun room_states :: "(env \<times> ctl_event) list \<Rightarrow> (bool \<times> PlaybackState) list" where
  "room_states [] = []"
| "room_states ((e, ev) # es) = (case ev of SetRoomState st f \<Rightarrow> [(f, st)] | _ \<Rightarrow> []) @ room_states es"

definition offer :: "bool \<times> PlaybackState \<Rightarrow> PlaybackState option \<times> int \<Rightarrow> PlaybackState option \<times> int" where
  "offer x y = (if fst x \<or> snd y < revision (snd x) then (Some (snd x), revision (snd x)) else y)"

lemma force_run: "force (run es c) = fold offer (room_states es) (force c)"
proof (induction es arbitrary: c)
  case (Cons x es)
  obtain e ev where x: "x = (e, ev)" by (cases x)
  show ?case
  proof (cases "\<exists>st f. ev = SetRoomState st f")
    case True
    then show ?thesis using Cons force_update by (auto simp: x offer_def)
  next
    case False
    then have "room_states (x # es) = room_states es" by (cases ev) (auto simp: x)
    moreover have "force (step e ev c) = force c" using False by (intro force_other) auto
    ultimately show ?thesis using Cons by (simp add: x)
  qed
qed simp

text \<open>States that are only offered: the newest wins, in whatever order they come.\<close>

lemma newest_offer:
  assumes "list_all (\<lambda>x. \<not> fst x) l"
  shows "\<exists>b \<in> insert st (snd ` set l). fold offer l (Some st, revision st) = (Some b, revision b) \<and>
           (\<forall>x \<in> insert st (snd ` set l). revision x \<le> revision b)"
  using assms
proof (induction l arbitrary: st)
  case (Cons x l)
  define st' where "st' = (if revision st < revision (snd x) then snd x else st)"
  have "offer x (Some st, revision st) = (Some st', revision st')"
    using Cons.prems by (simp add: offer_def st'_def)
  moreover obtain b where "b \<in> insert st' (snd ` set l)" "fold offer l (Some st', revision st') = (Some b, revision b)"
    "\<forall>x \<in> insert st' (snd ` set l). revision x \<le> revision b"
    using Cons.IH [of st'] Cons.prems by auto
  ultimately show ?case by (intro bexI [of _ b]) (auto simp: st'_def split: if_splits)
qed simp

text \<open>
  The page of a member that has handled what its connection was told: the first snapshot has come, by force;
  after that states it was told have been offered, in whatever order and however often (React may leave out
  states that were replaced at once, and repeats them), and the last one it was told among them.
\<close>

definition caught_up :: "Actor \<Rightarrow> string \<Rightarrow> (env \<times> ctl_event) list \<Rightarrow> bool" where
  "caught_up a i es =
     (case member_at i a of
        None \<Rightarrow> False
      | Some m \<Rightarrow>
          let l = map (\<lambda>x. published (snd x)) (feed (rt_client m) a) in
          \<not> cut_off (rt_client m) (ac_out a) \<and>
          (case room_states es of
             (True, st) # rest \<Rightarrow>
               st = hd l \<and> list_all (\<lambda>x. \<not> fst x \<and> snd x \<in> set l) rest \<and> last l \<in> set (st # map snd rest)
           | _ \<Rightarrow> False))"

lemma follows:
  assumes "actor_reachable a" and "caught_up a i es"
  shows "state (run es c) = Some (published (current a))"
proof -
  obtain m where m: "member_at i a = Some m" "\<not> cut_off (rt_client m) (ac_out a)"
    using assms(2) by (auto simp: caught_up_def Let_def split: option.splits)
  define l where "l = feed (rt_client m) a"
  have ok: "told_all a" by (rule told_inv.inv_reachable [OF assms(1)])
  have "rt_client m \<in> conns a" using m(1) by (force simp: conns_def member_at_def dest: map_of_SomeD)
  then have l: "l \<noteq> []" "snd (last l) = current a"
    using ok m(2) by (auto simp: told_all_def fed_def l_def split: if_splits dest: spec [of _ "rt_client m"])
  obtain st rest where es: "room_states es = (True, st) # rest" "st = published (snd (hd l))" "list_all (\<lambda>x. \<not> fst x) rest"
    "snd ` set rest \<subseteq> published ` snd ` set l" "published (snd (last l)) \<in> insert st (snd ` set rest)"
    using assms(2) m l(1) by (auto simp: caught_up_def Let_def l_def [symmetric] list_all_iff hd_map last_map image_image
        split: list.splits prod.splits bool.splits)
  obtain b where b: "b \<in> insert st (snd ` set rest)" "fold offer rest (Some st, revision st) = (Some b, revision b)"
    "\<forall>x \<in> insert st (snd ` set rest). revision x \<le> revision b"
    using newest_offer [OF es(3), of st] by blast
  obtain t where t: "t \<in> snd ` set l" "b = published t"
    using b(1) es(2,4) l(1) by (auto simp: image_iff intro: hd_in_set)
  have "t \<in> out_pubs a" using t(1) feed_pubs by (auto simp: l_def)
  moreover have "Revision (current a) \<le> Revision t"
  proof -
    have "revision (published (current a)) \<le> revision b" using b(3) es(5) unfolding l(2) by (rule bspec)
    then show ?thesis by (simp add: t(2) published_def)
  qed
  ultimately have "t = current a" using ok by (fastforce simp: told_all_def actor_ok_def pubs_ok_def)
  then show ?thesis
    using force_run [of es c] by (simp add: es(1) offer_def b(2) t(2))
qed

text \<open>
  C1. Every member follows the room: in whatever order members, timers, commands and answers of the database reach
  the server, a member that is connected and not cut off as too slow, and whose page has handled what the
  connection was told, has in force exactly the state the server has; whatever its controller was in before
  and whatever else it does meanwhile, and although the page may leave states out, repeat them and mix their
  order.
\<close>

theorem members_follow:
  assumes "actor_reachable a" and "caught_up a i es"
  shows "state (run es c) = Some (published (current a))"
  using assms by (rule follows)

definition demo_es :: "nat \<Rightarrow> (env \<times> ctl_event) list" where
  "demo_es k =
     [(demo_env 100, SetRoomState (published (snd (hd (feed k demo_actor)))) True), (demo_env 200, UserPlay),
      (demo_env 300, SetRoomState (published (current demo_actor)) False)]"

lemma demo_caught_up: "caught_up demo_actor ''u'' (demo_es 1)" "caught_up demo_actor ''v'' (demo_es 2)"
  by code_simp+

theorem members_follow_witness: "map_option revision (state (run (demo_es 2) demo_member)) = Some 1"
proof -
  have "Revision (current demo_actor) = 1" by code_simp
  then show ?thesis
    using members_follow [OF demo_actor_reachable demo_caught_up(2), of demo_member] by (simp add: published_def)
qed

section \<open>Members are in step\<close>

text \<open>A member whose clock has honest samples, at a moment when the server's clock shows \<open>T\<close>.\<close>

definition tells_time :: "rat \<Rightarrow> rat \<Rightarrow> env \<Rightarrow> bool" where
  "tells_time T err e \<longleftrightarrow>
     (\<exists>\<theta> d n ps. now e + \<theta> = T \<and> wsclock e = fold clock_step ps (newClock d n) \<and> sampleCount (wsclock e) \<noteq> 0 \<and>
        (\<forall>p \<in> set ps. honest \<theta> err p))"

lemma time_told:
  assumes "tells_time T err e"
  shows "\<bar>srv e - T\<bar> \<le> err"
proof -
  obtain \<theta> d n ps where c: "now e + \<theta> = T" "wsclock e = fold clock_step ps (newClock d n)" "sampleCount (wsclock e) \<noteq> 0"
    "\<forall>p \<in> set ps. honest \<theta> err p"
    using assms by (auto simp: tells_time_def)
  have "accurate \<theta> err (newClock d n)" by (simp add: accurate_def newClock_def)
  from accurate_run [OF this c(4)] c(1-3) show ?thesis
    by (auto simp: accurate_def serverNow_def sampleCount_def srv_def)
qed

lemma near_position:
  assumes "0 \<le> playbackRate s" and "playbackRate s \<le> r" and "\<bar>x - y\<bar> \<le> d"
  shows "\<bar>expectedPosition s x - expectedPosition s y\<bar> \<le> r * d"
proof -
  have "0 \<le> r" using assms(1,2) by linarith
  have up: "\<bar>expectedPosition s x - expectedPosition s y\<bar> \<le> (y - x) * playbackRate s" if "x \<le> y" for x y
    using expectedPosition_step [OF assms(1) that] by simp
  have "\<bar>expectedPosition s x - expectedPosition s y\<bar> \<le> \<bar>x - y\<bar> * playbackRate s"
    using up [of x y] up [of y x] by (cases "x \<le> y") (simp_all add: abs_minus_commute)
  also have "\<dots> \<le> d * r" using assms \<open>0 \<le> r\<close> by (intro mult_mono) auto
  finally show ?thesis by (simp add: mult.commute)
qed

text \<open>
  C2. Everybody sees the same picture, as long as the anchor is at most \<open>2 ^ 53\<close> milliseconds into the film and at
  most \<open>2 ^ 51\<close> ago: two members that have caught up, whose clocks have honest samples, aim at
  the same moment at positions that differ by at most the sum of the errors of their clocks times the greatest
  rate there is; and each aims at the position the server itself computes, up to the error of its clock and the
  fraction of a millisecond the server drops. (Outside these bounds the server's sum wraps around and the numbers
  of JavaScript skip whole milliseconds.)
\<close>

theorem members_in_step:
  assumes "actor_reachable a" and "caught_up a i es" and "caught_up a j fs"
    and "tells_time (of_int T) err e" and "tells_time (of_int T) err' f" and "in_range (current a) T"
  shows "\<exists>s t. state (run es c) = Some s \<and> state (run fs d) = Some t \<and>
           \<bar>expectedPosition s (srv e) - expectedPosition t (srv f)\<bar> \<le> 20001 / 10000 * (err + err') \<and>
           \<bar>expectedPosition s (srv e) - of_int (Expected (current a) T)\<bar> \<le> 20001 / 10000 * err + 1"
proof -
  let ?s = "published (current a)"
  have ok: "timeline_ok (current a)"
    using actor_inv.inv_reachable [OF assms(1)] by (simp add: actor_ok_def books_ok_def)
  then have rate: "0 \<le> playbackRate ?s" "playbackRate ?s \<le> 20001 / 10000" and dur: "0 \<le> DurationMs (current a)"
    using validRate_bounds [of "PlaybackRate (current a)"] by (auto simp: timeline_ok_def published_def)
  have "\<bar>srv e - srv f\<bar> \<le> err + err'" using time_told [OF assms(4)] time_told [OF assms(5)] by linarith
  then have "\<bar>expectedPosition ?s (srv e) - expectedPosition ?s (srv f)\<bar> \<le> 20001 / 10000 * (err + err')"
    by (rule near_position [OF rate])
  moreover have "\<bar>expectedPosition ?s (srv e) - expectedPosition ?s (of_int T)\<bar> \<le> 20001 / 10000 * err"
    by (rule near_position [OF rate time_told [OF assms(4)]])
  moreover have "\<bar>expectedPosition ?s (of_int T) - of_int (Expected (current a) T)\<bar> \<le> 1"
    using client_server_near [OF published_view [of "current a"] _ _ dur assms(6)] rate by (simp add: published_def)
  ultimately have "\<bar>expectedPosition ?s (srv e) - expectedPosition ?s (srv f)\<bar> \<le> 20001 / 10000 * (err + err')"
    "\<bar>expectedPosition ?s (srv e) - of_int (Expected (current a) T)\<bar> \<le> 20001 / 10000 * err + 1"
    by linarith+
  then show ?thesis using follows [OF assms(1,2), of c] follows [OF assms(1,3), of d] by blast
qed

definition demo_told :: "(rat \<times> rat) \<Rightarrow> env" where
  "demo_told x = \<lparr>now = fst x, wsclock = fold clock_step
     [Ping 10, PongAt 60 \<lparr>clientMonoMs = Num 10, serverRecvUnixMs = Num (snd x), serverSendUnixMs = Num (snd x)\<rparr>] (newClock 0 0)\<rparr>"

lemma demo_tells: "tells_time 5000 5 (demo_told (4000, 1030))" "tells_time 5000 15 (demo_told (3000, 2020))"
proof -
  let ?ps = "\<lambda>x. [Ping 10, PongAt 60 \<lparr>clientMonoMs = Num 10, serverRecvUnixMs = Num x, serverSendUnixMs = Num x\<rparr>]"
  have n: "sampleCount (wsclock (demo_told (t, x))) \<noteq> 0" for t x
    by (simp add: demo_told_def sampleCount_def newClock_def pingPayload_def acceptPong_def pending_get_def
        pending_delete_def pong_rtt_def valid_rtt_def clock_consts add_sample_def Let_def)
  show "tells_time 5000 5 (demo_told (4000, 1030))" unfolding tells_time_def
    by (rule exI [of _ 1000], rule exI [of _ 0], rule exI [of _ 0], rule exI [of _ "?ps 1030"])
       (use n in \<open>simp add: demo_told_def honest_def\<close>)
  show "tells_time 5000 15 (demo_told (3000, 2020))" unfolding tells_time_def
    by (rule exI [of _ 2000], rule exI [of _ 0], rule exI [of _ 0], rule exI [of _ "?ps 2020"])
       (use n in \<open>simp add: demo_told_def honest_def\<close>)
qed

theorem members_in_step_witness:
  "\<exists>s t. state (run (demo_es 1) demo_member) = Some s \<and> state (run (demo_es 2) demo_member) = Some t \<and>
     \<bar>expectedPosition s (srv (demo_told (4000, 1030))) - expectedPosition t (srv (demo_told (3000, 2020)))\<bar> \<le> 41 \<and>
     \<bar>expectedPosition s (srv (demo_told (4000, 1030))) - of_int (Expected (current demo_actor) 5000)\<bar> \<le> 12"
proof -
  have "in_range (current demo_actor) 5000" by code_simp
  with members_in_step [OF demo_actor_reachable demo_caught_up, of 5000 5 "demo_told (4000, 1030)" 15 "demo_told (3000, 2020)" demo_member demo_member]
    demo_tells
  obtain s t where "state (run (demo_es 1) demo_member) = Some s" "state (run (demo_es 2) demo_member) = Some t"
    "\<bar>expectedPosition s (srv (demo_told (4000, 1030))) - expectedPosition t (srv (demo_told (3000, 2020)))\<bar> \<le> 20001 / 10000 * (5 + 15)"
    "\<bar>expectedPosition s (srv (demo_told (4000, 1030))) - of_int (Expected (current demo_actor) 5000)\<bar> \<le> 20001 / 10000 * 5 + 1"
    by auto
  then show ?thesis by (intro exI [of _ s] exI [of _ t]) auto
qed

section \<open>From the host's click to everybody's player\<close>

lemma decode_position:
  assumes "- (2 ^ 63) \<le> n" and "n < 2 ^ 63"
  shows "decode_payload (position_of (Num (of_int n))) =
    Some \<lparr>p_PositionMs = n, p_PlaybackRate = 0, p_Paused = False, p_ReadyState = 0, p_TargetUserID = [], p_MediaID = [], p_DurationMs = 0\<rparr>"
  using assms by (simp add: decode_payload_def go_field_def position_of_def)

text \<open>What a click on play or pause makes of the state.\<close>

definition clicked :: "bool \<Rightarrow> int \<Rightarrow> int \<Rightarrow> ServerPlayback \<Rightarrow> ServerPlayback" where
  "clicked play n tm s =
     s\<lparr>Phase := (if play then Playing else Paused), AnchorPositionMs := n,
       AnchorServerTimeMs := (if play then tm + ScheduleLeadMs else tm), Revision := Revision s + 1\<rparr>"

lemma click_handled:
  assumes "id_id i = sr_HostUserID (ac_room a)" and "member_at (id_id i) a \<noteq> None"
    and "0 \<le> n" and "n < 2 ^ 63" and "DurationMs (current a) = 0 \<or> n \<le> DurationMs (current a) + 1000"
  shows "current (receive_msg e (Command_req i (if play then ''cmd.playback.play'' else ''cmd.playback.pause'') (position_of (Num (of_int n)))) a)
    = clicked play n (se_now e) (current a)"
proof -
  let ?t = "if play then ''cmd.playback.play'' else ''cmd.playback.pause''"
  let ?p = "\<lparr>p_PositionMs = n, p_PlaybackRate = 0, p_Paused = False, p_ReadyState = 0, p_TargetUserID = [], p_MediaID = [], p_DurationMs = 0\<rparr>"
  have "\<not> (p_PositionMs ?p < 0 \<or> DurationMs (current a) > 0 \<and> p_PositionMs ?p > DurationMs (current a) + 1000)"
    using assms(3,5) by auto
  then have sw: "playback_command (se_now e) ?t ?p a =
      (Inr True, next_revision (set_anchor n (if play then se_now e + ScheduleLeadMs else se_now e)
         (set_phase (if play then Playing else Paused) (resetHostDriftTracking a))))"
    by (cases play) (simp_all add: playback_command_def playback_switch_def Let_def)
  have "apply_command e i ?t (position_of (Num (of_int n))) a = command_playback e ?t ?p a"
  proof -
    obtain m where m: "member_at (id_id i) a = Some m" using assms(2) by blast
    have "decode_payload (position_of (Num (of_int n))) = Some ?p" by (rule decode_position) (use assms(3,4) in auto)
    then show ?thesis using assms(1) m by (cases play) (simp_all add: apply_command_def is_admin_command_def)
  qed
  then show ?thesis using sw by (cases play) (simp_all add: command_playback_def clicked_def)
qed

text \<open>
  C3. A click of the host reaches everybody: when the host presses play or pause, the command its controller sends
  is understood and accepted by the server, and every member that has caught up is in the state the host asked
  for: playing or paused, at the position the host's film had, from now or from the agreed start on.
\<close>

theorem host_click_reaches_all:
  assumes "actor_reachable a" and "\<not> ac_stopped a"
    and "id_id i = sr_HostUserID (ac_room a)" and "member_at (id_id i) a \<noteq> None"
    and "isHost c" and "video c = Some v" and "n = \<lfloor>v_currentTime v * 1000 + 1 / 2\<rfloor>"
    and "0 \<le> n" and "n < 2 ^ 63" and "DurationMs (current a) = 0 \<or> n \<le> DurationMs (current a) + 1000"
    and "t = (if play then ''cmd.playback.play'' else ''cmd.playback.pause'')" and "x = position_of (Num (of_int n))"
    and "caught_up (receive_msg e' (Command_req i t x) a) j es"
  shows "Send t x True \<in> set (log (step e (if play then UserPlay else UserPause) c)) \<and>
         state (run es d) = Some (published (clicked play n (se_now e') (current a)))"
proof
  have "current_ms v = Num (of_int n)" by (simp add: current_ms_def Math_round_def assms(7))
  then show "Send t x True \<in> set (log (step e (if play then UserPlay else UserPause) c))"
    using assms(5,6,11,12)
    by (cases play) (simp_all add: step_log_flags(1) onUserPlay_def onUserPause_def ws_send_def emit_def video_pause_def cancelScheduledPlay_def)
  have "actor_trans a (e', Command_req i t x) (receive_msg e' (Command_req i t x) a)"
    using assms(2) by (intro actor_trans) simp_all
  from follows [OF reachable_step [OF assms(1) this] assms(13)]
  show "state (run es d) = Some (published (clicked play n (se_now e') (current a)))"
    using click_handled [OF assms(3,4,8,9,10)] by (simp add: assms(11,12) del: receive_msg.simps)
qed

definition demo_paused :: "(env \<times> ctl_event) list" where
  "demo_paused =
     [(demo_env 100, SetRoomState (published (snd (hd (feed 2 demo_actor)))) True),
      (demo_env 900, SetRoomState (published (clicked False 10000 7000 (current demo_actor))) False)]"

theorem host_click_reaches_all_witness:
  "map_option phase (state (run demo_paused demo_member)) = Some Paused \<and>
   map_option anchorPositionMs (state (run demo_paused demo_member)) = Some 10000"
proof -
  let ?x = "position_of (Num (of_int 10000))"
  have a: "id_id (demo_person ''u'') = sr_HostUserID (ac_room demo_actor)" "member_at (id_id (demo_person ''u'')) demo_actor \<noteq> None"
    "\<not> ac_stopped demo_actor" "DurationMs (current demo_actor) = 0"
    "caught_up (receive_msg (calm 7000) (Command_req (demo_person ''u'') ''cmd.playback.pause'' ?x) demo_actor) ''v'' demo_paused"
    by code_simp+
  have "isHost demo_host" "map_option v_currentTime (video demo_host) = Some 10" by code_simp+
  moreover have "\<lfloor>20001 / 2 :: rat\<rfloor> = 10000" by (simp add: floor_eq_iff)
  ultimately obtain v where v: "isHost demo_host" "video demo_host = Some v" "10000 = \<lfloor>v_currentTime v * 1000 + 1 / 2\<rfloor>" by auto
  have "state (run demo_paused demo_member) = Some (published (clicked False 10000 (se_now (calm 7000)) (current demo_actor)))"
    using host_click_reaches_all [OF demo_actor_reachable a(3,1,2) v, of "''cmd.playback.pause''" False ?x "calm 7000" "''v''" demo_paused] a(4,5)
    by simp
  then show ?thesis by (simp add: published_def clicked_def)
qed

end
