(* ===== verification/RoomCommands.thy ===== *)
theory RoomCommands
  imports RoomNetwork
begin

text \<open>
  The commands of the players and the server that decodes them: what \<open>SyncController.ts\<close> sends, through
  \<open>JSON.stringify\<close>, is what \<open>actor.go\<close> can read into its structures.
\<close>

section \<open>On the wire\<close>

text \<open>\<open>JSON.stringify\<close> writes a number that is not finite as \<open>null\<close>.\<close>

fun on_wire :: "json \<Rightarrow> json" where
  "on_wire (JObj fs) = JObj (map (\<lambda>(k, x). (k, on_wire x)) fs)"
| "on_wire (JArr xs) = JArr (map on_wire xs)"
| "on_wire (JNum (Num x)) = JNum (Num x)"
| "on_wire (JNum y) = JNull"
| "on_wire x = x"

definition understood :: "string \<Rightarrow> json \<Rightarrow> bool" where
  "understood t p \<longleftrightarrow>
     (if t = ''client.ready'' then decode_ready (on_wire p) \<noteq> None else decode_payload (on_wire p) \<noteq> None)"

text \<open>Numbers fit into 64 bits, and the size of a picture is a whole number, as the runtime gives it.\<close>

fun plain :: "json \<Rightarrow> bool" where
  "plain (JObj fs) = list_all (\<lambda>(k, x). case x of
     JNum (Num a) \<Rightarrow> \<bar>a\<bar> < 2 ^ 63 \<and> (k \<in> {''videoWidth'', ''videoHeight''} \<longrightarrow> a = of_int \<lfloor>a\<rfloor>) | _ \<Rightarrow> True) fs"
| "plain x = True"

fun sensible :: "effect \<Rightarrow> bool" where
  "sensible (Send t p a) = (plain p \<longrightarrow> understood t p)"
| "sensible x = True"

lemma int_wire: "\<bar>a :: rat\<bar> < 2 ^ 63 \<Longrightarrow> a = of_int \<lfloor>a\<rfloor> \<Longrightarrow> go_int (JNum (Num a)) = Some \<lfloor>a\<rfloor>"
proof -
  assume a: "\<bar>a\<bar> < 2 ^ 63" "a = of_int \<lfloor>a\<rfloor>"
  then have "\<bar>of_int \<lfloor>a\<rfloor> :: rat\<bar> < of_int (2 ^ 63)" by simp
  then have "\<bar>\<lfloor>a\<rfloor>\<bar> < 2 ^ 63" by (simp only: of_int_abs [symmetric] of_int_less_iff)
  then show ?thesis using a(2) by auto
qed

lemma round_whole: "Math_round x = of_int \<lfloor>Math_round x\<rfloor>"
  by (simp add: Math_round_def)

lemma wire_round:
  assumes "case js_round x of Num a \<Rightarrow> \<bar>a\<bar> < 2 ^ 63 | _ \<Rightarrow> True"
  shows "(case on_wire (JNum (js_round x)) of JNull \<Rightarrow> Some 0 | y \<Rightarrow> go_int y) \<noteq> None"
  using assms int_wire [OF _ round_whole] by (cases x) simp_all

lemma wire_whole:
  assumes "\<bar>a :: rat\<bar> < 2 ^ 63" and "a = of_int \<lfloor>a\<rfloor>"
  shows "go_int (on_wire (JNum (Num a))) \<noteq> None"
  using int_wire [OF assms] by simp

lemma harmless_sensible: "harmless sensible"
  by (simp add: harmless_def)

lemma sensible_position: "t \<noteq> ''client.ready'' \<Longrightarrow> sensible (Send t (position_of (js_round x)) a)"
  using wire_round [of x]
  by (cases x) (auto simp: understood_def position_of_def decode_payload_def go_field_def)

lemma current_round: "current_ms v = js_round (Num (v_currentTime v * 1000))"
  by (simp add: current_ms_def)

lemma sensible_telemetry:
  "t \<noteq> ''client.ready'' \<Longrightarrow> sensible (Send t (JObj [(''positionMs'', JNum (js_round x)), (''buffering'', JBool b)]) a)"
  "t \<noteq> ''client.ready'' \<Longrightarrow> sensible (Send t (JObj [(''positionMs'', JNum (js_round x)), (''paused'', JBool b),
     (''readyState'', JNum (Num (of_nat n)))]) a)"
  "t \<noteq> ''client.ready'' \<Longrightarrow> sensible (Send t (JObj [(''playbackRate'', JNum (Num r)), (''positionMs'', JNum (js_round x))]) a)"
  using wire_round [of x] wire_whole [of "of_nat n"]
  by (cases x; auto simp: understood_def decode_payload_def go_field_def; fail)+

lemma sensible_ready:
  "sensible (Send ''client.ready'' (JObj [(''mediaId'', JStr m), (''ready'', JBool True), (''durationMs'', JNum (js_round x)),
     (''videoWidth'', JNum (Num w)), (''videoHeight'', JNum (Num h))]) a)"
  using wire_round [of x] wire_whole [of w] wire_whole [of h]
  by (cases x) (auto simp: understood_def decode_ready_def go_field_def)

lemmas sensible_rules = harmless_sensible sensible_position sensible_telemetry sensible_ready

section \<open>Every operation sends sensible commands\<close>

lemma sensible_current [simp]:
  "t \<noteq> ''client.ready'' \<Longrightarrow> sensible (Send t (position_of (current_ms v)) a)"
  "t \<noteq> ''client.ready'' \<Longrightarrow> sensible (Send t (JObj [(''positionMs'', JNum (current_ms v)), (''buffering'', JBool b)]) a)"
  "t \<noteq> ''client.ready'' \<Longrightarrow> sensible (Send t (JObj [(''positionMs'', JNum (current_ms v)), (''paused'', JBool b),
     (''readyState'', JNum (Num (of_nat n)))]) a)"
  unfolding current_round by (simp_all only: sensible_position sensible_telemetry not_False_eq_True)

declare sensible.simps(1) [simp del]

lemma sensible_rate [simp]:
  "t \<noteq> ''client.ready'' \<Longrightarrow> sensible (Send t (JObj [(''playbackRate'', JNum (Num r)),
     (''positionMs'', JNum (case ov of None \<Rightarrow> Num (Math_round 0) | Some v \<Rightarrow> current_ms v))]) a)"
proof (cases ov)
  case None
  then show "t \<noteq> ''client.ready'' \<Longrightarrow> ?thesis" using sensible_telemetry(3) [of t r "Num 0" a] by simp
next
  case (Some v)
  then show "t \<noteq> ''client.ready'' \<Longrightarrow> ?thesis" by (simp only: option.case current_round sensible_telemetry not_False_eq_True)
qed

lemma sensible_work:
  assumes "logs sensible c"
  shows "logs sensible (attach e v c)" "logs sensible (setRoomState e st f c)" "logs sensible (setHost e b c)"
    "logs sensible (onUserPlay c)" "logs sensible (onUserPause c)" "logs sensible (onUserSeek e ms c)"
    "logs sensible (onUserRateChange r c)" "logs sensible (resumeLocal c)" "logs sensible (realign e c)"
    "logs sensible (suspend c)" "logs sensible (destroy c)" "logs sensible (heartbeat c)" "logs sensible (waiting e c)"
    "logs sensible (retrySeek e c)" "logs sensible (loadedMetadata e c)" "logs sensible (ended c)" "logs sensible (nativePause c)"
    "logs sensible (tick e c)" "logs sensible (play_fires c)" "logs sensible (bufferConfirm_fires e c)"
    "logs sensible (recovery_fires e c)" "logs sensible (canPlay e c)"
proof -
  have tick: "logs sensible (tick e c) = logs sensible c" for c by (rule logs_tick) (simp_all add: harmless_sensible)
  note rules = log_simps logs_apply [OF harmless_sensible] logs_seek logs_apply_parts [OF harmless_sensible] sensible_position sensible_ready tick
  show "logs sensible (attach e v c)" "logs sensible (setRoomState e st f c)" "logs sensible (setHost e b c)"
    "logs sensible (onUserPlay c)" "logs sensible (onUserPause c)" "logs sensible (onUserSeek e ms c)"
    "logs sensible (onUserRateChange r c)" "logs sensible (resumeLocal c)" "logs sensible (realign e c)"
    "logs sensible (suspend c)" "logs sensible (destroy c)" "logs sensible (heartbeat c)" "logs sensible (waiting e c)"
    "logs sensible (retrySeek e c)" "logs sensible (loadedMetadata e c)" "logs sensible (ended c)" "logs sensible (nativePause c)"
    "logs sensible (tick e c)" "logs sensible (play_fires c)"
    using assms
    by (simp_all add: attach_def setRoomState_def setHost_def onUserPlay_def onUserPause_def onUserSeek_def onUserRateChange_def
        resumeLocal_def realign_def suspend_def destroy_def waiting_def loadedMetadata_def ended_def nativePause_def play_fires_def
        Let_def rules split: option.split prod.split)
  show "logs sensible (bufferConfirm_fires e c)" "logs sensible (recovery_fires e c)" "logs sensible (canPlay e c)"
    using assms by (simp_all add: bufferConfirm_fires_def recovery_fires_def canPlay_def Let_def rules split: option.split prod.split)
qed

lemma sensible_dispatch: "logs sensible c \<Longrightarrow> logs sensible (dispatch e t c)"
proof -
  have l: "logs sensible c \<Longrightarrow> logs sensible (run_listener e l c)" for l c by (cases l) (simp_all add: sensible_work)
  have "logs sensible c \<Longrightarrow> logs sensible (fold (run_listener e) ls c)" for ls c by (induction ls arbitrary: c) (simp_all add: l)
  then show "logs sensible c \<Longrightarrow> logs sensible (dispatch e t c)" by (simp add: dispatch_def split: option.split)
qed

lemma sensible_handle: "logs sensible c \<Longrightarrow> logs sensible (handle e ev c)"
proof -
  assume c: "logs sensible c"
  have t: "logs sensible c \<Longrightarrow> logs sensible (run_timer e k c)" for k c by (cases k) (simp_all add: sensible_work)
  have s: "logs sensible c \<Longrightarrow> logs sensible (settle p b c)" for p b c by (cases "(p, b, c)" rule: settle.cases) (simp_all add: log_simps)
  show ?thesis using c
    by (cases ev) (simp_all add: sensible_work sensible_dispatch t s log_simps split: option.split)
qed

text \<open>
  C4. The server understands every command of a player: whatever happens to a controller, the payload of each
  command it sends, as it goes over the wire, is decoded by the server: positions and durations are whole
  numbers or missing, although the browser's are fractions, infinite or not a number. Numbers are taken to fit
  into 64 bits, and the size of a picture to be whole.
\<close>

theorem commands_understood:
  assumes "Send t p ack \<in> set (log (step e ev c))" and "plain p"
  shows "if t = ''client.ready'' then decode_ready (on_wire p) \<noteq> None else decode_payload (on_wire p) \<noteq> None"
proof -
  have "logs sensible (c\<lparr>log := []\<rparr>)" by (simp add: log_simps)
  then have "logs sensible (handle e ev (c\<lparr>log := []\<rparr>))" by (rule sensible_handle)
  then have "sensible (Send t p ack)" using assms(1) by (simp add: step_log_flags(1) logs_def list_all_iff)
  then show ?thesis using assms(2) by (simp add: sensible.simps understood_def)
qed

theorem commands_understood_witness:
  "\<exists>t p. Send t p True \<in> set (log (step (demo_env 5) (UserSeek (Num (40123 / 7))) demo_host)) \<and> decode_payload (on_wire p) \<noteq> None"
proof -
  let ?t = "''cmd.playback.seek''" and ?p = "position_of (Num 5732)"
  have "list_ex (\<lambda>x. x = Send ?t ?p True) (log (step (demo_env 5) (UserSeek (Num (40123 / 7))) demo_host))" by code_simp
  then have s: "Send ?t ?p True \<in> set (log (step (demo_env 5) (UserSeek (Num (40123 / 7))) demo_host))" by (simp add: list_ex_iff)
  have "plain ?p" by (simp add: position_of_def)
  from commands_understood [OF s this] s show ?thesis by auto
qed

end
