(* ===== verification/MediaTicket.thy ===== *)
theory MediaTicket
  imports Types
begin

text \<open>
  The source of the video element: the effect of \<open>web/src/pages/RoomPage.tsx\<close> that fetches a signed URL
  for the room's medium and renews it before it expires, the answer to a failing element, and the
  description of the medium shown beside it.

  Every run of the effect is an instance with a number; the \<open>stopped\<close> flag of its closure is up as soon
  as a later instance exists. \<open>tk_asked\<close> are the ticket requests under way (instance, and whether the
  answer is to be played at once), \<open>tk_described\<close> counts the requests for the description. The record
  is extended by the rest of the page's state.
\<close>

record Ticket =
  src :: "string option"
  pendingSrc :: "string option"
  ticketNonce :: nat
  pg_media :: "Media option"
  pg_error :: page_error
  tk_mediaId :: "string option"
  tk_identity :: bool
  tk_instance :: nat
  tk_timer :: "rat option"
  tk_asked :: "(nat \<times> bool) list"
  tk_described :: nat

definition newTicket :: Ticket where
  "newTicket = \<lparr>src = None, pendingSrc = None, ticketNonce = 0, pg_media = None, pg_error = No_error,
     tk_mediaId = None, tk_identity = False, tk_instance = 0, tk_timer = None, tk_asked = [], tk_described = 0\<rparr>"

text \<open>\<open>!mediaId || !identity\<close>, negated: there is something to play and somebody to play it to.\<close>

definition wanted :: "string option \<Rightarrow> bool \<Rightarrow> bool" where
  "wanted mediaId identity \<longleftrightarrow> mediaId \<noteq> None \<and> mediaId \<noteq> Some [] \<and> identity"

text \<open>The effect runs (again), with the medium and the presence of an identity of its render: the
  cleanup of the old instance, then the body.\<close>

definition ticket_effect :: "string option \<Rightarrow> bool \<Rightarrow> 'a Ticket_scheme \<Rightarrow> 'a Ticket_scheme" where
  "ticket_effect mediaId identity k =
     (let k1 = k\<lparr>tk_mediaId := mediaId, tk_identity := identity, tk_instance := Suc (tk_instance k), tk_timer := None\<rparr>
      in if \<not> wanted mediaId identity then k1\<lparr>src := None, pendingSrc := None\<rparr>
         else
           let k2 = k1\<lparr>tk_asked := tk_asked k1 @ [(tk_instance k1, True)]\<rparr>
           in if map_option md_id (pg_media k2) \<noteq> mediaId then k2\<lparr>tk_described := Suc (tk_described k2)\<rparr> else k2)"

text \<open>The answer to a ticket request: an error, or the URL and the time it expires.\<close>

definition ticket_answer ::
  "rat \<Rightarrow> rat \<Rightarrow> nat \<Rightarrow> bool \<Rightarrow> string + string \<times> rat \<Rightarrow> 'a Ticket_scheme \<Rightarrow> 'a Ticket_scheme" where
  "ticket_answer now dateNow i activate answer k =
     (if (i, activate) \<notin> set (tk_asked k) then k
      else
        let k0 = k\<lparr>tk_asked := remove1 (i, activate) (tk_asked k)\<rparr> in
        case answer of
          Inl msg \<Rightarrow> if activate \<and> i = tk_instance k0 then k0\<lparr>pg_error := Error_text msg\<rparr> else k0
        | Inr (url, expires) \<Rightarrow>
            if i \<noteq> tk_instance k0 then k0
            else
              let k1 = (if activate then k0\<lparr>src := Some url, pendingSrc := None\<rparr>
                        else k0\<lparr>pendingSrc := Some url\<rparr>)
              in k1\<lparr>tk_timer := Some (now + max 1000 (expires - dateNow - 30 * 60000))\<rparr>)"

definition ticket_timer :: "rat \<Rightarrow> 'a Ticket_scheme \<Rightarrow> 'a Ticket_scheme" where
  "ticket_timer now k =
     (case tk_timer k of
        None \<Rightarrow> k
      | Some d \<Rightarrow> if now < d then k
                  else k\<lparr>tk_timer := None, tk_asked := tk_asked k @ [(tk_instance k, False)]\<rparr>)"

text \<open>The answer to a request for the description: \<open>None\<close> if it failed.\<close>

definition described :: "Media option option \<Rightarrow> 'a Ticket_scheme \<Rightarrow> 'a Ticket_scheme" where
  "described answer k =
     (if tk_described k = 0 then k
      else
        let k1 = k\<lparr>tk_described := tk_described k - 1\<rparr>
        in case answer of None \<Rightarrow> k1 | Some m \<Rightarrow> k1\<lparr>pg_media := m\<rparr>)"

text \<open>\<open>onMediaError\<close>: play the renewed URL if there is one, otherwise run the effect again (its other
  dependencies are unchanged).\<close>

definition onMediaError :: "'a Ticket_scheme \<Rightarrow> 'a Ticket_scheme" where
  "onMediaError k =
     (if pendingSrc k \<noteq> None \<and> pendingSrc k \<noteq> Some []
      then k\<lparr>src := pendingSrc k, pendingSrc := None\<rparr>
      else ticket_effect (tk_mediaId k) (tk_identity k) (k\<lparr>ticketNonce := Suc (ticketNonce k)\<rparr>))"

datatype ticket_event =
    Effect "string option" bool
  | Answer rat rat nat bool "string + string \<times> rat"
  | Timer rat
  | Described "Media option option"
  | Media_error

fun ticket_step :: "ticket_event \<Rightarrow> 'a Ticket_scheme \<Rightarrow> 'a Ticket_scheme" where
  "ticket_step (Effect m b) k = ticket_effect m b k"
| "ticket_step (Answer n d i a r) k = ticket_answer n d i a r k"
| "ticket_step (Timer n) k = ticket_timer n k"
| "ticket_step (Described a) k = described a k"
| "ticket_step Media_error k = onMediaError k"

section \<open>What is played\<close>

text \<open>
  A renewal never restarts the film: the URL that is played changes only when the effect finds
  nothing to play (and then to none), when the first answer of the current instance arrives, or when
  the element failed and a renewed URL was waiting. No timer, no renewal and no late answer of an old
  instance does it.
\<close>

theorem src_change_causes:
  assumes "src (ticket_step ev k) \<noteq> src k"
  shows "(\<exists>m b. ev = Effect m b \<and> \<not> wanted m b) \<and> src (ticket_step ev k) = None \<or>
         (\<exists>n d u x. ev = Answer n d (tk_instance k) True (Inr (u, x)) \<and> src (ticket_step ev k) = Some u) \<or>
         ev = Media_error \<and> (src (ticket_step ev k) = pendingSrc k \<or> \<not> wanted (tk_mediaId k) (tk_identity k))"
proof (cases ev)
  case (Answer n d i a r)
  with assms show ?thesis by (auto simp: ticket_answer_def Let_def split: if_splits sum.splits)
qed (use assms in \<open>auto simp: ticket_effect_def ticket_timer_def described_def onMediaError_def Let_def
        split: option.splits if_splits\<close>)

theorem src_change_causes_witness:
  "src (ticket_step (Answer 0 0 1 True (Inr (''u'', 9000000))) (ticket_step (Effect (Some ''m'') True) newTicket)) = Some ''u''"
proof -
  let ?k = "ticket_step (Effect (Some ''m'') True) newTicket" and ?ev = "Answer 0 0 1 True (Inr (''u'', 9000000))"
  have "src (ticket_step ?ev ?k) \<noteq> src ?k" by code_simp
  from src_change_causes [OF this] show ?thesis by auto
qed

text \<open>
  The renewal is asked for in time: after a successful answer of the current instance exactly one
  renewal is scheduled, half an hour before the ticket expires (but at least a second later), and it
  asks on behalf of the instance that is still current.
\<close>

theorem renewal_scheduled:
  assumes "(tk_instance k, a) \<in> set (tk_asked k)"
  shows "let k' = ticket_step (Answer n d (tk_instance k) a (Inr (u, x))) k; due = n + max 1000 (x - d - 1800000) in
     tk_timer k' = Some due \<and>
     (\<forall>t. ticket_step (Timer t) k' =
        (if t < due then k' else k'\<lparr>tk_timer := None, tk_asked := tk_asked k' @ [(tk_instance k, False)]\<rparr>))"
  using assms by (simp add: ticket_answer_def ticket_timer_def Let_def)

theorem renewal_scheduled_witness:
  "tk_timer (ticket_step (Answer 10 500 1 True (Inr (''u'', 7200500))) (ticket_step (Effect (Some ''m'') True) newTicket))
     = Some 5400010"
proof -
  let ?k = "ticket_step (Effect (Some ''m'') True) newTicket"
  have "(tk_instance ?k, True) \<in> set (tk_asked ?k)" "tk_instance ?k = 1" by code_simp+
  with renewal_scheduled [of ?k True 10 500 "''u''" 7200500] show ?thesis
    by (simp add: Let_def del: ticket_step.simps)
qed

end
