(* ===== verification/WebSocketClient.thy ===== *)
theory WebSocketClient
  imports Timers PlaybackModel ClockSynchronizer
begin

text \<open>
  The realtime connection, \<open>web/src/realtime/WebSocketClient.ts\<close>: one socket at a time with
  reconnection and back-off, commands that wait for their acknowledgement, and the pings of the
  clock. The record holds the object's fields, the sockets it created with their ready states, its
  timers and the history of what it did.

  What the source takes from outside is in the environment of each handler: the two clocks, the
  random numbers of \<open>crypto.randomUUID\<close> and \<open>Math.random\<close>, the JSON parser, and which listener
  throws on which message. A promise is named by the request identifier it was created for. The
  callbacks \<open>onStatus\<close> and the listeners are entries of the history; a call they make back into the
  client is a later event.
\<close>

section \<open>State\<close>

datatype ConnectionStatus = Connecting | Connected | Disconnected | Superseded | Closed_room
  | Unauthorized | Forbidden | Full

definition CONNECTION_SUPERSEDED :: int where "CONNECTION_SUPERSEDED = 4001"
definition STABLE_CONNECTION_MS :: rat where "STABLE_CONNECTION_MS = 10000"

datatype readyState = CONNECTING | OPEN | CLOSING | CLOSED

datatype ws_timer = ReconnectT | StableT nat | ResyncT | AckT string | PingT

datatype reject_reason = Connection_lost | Disconnected_reason | Timed_out | Command_rejected | Server_message json

datatype ws_effect =
    OnStatus ConnectionStatus
  | Opened nat
  | SocketClose nat "(int \<times> string) option"
  | SocketSend nat string string json
  | Deliver nat Envelope
  | Awaiting string
  | Resolve string
  | Reject string reject_reason

record WS =
  ws_socket :: "nat option"
  ws_reconnectTimer :: "nat option"
  ws_stableTimer :: "nat option"
  ws_resyncTimer :: "nat option"
  ws_attempts :: nat
  ws_stopped :: bool
  ws_listeners :: "nat list"
  ws_pending :: "(string \<times> nat) list"
  ws_clock :: Clock
  ws_sockets :: "(nat \<times> readyState) list"
  ws_timers :: "ws_timer timers"
  ws_log :: "ws_effect list"

record ws_env =
  monoNow :: rat
  dateNow :: rat
  uuid :: string
  random :: rat
  parse :: "string \<Rightarrow> json option"
  throws :: "nat \<Rightarrow> Envelope \<Rightarrow> bool"

definition newWS :: "rat \<Rightarrow> rat \<Rightarrow> WS" where
  "newWS dnow mnow =
     \<lparr>ws_socket = None, ws_reconnectTimer = None, ws_stableTimer = None, ws_resyncTimer = None,
      ws_attempts = 0, ws_stopped = True, ws_listeners = [], ws_pending = [], ws_clock = newClock dnow mnow,
      ws_sockets = [], ws_timers = noTimers, ws_log = []\<rparr>"

section \<open>Effects and sockets\<close>

definition tell :: "ws_effect \<Rightarrow> WS \<Rightarrow> WS" where
  "tell x w = w\<lparr>ws_log := ws_log w @ [x]\<rparr>"

definition ready :: "nat \<Rightarrow> WS \<Rightarrow> readyState" where
  "ready s w = (case map_of (ws_sockets w) s of None \<Rightarrow> CLOSED | Some r \<Rightarrow> r)"

definition set_ready :: "nat \<Rightarrow> readyState \<Rightarrow> WS \<Rightarrow> WS" where
  "set_ready s r w = w\<lparr>ws_sockets := AList.update s r (ws_sockets w)\<rparr>"

text \<open>\<open>WebSocket.close\<close>: the ready state becomes CLOSING unless it already is, or is CLOSED.\<close>

definition close_socket :: "nat \<Rightarrow> (int \<times> string) option \<Rightarrow> WS \<Rightarrow> WS" where
  "close_socket s args w =
     tell (SocketClose s args)
       (if ready s w \<in> {CONNECTING, OPEN} then set_ready s CLOSING w else w)"

section \<open>Operations\<close>

definition clearConnectionTimers :: "WS \<Rightarrow> WS" where
  "clearConnectionTimers w =
     w\<lparr>ws_timers := clearField (ws_stableTimer w) (clearField (ws_resyncTimer w) (ws_timers w)),
       ws_resyncTimer := None, ws_stableTimer := None\<rparr>"

definition clearTimers :: "WS \<Rightarrow> WS" where
  "clearTimers w =
     clearConnectionTimers
       (w\<lparr>ws_timers := clearField (ws_reconnectTimer w) (ws_timers w), ws_reconnectTimer := None\<rparr>)"

fun reject_all :: "reject_reason \<Rightarrow> (string \<times> nat) list \<Rightarrow> WS \<Rightarrow> WS" where
  "reject_all r [] w = w"
| "reject_all r ((i, h) # ps) w =
     reject_all r ps (tell (Reject i r) (w\<lparr>ws_timers := clearTimer h (ws_timers w)\<rparr>))"

definition rejectPending :: "reject_reason \<Rightarrow> WS \<Rightarrow> WS" where
  "rejectPending r w = (reject_all r (ws_pending w) w)\<lparr>ws_pending := []\<rparr>"

datatype send_result = Unavailable | Resolved | Waits string

definition send :: "ws_env \<Rightarrow> string \<Rightarrow> json \<Rightarrow> bool \<Rightarrow> WS \<Rightarrow> send_result \<times> WS" where
  "send e t p ack w =
     (case ws_socket w of
        None \<Rightarrow> (Unavailable, w)
      | Some s \<Rightarrow>
          if ready s w \<noteq> OPEN then (Unavailable, w)
          else
            let w1 = tell (SocketSend s t (uuid e) p) w in
            if \<not> ack then (Resolved, w1)
            else
              let (h, ts) = setTimeout (AckT (uuid e)) (monoNow e) 6000 (ws_timers w1)
              in (Waits (uuid e),
                  tell (Awaiting (uuid e))
                    (w1\<lparr>ws_timers := ts, ws_pending := AList.update (uuid e) h (ws_pending w1)\<rparr>)))"

text \<open>The callback of an acknowledgement's timeout.\<close>

definition ack_timeout :: "string \<Rightarrow> WS \<Rightarrow> WS" where
  "ack_timeout i w = tell (Reject i Timed_out) (w\<lparr>ws_pending := AList.delete i (ws_pending w)\<rparr>)"

text \<open>The callback of one of the five pings: the payload is evaluated, and so registered with the
  clock, before \<open>send\<close> finds out whether there is a connection.\<close>

definition ping_fires :: "ws_env \<Rightarrow> WS \<Rightarrow> WS" where
  "ping_fires e w =
     (let (t, ck) = pingPayload (monoNow e) (ws_clock w)
      in snd (send e ''clock.ping'' (JObj [(''clientMonoMs'', JNum (Num t))]) False (w\<lparr>ws_clock := ck\<rparr>)))"

definition sampleClock :: "ws_env \<Rightarrow> WS \<Rightarrow> WS" where
  "sampleClock e w =
     w\<lparr>ws_timers := fold (\<lambda>i ts. snd (setTimeout PingT (monoNow e) (of_nat i * 120) ts)) [0..<5] (ws_timers w)\<rparr>"

definition open_socket :: "WS \<Rightarrow> WS" where
  "open_socket w =
     (if ws_stopped w then w
      else
        let w1 = (case ws_reconnectTimer w of
                    None \<Rightarrow> w
                  | Some h \<Rightarrow> w\<lparr>ws_timers := clearTimer h (ws_timers w), ws_reconnectTimer := None\<rparr>);
            w2 = tell (OnStatus Connecting) w1;
            s = length (ws_sockets w2)
        in tell (Opened s) (w2\<lparr>ws_sockets := ws_sockets w2 @ [(s, CONNECTING)], ws_socket := Some s\<rparr>))"

definition connect :: "WS \<Rightarrow> WS" where
  "connect w = (if \<not> ws_stopped w then w else open_socket (w\<lparr>ws_stopped := False\<rparr>))"

definition disconnect :: "WS \<Rightarrow> WS" where
  "disconnect w =
     (let w1 = clearTimers (w\<lparr>ws_stopped := True\<rparr>);
          w2 = w1\<lparr>ws_socket := None\<rparr>;
          w3 = (case ws_socket w1 of None \<Rightarrow> w2 | Some s \<Rightarrow> close_socket s (Some (1000, ''leaving room'')) w2)
      in rejectPending Disconnected_reason w3)"

definition subscribe :: "nat \<Rightarrow> WS \<Rightarrow> WS" where
  "subscribe l w = (if l \<in> set (ws_listeners w) then w else w\<lparr>ws_listeners := ws_listeners w @ [l]\<rparr>)"

definition unsubscribe :: "nat \<Rightarrow> WS \<Rightarrow> WS" where
  "unsubscribe l w = w\<lparr>ws_listeners := filter (\<lambda>x. x \<noteq> l) (ws_listeners w)\<rparr>"

text \<open>The handlers that \<open>open\<close> installs on socket \<open>s\<close>.\<close>

definition onopen :: "ws_env \<Rightarrow> nat \<Rightarrow> WS \<Rightarrow> WS" where
  "onopen e s w =
     (if ws_socket w \<noteq> Some s \<or> ws_stopped w then w
      else
        let w1 = tell (OnStatus Connected) w;
            w2 = sampleClock e (w1\<lparr>ws_clock := resetClock (dateNow e) (monoNow e) (ws_clock w1)\<rparr>);
            (h1, ts1) = setInterval ResyncT (monoNow e) 30000 (clearField (ws_resyncTimer w2) (ws_timers w2));
            (h2, ts2) = setTimeout (StableT s) (monoNow e) STABLE_CONNECTION_MS ts1
        in w2\<lparr>ws_resyncTimer := Some h1, ws_stableTimer := Some h2, ws_timers := ts2\<rparr>)"

definition stable_fires :: "nat \<Rightarrow> WS \<Rightarrow> WS" where
  "stable_fires s w =
     (if ws_socket w = Some s \<and> ready s w = OPEN then w\<lparr>ws_attempts := 0\<rparr> else w)"

definition terminal_status :: "int \<Rightarrow> string \<Rightarrow> ConnectionStatus option" where
  "terminal_status code reason =
     (if code = CONNECTION_SUPERSEDED \<or> reason = ''replaced by reconnect'' then Some Superseded
      else if reason = ''ROOM_CLOSED'' \<or> reason = ''room closed'' then Some Closed_room
      else if reason = ''FORBIDDEN'' \<or> reason = ''removed from room'' then Some Forbidden
      else if reason = ''session revoked'' \<or> reason = ''session expired'' then Some Unauthorized
      else if reason = ''ROOM_FULL'' then Some Full
      else None)"

definition lost :: "ws_env \<Rightarrow> int \<Rightarrow> string \<Rightarrow> WS \<Rightarrow> WS" where
  "lost e code reason w =
     (if ws_stopped w then w
      else
        let w1 = rejectPending Connection_lost (clearConnectionTimers w) in
        case terminal_status code reason of
          Some st \<Rightarrow> tell (OnStatus st) (w1\<lparr>ws_stopped := True\<rparr>)
        | None \<Rightarrow>
            let w2 = tell (OnStatus Disconnected) w1;
                base = min 10000 (1000 * 2 ^ ws_attempts w2);
                w3 = w2\<lparr>ws_attempts := Suc (ws_attempts w2)\<rparr>;
                (h, ts) = setTimeout ReconnectT (monoNow e) (base * (8 / 10 + random e * (4 / 10))) (ws_timers w3)
            in w3\<lparr>ws_reconnectTimer := Some h, ws_timers := ts\<rparr>)"

definition onclose :: "ws_env \<Rightarrow> nat \<Rightarrow> int \<Rightarrow> string \<Rightarrow> WS \<Rightarrow> WS" where
  "onclose e s code reason w =
     (if ws_socket w \<noteq> Some s then w else lost e code reason (w\<lparr>ws_socket := None\<rparr>))"

definition onerror :: "nat \<Rightarrow> WS \<Rightarrow> WS" where
  "onerror s w = (if ws_socket w = Some s then close_socket s None w else w)"

text \<open>
  The payload of a pong: reading a property of \<open>undefined\<close> or \<open>null\<close> throws (\<^term>\<open>None\<close>), and
  an absent property is no number.
\<close>

definition pong_of :: "json option \<Rightarrow> Pong option" where
  "pong_of p =
     (case p of
        None \<Rightarrow> None
      | Some JNull \<Rightarrow> None
      | Some j \<Rightarrow> Some \<lparr>clientMonoMs = jnum (jget ''clientMonoMs'' j),
                        serverRecvUnixMs = jnum (jget ''serverRecvUnixMs'' j),
                        serverSendUnixMs = jnum (jget ''serverSendUnixMs'' j)\<rparr>)"

text \<open>The loop over the listeners ends at the first one that throws (False).\<close>

fun deliver :: "ws_env \<Rightarrow> Envelope \<Rightarrow> nat list \<Rightarrow> WS \<Rightarrow> bool \<times> WS" where
  "deliver e m [] w = (True, w)"
| "deliver e m (l # ls) w =
     (if throws e l m then (False, tell (Deliver l m) w) else deliver e m ls (tell (Deliver l m) w))"

definition reject_message :: "json option \<Rightarrow> reject_reason" where
  "reject_message p =
     (case p of
        None \<Rightarrow> Command_rejected
      | Some j \<Rightarrow>
          (case jget ''message'' j of
             None \<Rightarrow> Command_rejected
           | Some JNull \<Rightarrow> Command_rejected
           | Some m \<Rightarrow> Server_message m))"

definition settle_request :: "Envelope \<Rightarrow> WS \<Rightarrow> WS" where
  "settle_request m w =
     (case requestId m of
        Some (JStr i) \<Rightarrow>
          if i \<noteq> '''' \<and> (type m = ''ack'' \<or> type m = ''error'')
          then (case map_of (ws_pending w) i of
                  None \<Rightarrow> w
                | Some h \<Rightarrow>
                    tell (if type m = ''ack'' then Resolve i else Reject i (reject_message (payload m)))
                      (w\<lparr>ws_timers := clearTimer h (ws_timers w),
                         ws_pending := AList.delete i (ws_pending w)\<rparr>))
          else w
      | _ \<Rightarrow> w)"

definition receive :: "ws_env \<Rightarrow> string \<Rightarrow> WS \<Rightarrow> WS" where
  "receive e raw w =
     (case parseEnvelope (parse e) raw of
        Inl err \<Rightarrow> w
      | Inr m \<Rightarrow>
          (case (if type m = ''clock.pong''
                 then map_option (\<lambda>p. w\<lparr>ws_clock := acceptPong (monoNow e) p (ws_clock w)\<rparr>) (pong_of (payload m))
                 else Some w) of
             None \<Rightarrow> w
           | Some w1 \<Rightarrow>
               let (ok, w2) = deliver e m (ws_listeners w1) w1
               in if ok then settle_request m w2 else w2))"

definition onmessage :: "ws_env \<Rightarrow> nat \<Rightarrow> string \<Rightarrow> WS \<Rightarrow> WS" where
  "onmessage e s raw w = (if ws_socket w = Some s \<and> \<not> ws_stopped w then receive e raw w else w)"

section \<open>The event loop\<close>

fun ws_run_timer :: "ws_env \<Rightarrow> ws_timer \<Rightarrow> WS \<Rightarrow> WS" where
  "ws_run_timer e ReconnectT w = open_socket w"
| "ws_run_timer e (StableT s) w = stable_fires s w"
| "ws_run_timer e ResyncT w = sampleClock e w"
| "ws_run_timer e (AckT i) w = ack_timeout i w"
| "ws_run_timer e PingT w = ping_fires e w"

datatype ws_event =
    Connect
  | Disconnect
  | Subscribe nat
  | Unsubscribe nat
  | SendCmd string json bool
  | NetOpen nat
  | NetMessage nat string
  | NetClose nat int string
  | NetError nat
  | WsTimer nat

text \<open>The network opens a connecting socket, delivers messages to an open one and closes each once.\<close>

fun ws_handle :: "ws_env \<Rightarrow> ws_event \<Rightarrow> WS \<Rightarrow> WS" where
  "ws_handle e Connect w = connect w"
| "ws_handle e Disconnect w = disconnect w"
| "ws_handle e (Subscribe l) w = subscribe l w"
| "ws_handle e (Unsubscribe l) w = unsubscribe l w"
| "ws_handle e (SendCmd t p a) w = snd (send e t p a w)"
| "ws_handle e (NetOpen s) w =
     (if ready s w = CONNECTING then onopen e s (set_ready s OPEN w) else w)"
| "ws_handle e (NetMessage s raw) w = (if ready s w = OPEN then onmessage e s raw w else w)"
| "ws_handle e (NetClose s code reason) w =
     (if ready s w \<noteq> CLOSED then onclose e s code reason (set_ready s CLOSED w) else w)"
| "ws_handle e (NetError s) w = onerror s w"
| "ws_handle e (WsTimer h) w =
     (case expire h (monoNow e) (ws_timers w) of
        None \<Rightarrow> w
      | Some (k, ts) \<Rightarrow> ws_run_timer e k (w\<lparr>ws_timers := ts\<rparr>))"

text \<open>\<open>crypto.randomUUID\<close> does not repeat itself: the identifier of a handler is one no promise
  was created for before.\<close>

definition fresh_uuid :: "ws_env \<Rightarrow> WS \<Rightarrow> bool" where
  "fresh_uuid e w \<longleftrightarrow> uuid e \<noteq> '''' \<and> Awaiting (uuid e) \<notin> set (ws_log w)"

inductive ws_step :: "WS \<Rightarrow> ws_env \<times> ws_event \<Rightarrow> WS \<Rightarrow> bool" where
  ws_step: "fresh_uuid e w \<Longrightarrow> ws_step w (e, ev) (ws_handle e ev w)"

inductive_cases ws_stepE: "ws_step w l w'"

definition ws_init :: "WS \<Rightarrow> bool" where
  "ws_init w \<longleftrightarrow> (\<exists>d m. w = newWS d m)"

abbreviation ws_reachable :: "WS \<Rightarrow> bool" where
  "ws_reachable \<equiv> reachable ws_init ws_step"

end
