(* ===== verification/RoomBroadcastStream.thy ===== *)
theory RoomBroadcastStream
  imports JS_Prelude
begin

text \<open>
  Live chat broadcasts over the film: the fan-out of \<open>web/src/realtime/RoomBroadcastStream.ts\<close>,
  which shows every message once however often it is delivered, and the overlay of
  \<open>web/src/components/LiveBroadcastOverlay.tsx\<close>, which keeps a broadcast for its lifetime. A
  JavaScript \<open>Set\<close> is the list of its elements in insertion order; listeners are the state setters
  of mounted overlays and do not throw.
\<close>

section \<open>The stream\<close>

definition BROADCAST_LIFETIME_MS :: rat where "BROADCAST_LIFETIME_MS = 8000"
definition RECENT_IDS_LIMIT :: nat where "RECENT_IDS_LIMIT = 4096"

record ChatMsg =
  msg_id :: string
  senderNickname :: string
  msg_content :: string

record LiveBroadcast =
  bc_id :: string
  author :: string
  bc_content :: string
  receivedAtMs :: rat
  expiresAtMs :: rat

record Stream =
  st_listeners :: "nat list"
  seen :: "string list"

definition newStream :: Stream where
  "newStream = \<lparr>st_listeners = [], seen = []\<rparr>"

definition st_subscribe :: "nat \<Rightarrow> Stream \<Rightarrow> Stream" where
  "st_subscribe l s = (if l \<in> set (st_listeners s) then s else s\<lparr>st_listeners := st_listeners s @ [l]\<rparr>)"

definition st_unsubscribe :: "nat \<Rightarrow> Stream \<Rightarrow> Stream" where
  "st_unsubscribe l s = s\<lparr>st_listeners := filter (\<lambda>x. x \<noteq> l) (st_listeners s)\<rparr>"

text \<open>The result: whether the message was new, the calls of listeners in order, the new state.\<close>

definition st_receive :: "rat \<Rightarrow> ChatMsg \<Rightarrow> Stream \<Rightarrow> bool \<times> (nat \<times> LiveBroadcast) list \<times> Stream" where
  "st_receive now m s =
     (if msg_id m \<in> set (seen s) then (False, [], s)
      else
        let seen1 = seen s @ [msg_id m];
            seen2 = (if length seen1 > RECENT_IDS_LIMIT then tl seen1 else seen1);
            b = \<lparr>bc_id = msg_id m, author = senderNickname m, bc_content = msg_content m,
                 receivedAtMs = now, expiresAtMs = now + BROADCAST_LIFETIME_MS\<rparr>
        in (True, map (\<lambda>l. (l, b)) (st_listeners s), s\<lparr>seen := seen2\<rparr>))"

text \<open>A run of deliveries, with the calls it makes.\<close>

fun st_run :: "(rat \<times> ChatMsg) list \<Rightarrow> Stream \<Rightarrow> (nat \<times> LiveBroadcast) list \<times> Stream" where
  "st_run [] s = ([], s)"
| "st_run (x # ms) s =
     (fst (snd (st_receive (fst x) (snd x) s)) @ fst (st_run ms (snd (snd (st_receive (fst x) (snd x) s)))),
      snd (st_run ms (snd (snd (st_receive (fst x) (snd x) s)))))"

section \<open>Properties of the stream\<close>

definition stream_ok :: "Stream \<Rightarrow> bool" where
  "stream_ok s \<longleftrightarrow> distinct (seen s) \<and> length (seen s) \<le> RECENT_IDS_LIMIT"

lemma stream_ok_receive: "stream_ok s \<Longrightarrow> stream_ok (snd (snd (st_receive t m s)))"
  by (auto simp: stream_ok_def st_receive_def Let_def distinct_tl tl_append split: list.splits)

lemma st_receive_frame: "st_listeners (snd (snd (st_receive t m s))) = st_listeners s"
  by (simp add: st_receive_def Let_def)

lemma st_run_frame: "st_listeners (snd (st_run ms s)) = st_listeners s"
  by (induction ms arbitrary: s) (simp_all add: st_receive_frame)

lemma stream_ok_run: "stream_ok s \<Longrightarrow> stream_ok (snd (st_run ms s))"
  by (induction ms arbitrary: s) (simp_all add: stream_ok_receive)

text \<open>
  The memory of the stream is bounded: however many messages are delivered, it remembers at most
  4096 identifiers, without repetition.
\<close>

theorem stream_memory_bounded:
  "length (seen (snd (st_run ms newStream))) \<le> 4096 \<and> distinct (seen (snd (st_run ms newStream)))"
proof -
  have "stream_ok newStream" by (simp add: stream_ok_def newStream_def)
  from stream_ok_run [OF this, of ms] show ?thesis by (simp add: stream_ok_def RECENT_IDS_LIMIT_def)
qed

text \<open>First occurrences, in order.\<close>

fun firsts :: "string list \<Rightarrow> string list \<Rightarrow> string list" where
  "firsts old [] = []"
| "firsts old (x # xs) = (if x \<in> set old then firsts old xs else x # firsts (old @ [x]) xs)"

lemma firsts_distinct: "distinct (firsts old xs) \<and> set (firsts old xs) = set xs - set old"
  by (induction old xs rule: firsts.induct) auto

text \<open>The calls a listener sees are those for the first delivery of each identifier.\<close>

lemma st_run_calls:
  assumes "card (set (seen s) \<union> msg_id ` snd ` set ms) \<le> RECENT_IDS_LIMIT" and "distinct (seen s)"
  shows "map (\<lambda>(l, b). (l, bc_id b)) (fst (st_run ms s)) =
         concat (map (\<lambda>i. map (\<lambda>l. (l, i)) (st_listeners s)) (firsts (seen s) (map (msg_id \<circ> snd) ms)))"
  using assms
proof (induction ms arbitrary: s)
  case (Cons x ms)
  obtain t m where x: "x = (t, m)" by (cases x)
  show ?case
  proof (cases "msg_id m \<in> set (seen s)")
    case True
    then have "st_receive t m s = (False, [], s)" by (simp add: st_receive_def)
    with Cons True show ?thesis by (simp add: x insert_absorb)
  next
    case False
    have "card (set (seen s @ [msg_id m])) \<le> card (set (seen s) \<union> msg_id ` snd ` set (x # ms))"
      by (rule card_mono) (auto simp: x)
    moreover have "distinct (seen s @ [msg_id m])" using Cons.prems(2) False by simp
    ultimately have short: "length (seen s @ [msg_id m]) \<le> RECENT_IDS_LIMIT"
      using Cons.prems(1) unfolding distinct_card [OF \<open>distinct (seen s @ [msg_id m])\<close>, symmetric] by linarith
    define s1 where "s1 = s\<lparr>seen := seen s @ [msg_id m]\<rparr>"
    have rec: "snd (snd (st_receive t m s)) = s1"
      "map (\<lambda>(l, b). (l, bc_id b)) (fst (snd (st_receive t m s))) = map (\<lambda>l. (l, msg_id m)) (st_listeners s)"
      using False short by (auto simp: st_receive_def s1_def)
    have "card (set (seen s1) \<union> msg_id ` snd ` set ms) \<le> RECENT_IDS_LIMIT" "distinct (seen s1)"
      using Cons.prems False by (simp_all add: s1_def x)
    from Cons.IH [OF this] show ?thesis using False rec by (simp add: x) (simp add: s1_def)
  qed
qed simp

text \<open>
  Every message is broadcast once: as long as no more than 4096 different messages are delivered,
  each listener is called exactly once for each of them, at its first delivery and in the order of
  first deliveries, whatever repetitions arrive.
\<close>

theorem broadcast_once:
  assumes "card (msg_id ` snd ` set ms) \<le> 4096"
  shows "map (\<lambda>(l, b). (l, bc_id b)) (fst (st_run ms (newStream\<lparr>st_listeners := ls\<rparr>))) =
         concat (map (\<lambda>i. map (\<lambda>l. (l, i)) ls) (firsts [] (map (msg_id \<circ> snd) ms)))"
  using st_run_calls [of "newStream\<lparr>st_listeners := ls\<rparr>" ms] assms
  by (simp add: newStream_def RECENT_IDS_LIMIT_def)

definition demo_msg :: "string \<Rightarrow> ChatMsg" where
  "demo_msg i = \<lparr>msg_id = i, senderNickname = ''ann'', msg_content = ''hello''\<rparr>"

theorem broadcast_once_witness:
  "map (\<lambda>(l, b). (l, bc_id b)) (fst (st_run [(0, demo_msg ''x''), (5, demo_msg ''x''), (9, demo_msg ''y'')]
     (newStream\<lparr>st_listeners := [1, 2]\<rparr>))) = [(1, ''x''), (2, ''x''), (1, ''y''), (2, ''y'')]"
proof -
  have "card (msg_id ` snd ` set [(0::rat, demo_msg ''x''), (5, demo_msg ''x''), (9, demo_msg ''y'')]) \<le> 4096"
    by (simp add: demo_msg_def card_insert_if)
  from broadcast_once [OF this, of "[1, 2]"] show ?thesis by (simp add: demo_msg_def comp_def)
qed

section \<open>The overlay\<close>

text \<open>
  The state of one mounted overlay is the list it shows; the clock is the stream's. Its effect
  depends on that list: a timer runs while the list is not empty, at the earliest deadline, and is
  replaced whenever the list changes. \<open>visibilitychange\<close> expires too.
\<close>

definition not_expired :: "rat \<Rightarrow> LiveBroadcast \<Rightarrow> bool" where
  "not_expired now b \<longleftrightarrow> expiresAtMs b > now"

definition show_broadcast :: "rat \<Rightarrow> LiveBroadcast \<Rightarrow> LiveBroadcast list \<Rightarrow> LiveBroadcast list" where
  "show_broadcast now b active = b # filter (not_expired now) active"

definition expire_broadcasts :: "rat \<Rightarrow> LiveBroadcast list \<Rightarrow> LiveBroadcast list" where
  "expire_broadcasts now active = filter (not_expired now) active"

definition deadline :: "LiveBroadcast list \<Rightarrow> rat" where
  "deadline active = Min (set (map expiresAtMs active))"

definition overlay_timer :: "rat \<Rightarrow> LiveBroadcast list \<Rightarrow> rat option" where
  "overlay_timer now active =
     (if active = [] then None else Some (now + max 0 (deadline active - now)))"

datatype overlay_event = Shown LiveBroadcast | Expire

fun overlay_run :: "(rat \<times> overlay_event) list \<Rightarrow> LiveBroadcast list \<Rightarrow> LiveBroadcast list" where
  "overlay_run [] active = active"
| "overlay_run ((t, Shown b) # evs) active = overlay_run evs (show_broadcast t b active)"
| "overlay_run ((t, Expire) # evs) active = overlay_run evs (expire_broadcasts t active)"

text \<open>All broadcasts of a run, the latest first.\<close>

fun shown :: "(rat \<times> overlay_event) list \<Rightarrow> LiveBroadcast list" where
  "shown [] = []"
| "shown ((t, Shown b) # evs) = shown evs @ [b]"
| "shown ((t, Expire) # evs) = shown evs"

lemma overlay_run_filter:
  assumes "sorted_wrt (\<le>) (map fst evs)" and "\<forall>x \<in> set evs. fst x \<le> t"
    and "\<forall>x \<in> set evs. \<forall>b. snd x = Shown b \<longrightarrow> expiresAtMs b = fst x + BROADCAST_LIFETIME_MS"
  shows "filter (not_expired t) (overlay_run evs active) = filter (not_expired t) (shown evs @ active)"
  using assms
proof (induction evs active rule: overlay_run.induct)
  case (2 u b evs active)
  have "filter (not_expired t) (filter (not_expired u) active) = filter (not_expired t) active"
    using 2(3) by (auto simp: not_expired_def intro!: filter_cong)
  with 2 show ?case by (simp add: show_broadcast_def)
next
  case (3 u evs active)
  have "filter (not_expired t) (filter (not_expired u) active) = filter (not_expired t) active"
    using 3(3) by (auto simp: not_expired_def intro!: filter_cong)
  with 3 show ?case by (simp add: expire_broadcasts_def)
qed simp

text \<open>
  The overlay shows what is alive: whatever broadcasts arrived and whenever the overlay expired
  in between, after expiring at \<open>t\<close> it shows exactly the broadcasts received less than eight seconds
  before, the latest first.
\<close>

theorem overlay_shows_live:
  assumes "sorted_wrt (\<le>) (map fst evs)" and "\<forall>x \<in> set evs. fst x \<le> t"
    and "\<forall>x \<in> set evs. \<forall>b. snd x = Shown b \<longrightarrow> expiresAtMs b = fst x + BROADCAST_LIFETIME_MS"
  shows "overlay_run (evs @ [(t, Expire)]) [] = filter (\<lambda>b. t < expiresAtMs b) (shown evs)"
proof -
  have "overlay_run (evs @ [(t, Expire)]) a = expire_broadcasts t (overlay_run evs a)" for a
    by (induction evs a rule: overlay_run.induct) simp_all
  then show ?thesis
    using overlay_run_filter [OF assms, of "[]"] by (simp add: expire_broadcasts_def not_expired_def [abs_def])
qed

definition demo_broadcast :: "string \<Rightarrow> rat \<Rightarrow> LiveBroadcast" where
  "demo_broadcast i t = \<lparr>bc_id = i, author = ''ann'', bc_content = ''hi'', receivedAtMs = t, expiresAtMs = t + 8000\<rparr>"

theorem overlay_shows_live_witness:
  "overlay_run [(0, Shown (demo_broadcast ''x'' 0)), (3000, Shown (demo_broadcast ''y'' 3000)), (9000, Expire)] []
     = [demo_broadcast ''y'' 3000]"
  using overlay_shows_live [of "[(0, Shown (demo_broadcast ''x'' 0)), (3000, Shown (demo_broadcast ''y'' 3000))]" 9000]
  by (simp add: demo_broadcast_def BROADCAST_LIFETIME_MS_def)

text \<open>
  The overlay empties by itself: while it shows anything a timer is armed for the earliest
  deadline, and when that timer runs, at or after its time, at least one broadcast disappears.
\<close>

theorem overlay_timer_progress:
  assumes "overlay_timer now active = Some d" and "d \<le> t"
  shows "length (expire_broadcasts t active) < length active"
proof -
  have ne: "active \<noteq> []" and d: "d = now + max 0 (deadline active - now)"
    using assms(1) by (auto simp: overlay_timer_def split: if_splits)
  have "deadline active \<in> set (map expiresAtMs active)"
    unfolding deadline_def using ne by (intro Min_in) auto
  then obtain b where b: "b \<in> set active" "expiresAtMs b = deadline active" by auto
  have "expiresAtMs b \<le> t" using b d assms(2) by (auto simp: max_def split: if_splits)
  then show ?thesis
    unfolding expire_broadcasts_def using b(1) by (auto intro: length_filter_less simp: not_expired_def)
qed

theorem overlay_timer_progress_witness:
  "length (expire_broadcasts 8000 [demo_broadcast ''x'' 0]) < 1"
  using overlay_timer_progress [of 100 "[demo_broadcast ''x'' 0]" 8000 8000]
  by (simp add: overlay_timer_def deadline_def demo_broadcast_def)

end
