(* ===== verification/RoomPage.thy ===== *)
theory RoomPage
  imports MediaTicket WebSocketClient RoomBroadcastStream PlaybackModel "HOL-Library.AList" "HOL-Library.Multiset"
begin

text \<open>
  The state of the room page, \<open>web/src/pages/RoomPage.tsx\<close>: what the realtime messages do to the
  room, the playback state, the members and the chat, and the merge of the archived chat into the live
  one. React's state setters are updates of one record; a
  setter with a function is that function applied to the field.
\<close>

section \<open>State\<close>

text \<open>
  What the page asks of the objects around it, in order: the connection, the synchronizer, the router,
  the identity provider, the clipboard and the HTTP interface.
\<close>

datatype page_request =
    Get_room
  | Get_messages
  | Get_library
  | Post_invite string
  | Post_reopen string
  | Post_media string string
  | Post_close string
  | Post_leave string
  | Post_transfer string string
  | Post_kick string string

datatype page_cmd =
    Ws_subscribe
  | Ws_unsubscribe
  | Ws_connect
  | Ws_disconnect
  | Ctl_setRoomState PlaybackState bool
  | Ctl_setHost bool
  | Ctl_suspend
  | Refresh_identity
  | Nav string
  | Clipboard string
  | Request page_request

text \<open>The identity is compared by reference: \<open>pg_identityRef\<close> is the address of the object.\<close>

record Page = Ticket +
  pg_code :: string
  pg_identity :: "Identity option"
  pg_identityRef :: nat
  pg_loading :: bool
  pg_room :: "Room option"
  pg_playback :: "PlaybackState option"
  pg_members :: "Member list"
  pg_messages :: "ChatMessage list"
  pg_connection :: ConnectionStatus
  pg_invite :: string
  pg_library :: "Media list"
  pg_stream :: Stream
  pg_out :: "page_cmd list"

definition request_out :: "page_cmd list \<Rightarrow> 'a Page_scheme \<Rightarrow> 'a Page_scheme" where
  "request_out cs pg = pg\<lparr>pg_out := pg_out pg @ cs\<rparr>"

definition close_room :: "'a Page_scheme \<Rightarrow> 'a Page_scheme" where
  "close_room pg = pg\<lparr>pg_room := map_option (\<lambda>r. r\<lparr>rm_status := CLOSED_STATUS\<rparr>) (pg_room pg)\<rparr>"

declare request_out_def [simp] close_room_def [simp]

text \<open>The payloads of the messages the page acts on.\<close>

datatype room_message =
    Snapshot Room PlaybackState "Member list"
  | Playback_state PlaybackState
  | Chat_message ChatMessage
  | Member_joined string string bool
  | Member_left string
  | Host_changed string
  | Room_updated string
  | Room_closed
  | Server_shutdown
  | Other_message

section \<open>The reducer\<close>

definition setPlayback_newer :: "PlaybackState \<Rightarrow> PlaybackState option \<Rightarrow> PlaybackState option" where
  "setPlayback_newer p old =
     (case old of None \<Rightarrow> Some p | Some q \<Rightarrow> if revision p > revision q then Some p else Some q)"

definition append_message :: "ChatMessage \<Rightarrow> ChatMessage list \<Rightarrow> ChatMessage list" where
  "append_message m items = slice_last 300 (items @ [m])"

definition member_joined :: "string \<Rightarrow> string \<Rightarrow> bool \<Rightarrow> Member list \<Rightarrow> Member list" where
  "member_joined i n guest ms =
     (if list_ex (\<lambda>m. mb_id m = i) ms then ms
      else ms @ [\<lparr>mb_id = i, nickname = n, mb_role = Member_role,
                  mb_kind = (if guest then Guest_kind else User_kind), online = True, mb_ready = False\<rparr>])"

definition member_left :: "string \<Rightarrow> Member list \<Rightarrow> Member list" where
  "member_left i ms = filter (\<lambda>m. mb_id m \<noteq> i) ms"

definition host_changed :: "string \<Rightarrow> Member list \<Rightarrow> Member list" where
  "host_changed i ms = map (\<lambda>m. m\<lparr>mb_role := (if mb_id m = i then Host_role else Member_role)\<rparr>) ms"

definition to_broadcast :: "ChatMessage \<Rightarrow> ChatMsg" where
  "to_broadcast m = \<lparr>msg_id = cm_id m, senderNickname = cm_senderNickname m, msg_content = cm_content m\<rparr>"

text \<open>The listener the page subscribes.\<close>

fun on_room_message :: "rat \<Rightarrow> room_message \<Rightarrow> 'a Page_scheme \<Rightarrow> 'a Page_scheme" where
  "on_room_message now (Snapshot r p ms) pg =
     request_out [Ctl_setRoomState p True] (pg\<lparr>pg_room := Some r, pg_playback := Some p, pg_members := ms\<rparr>)"
| "on_room_message now (Playback_state p) pg = pg\<lparr>pg_playback := setPlayback_newer p (pg_playback pg)\<rparr>"
| "on_room_message now (Chat_message m) pg =
     (let (fresh, _, s) = st_receive now (to_broadcast m) (pg_stream pg);
          pg1 = pg\<lparr>pg_stream := s\<rparr>
      in if fresh then pg1\<lparr>pg_messages := append_message m (pg_messages pg1)\<rparr> else pg1)"
| "on_room_message now (Member_joined i n g) pg = pg\<lparr>pg_members := member_joined i n g (pg_members pg)\<rparr>"
| "on_room_message now (Member_left i) pg = pg\<lparr>pg_members := member_left i (pg_members pg)\<rparr>"
| "on_room_message now (Host_changed i) pg =
     pg\<lparr>pg_room := map_option (\<lambda>r. r\<lparr>hostUserId := i\<rparr>) (pg_room pg), pg_members := host_changed i (pg_members pg)\<rparr>"
| "on_room_message now (Room_updated t) pg = pg\<lparr>pg_room := map_option (\<lambda>r. r\<lparr>rm_title := t\<rparr>) (pg_room pg)\<rparr>"
| "on_room_message now Room_closed pg =
     close_room (pg\<lparr>pg_error := Room_closed_text\<rparr>)"
| "on_room_message now Server_shutdown pg = pg\<lparr>pg_error := Maintenance_text\<rparr>"
| "on_room_message now Other_message pg = pg"

text \<open>The archive: a \<open>Map\<close> by identifier (live messages replace archived ones in place), sorted by
  time (\<open>Array.sort\<close> is stable), the last 300.\<close>

definition merged :: "ChatMessage list \<Rightarrow> ChatMessage list \<Rightarrow> (string \<times> ChatMessage) list" where
  "merged history current = fold (\<lambda>m al. AList.update (cm_id m) m al) (history @ current) []"

definition merge_history :: "ChatMessage list \<Rightarrow> ChatMessage list \<Rightarrow> ChatMessage list" where
  "merge_history history current = slice_last 300 (sort_key createdAtMs (map snd (merged history current)))"

section \<open>The chat\<close>

lemma merged_step:
  assumes "distinct (map fst al)" and "\<forall>x \<in> set al. cm_id (snd x) = fst x"
  shows "distinct (map fst (fold (\<lambda>m al. AList.update (cm_id m) m al) ms al)) \<and>
         (\<forall>x \<in> set (fold (\<lambda>m al. AList.update (cm_id m) m al) ms al). cm_id (snd x) = fst x) \<and>
         fst ` set (fold (\<lambda>m al. AList.update (cm_id m) m al) ms al) = fst ` set al \<union> cm_id ` set ms \<and>
         snd ` set (fold (\<lambda>m al. AList.update (cm_id m) m al) ms al) \<subseteq> snd ` set al \<union> set ms"
  using assms
proof (induction ms arbitrary: al)
  case (Cons m ms)
  let ?al = "AList.update (cm_id m) m al"
  have "set ?al \<subseteq> insert (cm_id m, m) (set al)" by (induction al) auto
  then have keys: "\<forall>x \<in> set ?al. cm_id (snd x) = fst x" and vals: "snd ` set ?al \<subseteq> insert m (snd ` set al)"
    using Cons.prems(2) by force+
  have dist: "distinct (map fst ?al)" using Cons.prems(1) by (rule distinct_update)
  note ih = Cons.IH [OF dist keys]
  have "snd ` set (fold (\<lambda>m al. AList.update (cm_id m) m al) ms ?al) \<subseteq> snd ` set ?al \<union> set ms" using ih by blast
  also have "\<dots> \<subseteq> snd ` set al \<union> set (m # ms)" using vals by auto
  finally show ?case using ih by (simp add: dom_update)
qed simp

lemma merged_facts:
  "distinct (map fst (merged h c))" "\<forall>x \<in> set (merged h c). cm_id (snd x) = fst x"
  "fst ` set (merged h c) = cm_id ` (set h \<union> set c)" "snd ` set (merged h c) \<subseteq> set h \<union> set c"
  using merged_step [of "[]" "h @ c"] by (auto simp: merged_def image_Un)

lemma merged_ids: "map cm_id (map snd (merged h c)) = map fst (merged h c)"
  using merged_facts(2) [of h c] by simp

lemma sorted_slice_last: "sorted (map f xs) \<Longrightarrow> sorted (map f (slice_last n xs))"
  by (simp add: slice_last_def drop_map [symmetric] sorted_wrt_drop)

lemma sorted_dropped:
  assumes "sorted (map f xs)"
  shows "\<forall>x \<in> set xs - set (slice_last n xs). \<forall>y \<in> set (slice_last n xs). f x \<le> f y"
proof (intro ballI)
  fix x y
  let ?k = "length xs - n"
  assume x: "x \<in> set xs - set (slice_last n xs)" and y: "y \<in> set (slice_last n xs)"
  have split: "xs = take ?k xs @ slice_last n xs" by (simp add: slice_last_def)
  with x have "x \<in> set (take ?k xs)" by (metis DiffD1 DiffD2 Un_iff set_append)
  moreover have "sorted (map f (take ?k xs @ slice_last n xs))" using assms split by simp
  ultimately show "f x \<le> f y" using y by (auto simp: sorted_append)
qed

text \<open>
  C26. Loading the archive keeps the chat well formed: whatever was archived and whatever arrived
  meanwhile, the merged chat has no message twice, is in the order of time, holds only messages that
  were in one of the two, and as many of the different ones as fit into 300; what is left out is never
  newer than what is kept.
\<close>

theorem merge_history_ok:
  "distinct (map cm_id (merge_history h c)) \<and> sorted (map createdAtMs (merge_history h c)) \<and>
   set (merge_history h c) \<subseteq> set h \<union> set c \<and>
   length (merge_history h c) = min 300 (card (cm_id ` (set h \<union> set c))) \<and>
   (\<forall>x \<in> snd ` set (merged h c) - set (merge_history h c). \<forall>y \<in> set (merge_history h c). createdAtMs x \<le> createdAtMs y)"
proof -
  let ?vs = "map snd (merged h c)"
  have "mset (map cm_id (sort_key createdAtMs ?vs)) = mset (map fst (merged h c))"
    by (metis merged_ids mset_map mset_sort)
  then have "distinct (map cm_id (sort_key createdAtMs ?vs))"
    using merged_facts(1) by (metis mset_eq_imp_distinct_iff)
  then have "distinct (map cm_id (merge_history h c))"
    by (simp add: merge_history_def slice_last_def drop_map [symmetric])
  moreover have "sorted (map createdAtMs (merge_history h c))"
    unfolding merge_history_def by (intro sorted_slice_last sorted_sort_key)
  moreover have "set (merge_history h c) \<subseteq> set h \<union> set c"
    using set_slice_last [of 300 "sort_key createdAtMs ?vs"] merged_facts(4) [of h c]
    by (auto simp: merge_history_def)
  moreover have "length (merged h c) = card (cm_id ` (set h \<union> set c))"
    using distinct_card [OF merged_facts(1) [of h c]] merged_facts(3) [of h c] by simp
  moreover have "\<forall>x \<in> snd ` set (merged h c) - set (merge_history h c). \<forall>y \<in> set (merge_history h c). createdAtMs x \<le> createdAtMs y"
    using sorted_dropped [of createdAtMs "sort_key createdAtMs ?vs" 300] by (simp add: merge_history_def)
  ultimately show ?thesis by (simp add: merge_history_def)
qed

definition demo_chat :: ChatMessage where
  "demo_chat = \<lparr>cm_id = ''x'', cm_senderId = ''a'', cm_senderNickname = ''Ann'', cm_senderKind = ''user'',
     cm_content = ''hi'', mediaPositionMs = None, createdAtMs = 5\<rparr>"

theorem merge_history_ok_witness:
  "distinct (map cm_id (merge_history [demo_chat] [demo_chat\<lparr>cm_content := ''ho''\<rparr>])) \<and>
   length (merge_history [demo_chat] [demo_chat\<lparr>cm_content := ''ho''\<rparr>]) = 1"
  using merge_history_ok [of "[demo_chat]" "[demo_chat\<lparr>cm_content := ''ho''\<rparr>]"] by simp

text \<open>The life of a page: messages from the socket and the arrival of the archive, in any order.\<close>

datatype page_event = Live rat room_message | History "ChatMessage list"

fun page_step :: "page_event \<Rightarrow> 'a Page_scheme \<Rightarrow> 'a Page_scheme" where
  "page_step (Live now m) pg = on_room_message now m pg"
| "page_step (History h) pg = pg\<lparr>pg_messages := merge_history h (pg_messages pg)\<rparr>"

text \<open>The first render: nothing loaded, the identity still unknown.\<close>

definition newPage :: Page where
  "newPage = \<lparr>src = None, pendingSrc = None, ticketNonce = 0, pg_media = None, pg_error = No_error,
     tk_mediaId = None, tk_identity = False, tk_instance = 0, tk_timer = None, tk_asked = [], tk_described = 0,
     pg_code = [], pg_identity = None, pg_identityRef = 0, pg_loading = True, pg_room = None, pg_playback = None,
     pg_members = [], pg_messages = [], pg_connection = Connecting, pg_invite = [], pg_library = [],
     pg_stream = newStream, pg_out = []\<rparr>"

text \<open>Snapshots list every member once.\<close>

fun snapshot_ok :: "page_event \<Rightarrow> bool" where
  "snapshot_ok (Live now (Snapshot r p ms)) = distinct (map mb_id ms)"
| "snapshot_ok ev = True"

definition page_ok :: "'a Page_scheme \<Rightarrow> bool" where
  "page_ok pg \<longleftrightarrow> length (pg_messages pg) \<le> 300 \<and> distinct (map mb_id (pg_members pg)) \<and> stream_ok (pg_stream pg)"

lemma members_ok:
  assumes "distinct (map mb_id ms)"
  shows "distinct (map mb_id (member_joined i n g ms))" "distinct (map mb_id (member_left i ms))"
    "distinct (map mb_id (host_changed i ms))"
  using assms
  by (auto simp: member_joined_def member_left_def host_changed_def list_ex_iff comp_def distinct_map_filter)

lemma page_ok_chat:
  assumes "page_ok pg"
  shows "page_ok (on_room_message now (Chat_message m) pg)"
proof -
  obtain fresh calls s where r: "st_receive now (to_broadcast m) (pg_stream pg) = (fresh, calls, s)"
    by (cases "st_receive now (to_broadcast m) (pg_stream pg)") auto
  then have "stream_ok s"
    using stream_ok_receive [of "pg_stream pg" now "to_broadcast m"] assms by (simp add: page_ok_def)
  with assms r show ?thesis by (simp add: page_ok_def append_message_def Let_def)
qed

lemma page_ok_step: "page_ok pg \<Longrightarrow> snapshot_ok ev \<Longrightarrow> page_ok (page_step ev pg)"
proof (cases ev)
  case (Live now m)
  assume "page_ok pg" "snapshot_ok ev"
  then show ?thesis using page_ok_chat [of pg now] Live
    by (cases m) (simp_all add: page_ok_def members_ok)
next
  case (History h)
  assume "page_ok pg"
  then show ?thesis using History by (simp add: page_ok_def merge_history_def)
qed

text \<open>
  The page stays bounded and well formed: whatever messages arrive in whatever order, and
  whenever the archive does, the chat keeps at most 300 messages and no member is listed twice
  (given that the server's snapshots do not repeat one).
\<close>

theorem page_stays_ok:
  assumes "list_all snapshot_ok evs"
  shows "length (pg_messages (fold page_step evs newPage)) \<le> 300 \<and>
         distinct (map mb_id (pg_members (fold page_step evs newPage)))"
proof -
  have "page_ok pg \<Longrightarrow> list_all snapshot_ok evs \<Longrightarrow> page_ok (fold page_step evs pg)" for pg :: Page and evs
    by (induction evs arbitrary: pg) (simp_all add: page_ok_step)
  moreover have "page_ok newPage" by (simp add: page_ok_def newPage_def newStream_def stream_ok_def)
  ultimately show ?thesis using assms by (simp add: page_ok_def)
qed

theorem page_stays_ok_witness:
  "length (pg_members (fold page_step
     [Live 0 (Member_joined ''a'' ''Ann'' False), Live 1 (Member_joined ''a'' ''Ann'' False)] newPage)) = 1"
proof -
  let ?pg = "fold page_step [Live 0 (Member_joined ''a'' ''Ann'' False), Live 1 (Member_joined ''a'' ''Ann'' False)] newPage"
  have "distinct (map mb_id (pg_members ?pg))" by (rule conjunct2 [OF page_stays_ok]) simp
  moreover have "pg_members ?pg = [hd (pg_members ?pg)]" by code_simp
  ultimately show ?thesis by (metis length_Cons list.size(3) One_nat_def)
qed

definition page_state :: "int \<Rightarrow> PlaybackState" where
  "page_state n = \<lparr>mediaId = Some ''m'', revision = n, timelineEpoch = None, phase = Paused, anchorPositionMs = 0,
     anchorServerTimeMs = 0, playbackRate = 1, durationMs = None, resumeIntent = None\<rparr>"

text \<open>
  Old playback states cannot come back: between snapshots, whatever the order of delivery, the
  revision shown by the page never decreases and the page ends with the greatest one delivered.
\<close>

theorem playback_newest:
  assumes "pg_playback pg = Some q"
  shows "\<exists>p. pg_playback (fold (\<lambda>p. on_room_message now (Playback_state p)) ps pg) = Some p \<and>
           p \<in> insert q (set ps) \<and> revision p = Max (revision ` insert q (set ps))"
  using assms
proof (induction ps arbitrary: pg q)
  case (Cons x ps)
  let ?pg = "on_room_message now (Playback_state x) pg"
  define q' where "q' = (if revision x > revision q then x else q)"
  have "pg_playback ?pg = Some q'" using Cons.prems by (simp add: setPlayback_newer_def q'_def)
  from Cons.IH [OF this] obtain p where p: "pg_playback (fold (\<lambda>p. on_room_message now (Playback_state p)) ps ?pg) = Some p"
    "p \<in> insert q' (set ps)" "revision p = Max (revision ` insert q' (set ps))" by blast
  have "Max (revision ` insert q (set (x # ps))) = Max (revision ` insert q' (set ps))"
    by (cases "ps = []") (auto simp: q'_def max_def Max_insert)
  moreover have "p \<in> insert q (set (x # ps))" using p(2) by (auto simp: q'_def split: if_splits)
  ultimately show ?case using p(1,3) by (intro exI [of _ p]) (simp del: on_room_message.simps)
qed simp

theorem playback_newest_witness:
  "\<exists>p. pg_playback (fold (\<lambda>p. on_room_message 0 (Playback_state p)) [page_state 7, page_state 5]
      (newPage\<lparr>pg_playback := Some (page_state 6)\<rparr>)) = Some p \<and> revision p = 7"
  using playback_newest [of "newPage\<lparr>pg_playback := Some (page_state 6)\<rparr>" "page_state 6" 0 "[page_state 7, page_state 5]"]
  by (auto simp: page_state_def)

text \<open>
  After a change of the host exactly one listed member is the host, the one named, and the page's
  own notion of the host agrees.
\<close>

theorem host_changed_unique:
  assumes "distinct (map mb_id (pg_members pg))" and "i \<in> mb_id ` set (pg_members pg)" and "pg_room pg = Some r"
  shows "let pg' = on_room_message now (Host_changed i) pg in
     map mb_id (filter (\<lambda>m. mb_role m = Host_role) (pg_members pg')) = [i] \<and>
     map_option hostUserId (pg_room pg') = Some i"
proof -
  have "map mb_id (filter (\<lambda>m. mb_role m = Host_role) (host_changed i ms)) = filter (\<lambda>x. x = i) (map mb_id ms)" for ms
    by (induction ms) (simp_all add: host_changed_def)
  moreover have "filter (\<lambda>x. x = i) xs = [i]" if "distinct xs" "i \<in> set xs" for xs
    using that by (induction xs) (auto simp: filter_empty_conv)
  ultimately show ?thesis using assms by (simp add: Let_def)
qed

theorem host_changed_unique_witness:
  "map mb_id (filter (\<lambda>m. mb_role m = Host_role) (pg_members (on_room_message 0 (Host_changed ''b'')
     (newPage\<lparr>pg_members := member_joined ''b'' ''Bo'' True (member_joined ''a'' ''Ann'' False []),
       pg_room := Some \<lparr>rm_id = ''r'', rm_code = ''C'', rm_title = ''t'', hostUserId = ''a'', rm_mediaId = None,
         rm_status = OPEN_ROOM, maxMembers = 8, rm_createdAtMs = 0\<rparr>\<rparr>)))) = [''b'']"
proof -
  let ?r = "\<lparr>rm_id = ''r'', rm_code = ''C'', rm_title = ''t'', hostUserId = ''a'', rm_mediaId = None, rm_status = OPEN_ROOM, maxMembers = 8, rm_createdAtMs = 0\<rparr>"
  let ?pg = "newPage\<lparr>pg_members := member_joined ''b'' ''Bo'' True (member_joined ''a'' ''Ann'' False []), pg_room := Some ?r\<rparr>"
  have "distinct (map mb_id (pg_members ?pg))" "''b'' \<in> mb_id ` set (pg_members ?pg)" by code_simp+
  from host_changed_unique [OF this, of ?r 0] show ?thesis by (simp add: Let_def del: on_room_message.simps)
qed

section \<open>A message twice\<close>

text \<open>
  A message can be listed twice. The live path only remembers identifiers delivered live, so a
  message that came with the archive and is delivered live afterwards is appended a second time.
\<close>

theorem archived_then_live_twice:
  assumes "m \<in> set (pg_messages pg)" and "cm_id m \<notin> set (seen (pg_stream pg))" and "length (pg_messages pg) < 300"
  shows "\<not> distinct (map cm_id (pg_messages (on_room_message now (Chat_message m) pg)))"
proof -
  have "pg_messages (on_room_message now (Chat_message m) pg) = pg_messages pg @ [m]"
    using assms(2,3) by (simp add: st_receive_def to_broadcast_def append_message_def Let_def)
  with assms(1) show ?thesis by auto
qed

theorem archived_then_live_twice_witness:
  "map cm_id (pg_messages (page_step (Live 0 (Chat_message demo_chat)) (page_step (History [demo_chat]) newPage)))
     = [''x'', ''x''] \<and>
   \<not> distinct (map cm_id (pg_messages (on_room_message 0 (Chat_message demo_chat) (page_step (History [demo_chat]) newPage))))"
proof
  show "map cm_id (pg_messages (page_step (Live 0 (Chat_message demo_chat)) (page_step (History [demo_chat]) newPage)))
     = [''x'', ''x'']"
    by code_simp
  have "pg_messages (page_step (History [demo_chat]) newPage) = [demo_chat]"
    "seen (pg_stream (page_step (History [demo_chat]) newPage)) = []"
    by (simp_all add: merge_history_def merged_def newPage_def newStream_def)
  then show "\<not> distinct (map cm_id (pg_messages (on_room_message 0 (Chat_message demo_chat) (page_step (History [demo_chat]) newPage))))"
    by (intro archived_then_live_twice) simp_all
qed

end
