(* ===== verification/RoomRoster.thy ===== *)
theory RoomRoster
  imports RoomNetwork RoomPage
begin

text \<open>
  The list of members on the pages and the roll on the server: what the room's messages do to a page's list
  (\<open>RoomPage.tsx\<close>, the messages \<open>actor.go\<close> sends when someone joins or leaves), that it lists who is there,
  and what it says of a host who comes back.
\<close>

section \<open>The messages about the members\<close>

text \<open>\<open>w\<close> gives the fields of the room the pages read and the server's model leaves out.\<close>

fun roster_messages :: "(ServerRoom \<Rightarrow> Room) \<Rightarrow> server_event \<Rightarrow> room_message list" where
  "roster_messages w (Ev_snapshot r s ms) = [Snapshot (w r) (published s) ms]"
| "roster_messages w (Ev_member_joined i) = [Member_joined (id_id i) (id_nickname i) (id_guest i)]"
| "roster_messages w (Ev_member_left i) = [Member_left i]"
| "roster_messages w ev = []"

fun heard :: "(ServerRoom \<Rightarrow> Room) \<Rightarrow> nat \<Rightarrow> actor_out \<Rightarrow> room_message list" where
  "heard w c (actor_out.Deliver d ev) = (if d = c then roster_messages w ev else [])"
| "heard w c x = []"

definition heard_of :: "(ServerRoom \<Rightarrow> Room) \<Rightarrow> nat \<Rightarrow> actor_out list \<Rightarrow> room_message list" where
  "heard_of w c xs = concat (map (heard w c) xs)"

fun about_members :: "room_message \<Rightarrow> bool" where
  "about_members (Snapshot r p ms) = True"
| "about_members (Member_joined i n g) = True"
| "about_members (Member_left i) = True"
| "about_members m = False"

text \<open>A page that handles messages.\<close>

definition page_run :: "(rat \<times> room_message) list \<Rightarrow> 'a Page_scheme \<Rightarrow> 'a Page_scheme" where
  "page_run l pg = fold (\<lambda>(t, m). on_room_message t m) l pg"

text \<open>What the messages do to the identifiers a page lists.\<close>

fun ids_step :: "room_message \<Rightarrow> string list \<Rightarrow> string list" where
  "ids_step (Snapshot r p ms) l = map mb_id ms"
| "ids_step (Member_joined i n g) l = (if i \<in> set l then l else l @ [i])"
| "ids_step (Member_left i) l = filter (\<lambda>j. j \<noteq> i) l"
| "ids_step m l = l"

lemma page_ids: "map mb_id (pg_members (page_run l pg)) = fold ids_step (filter about_members (map snd l)) (map mb_id (pg_members pg))"
proof (induction l arbitrary: pg)
  case (Cons x l)
  obtain t m where x: "x = (t, m)" by (cases x)
  have "map mb_id (pg_members (on_room_message t m pg)) = (if about_members m then ids_step m else id) (map mb_id (pg_members pg))"
  proof (cases m)
    case (Member_joined i n g)
    then show ?thesis by (auto simp: member_joined_def list_ex_iff)
  next
    case (Member_left i)
    then show ?thesis by (simp add: member_left_def filter_map comp_def)
  next
    case (Chat_message c)
    then show ?thesis by (simp add: Let_def split: prod.split)
  next
    case (Host_changed i)
    then show ?thesis by (simp add: host_changed_def comp_def)
  qed simp_all
  then show ?case using Cons [of "on_room_message t m pg"] by (simp add: page_run_def x)
qed (simp add: page_run_def)

lemma heard_simps [simp]:
  "heard_of w c [] = []" "heard_of w c (x # xs) = heard w c x @ heard_of w c xs" "heard_of w c (xs @ ys) = heard_of w c xs @ heard_of w c ys"
  by (simp_all add: heard_of_def)

lemma heard_broadcast:
  assumes "c \<in> (\<lambda>x. rt_client (snd x)) ` set ms" and "\<not> cut_off c (broadcast_to e ev ms)"
  shows "\<exists>n. heard_of w c (broadcast_to e ev ms) = concat (replicate (Suc n) (roster_messages w ev))"
  using assms
proof (induction ms)
  case (Cons x ms)
  have rest: "\<not> cut_off c (broadcast_to e ev ms)" using Cons.prems(2) by (simp add: broadcast_Cons)
  show ?case
  proof (cases "c \<in> (\<lambda>x. rt_client (snd x)) ` set ms")
    case True
    then obtain n where n: "heard_of w c (broadcast_to e ev ms) = concat (replicate (Suc n) (roster_messages w ev))"
      using Cons.IH rest by blast
    show ?thesis
      by (rule exI [of _ "if rt_client (snd x) = c then Suc n else n"]) (use n Cons.prems(2) in \<open>auto simp: broadcast_Cons split: if_splits\<close>)
  next
    case False
    then have "heard_of w c (broadcast_to e ev ms) = []"
      by (induction ms) (auto simp: broadcast_Cons)
    moreover have "rt_client (snd x) = c" using False Cons.prems(1) by auto
    ultimately show ?thesis using Cons.prems(2) by (intro exI [of _ 0]) (auto simp: broadcast_Cons split: if_splits)
  qed
qed simp

lemma fold_same:
  assumes "\<And>l. f m (f m l) = f m l"
  shows "fold f (concat (replicate (Suc n) [m])) l = f m l"
  using assms by (induction n arbitrary: l) auto

text \<open>However often it is told, a message that says the same twice counts once.\<close>

lemma fold_heard:
  assumes "c \<in> (\<lambda>x. rt_client (snd x)) ` set ms" and "\<not> cut_off c (broadcast_to e ev ms)"
    and "roster_messages w ev = [m]" and "\<And>l. ids_step m (ids_step m l) = ids_step m l"
  shows "fold ids_step (heard_of w c (broadcast_to e ev ms)) l = ids_step m l"
proof -
  obtain n where "heard_of w c (broadcast_to e ev ms) = concat (replicate (Suc n) [m])"
    using heard_broadcast [OF assms(1,2), of w] unfolding assms(3) by blast
  then show ?thesis by (simp only: fold_same [of ids_step m, OF assms(4)])
qed

section \<open>One step of the room, as the lists see it\<close>

abbreviation here :: "Actor \<Rightarrow> string set" where
  "here a \<equiv> fst ` set (ac_members a)"

definition listing :: "Actor \<Rightarrow> string list \<Rightarrow> bool" where
  "listing a l \<longleftrightarrow> distinct l \<and> set l = here a"

definition lists :: "(ServerRoom \<Rightarrow> Room) \<Rightarrow> Actor \<Rightarrow> Actor \<Rightarrow> bool" where
  "lists w a a' \<longleftrightarrow>
     (\<exists>xs. ac_out a' = ac_out a @ xs \<and>
        (\<forall>c \<in> conns a'. cut_off c xs \<or>
           (\<forall>l. (c \<in> conns a \<longrightarrow> listing a l) \<longrightarrow> listing a' (fold ids_step (heard_of w c xs) l))))"

text \<open>A still step says nothing about the members.\<close>

definition still :: "(ServerRoom \<Rightarrow> Room) \<Rightarrow> Actor \<Rightarrow> Actor \<Rightarrow> bool" where
  "still w a a' \<longleftrightarrow>
     (\<exists>xs. ac_out a' = ac_out a @ xs \<and> (\<forall>c. heard_of w c xs = []) \<and> here a' = here a \<and> conns a' \<subseteq> conns a)"

lemma stillI:
  "ac_out a' = ac_out a @ xs \<Longrightarrow> (\<And>c. heard_of w c xs = []) \<Longrightarrow> here a' = here a \<Longrightarrow> conns a' \<subseteq> conns a \<Longrightarrow> still w a a'"
  by (auto simp: still_def)

lemma still_refl [simp]: "still w a a"
  by (rule stillI [of _ _ "[]"]) simp_all

lemma still_trans:
  assumes "still w a b" and "still w b d"
  shows "still w a d"
proof -
  obtain xs where xs: "ac_out b = ac_out a @ xs" "\<And>c. heard_of w c xs = []" "here b = here a" "conns b \<subseteq> conns a"
    using assms(1) by (auto simp: still_def)
  obtain ys where ys: "ac_out d = ac_out b @ ys" "\<And>c. heard_of w c ys = []" "here d = here b" "conns d \<subseteq> conns b"
    using assms(2) by (auto simp: still_def)
  show ?thesis by (rule stillI [of _ _ "xs @ ys"]) (use xs ys in auto)
qed

lemma heard_nothing: "roster_messages w ev = [] \<Longrightarrow> heard_of w c (broadcast_to e ev ms) = []"
  by (induction ms) (auto simp: broadcast_Cons)

lemma still_fields:
  "ac_out b = ac_out a \<Longrightarrow> here b = here a \<Longrightarrow> conns b \<subseteq> conns a \<Longrightarrow> still w a b"
  by (rule stillI [of _ _ "[]"]) simp_all

lemma still_basic:
  "(\<And>c. heard_of w c xs = []) \<Longrightarrow> still w b (act xs b)" "roster_messages w ev = [] \<Longrightarrow> still w b (broadcast e ev b)"
  "still w b (persistCheckpoint e b)" "still w b (set_status st b)" "still w b (set_host i b)" "still w b (stop_hostTimer b)"
  "still w b (publish e f b)"
proof -
  show act: "(\<And>c. heard_of w c xs = []) \<Longrightarrow> still w b (act xs b)" for xs b by (rule stillI [of _ _ xs]) (simp_all add: conns_def)
  show "roster_messages w ev = [] \<Longrightarrow> still w b (broadcast e ev b)" by (simp add: broadcast_def act heard_nothing)
  show "still w b (persistCheckpoint e b)" by (simp add: persistCheckpoint_def Let_def act)
  show "still w b (set_status st b)" "still w b (set_host i b)" "still w b (stop_hostTimer b)"
    by (rule still_fields; simp add: conns_def)+
  show "still w b (publish e f b)"
    by (rule stillI [OF publish_fields(2)]) (simp_all add: heard_nothing conns_def del: publish_fields(1))
qed

lemma still_then_fields:
  assumes "still w a b"
  shows "still w a (b\<lparr>ac_room := r\<rparr>)" "still w a (b\<lparr>ac_stopped := s\<rparr>)" "still w a (b\<lparr>ac_expiring := x\<rparr>)" "still w a (b\<lparr>ac_timers := ts, ac_expiring := x\<rparr>)"
    "still w a (b\<lparr>ac_hostTimer := h, ac_timers := ts, ac_nextTimer := n\<rparr>)"
proof -
  have "still w b (b\<lparr>ac_room := r\<rparr>)" "still w b (b\<lparr>ac_stopped := s\<rparr>)" "still w b (b\<lparr>ac_expiring := x\<rparr>)" "still w b (b\<lparr>ac_timers := ts, ac_expiring := x\<rparr>)"
    "still w b (b\<lparr>ac_hostTimer := h, ac_timers := ts, ac_nextTimer := n\<rparr>)"
    by (rule still_fields; simp add: conns_def)+
  then show "still w a (b\<lparr>ac_room := r\<rparr>)" "still w a (b\<lparr>ac_stopped := s\<rparr>)" "still w a (b\<lparr>ac_expiring := x\<rparr>)" "still w a (b\<lparr>ac_timers := ts, ac_expiring := x\<rparr>)"
    "still w a (b\<lparr>ac_hostTimer := h, ac_timers := ts, ac_nextTimer := n\<rparr>)"
    using still_trans [OF assms] by blast+
qed

lemma still_then:
  "still w a b \<Longrightarrow> (\<And>c. heard_of w c xs = []) \<Longrightarrow> still w a (act xs b)"
  "still w a b \<Longrightarrow> roster_messages w ev = [] \<Longrightarrow> still w a (broadcast e ev b)"
  "still w a b \<Longrightarrow> still w a (persistCheckpoint e b)" "still w a b \<Longrightarrow> still w a (set_status st b)"
  "still w a b \<Longrightarrow> still w a (set_host i b)" "still w a b \<Longrightarrow> still w a (stop_hostTimer b)" "still w a b \<Longrightarrow> still w a (publish e f b)"
  by (erule still_trans, rule still_basic, assumption?)+

lemmas still_rules = still_then still_then_fields

lemma lists_still:
  assumes "still w a a'"
  shows "lists w a a'"
proof -
  obtain xs where "ac_out a' = ac_out a @ xs" "\<And>c. heard_of w c xs = []" "here a' = here a" "conns a' \<subseteq> conns a"
    using assms by (auto simp: still_def)
  then show ?thesis unfolding lists_def by (intro exI [of _ xs]) (auto simp: listing_def)
qed

lemma lists_before:
  assumes "lists w a b" and "still w b d"
  shows "lists w a d"
proof -
  obtain xs where xs: "ac_out b = ac_out a @ xs"
    "\<forall>c \<in> conns b. cut_off c xs \<or> (\<forall>l. (c \<in> conns a \<longrightarrow> listing a l) \<longrightarrow> listing b (fold ids_step (heard_of w c xs) l))"
    using assms(1) by (auto simp: lists_def)
  obtain ys where ys: "ac_out d = ac_out b @ ys" "\<And>c. heard_of w c ys = []" "here d = here b" "conns d \<subseteq> conns b"
    using assms(2) by (auto simp: still_def)
  have "listing d = listing b" by (simp add: fun_eq_iff listing_def ys(3))
  then have "\<forall>c \<in> conns d. cut_off c (xs @ ys) \<or>
      (\<forall>l. (c \<in> conns a \<longrightarrow> listing a l) \<longrightarrow> listing d (fold ids_step (heard_of w c (xs @ ys)) l))"
    using xs(2) ys(2,4) by fastforce
  then show ?thesis unfolding lists_def by (intro exI [of _ "xs @ ys"]) (simp add: xs(1) ys(1))
qed

section \<open>Every operation keeps the lists\<close>

lemma here_update: "fst ` set (AList.update i m ms) = insert i (fst ` set ms)"
  by (induction ms) auto

lemma here_delete: "fst ` set (AList.delete i ms) = fst ` set ms - {i}"
  by (auto simp: AList.delete_eq image_iff)

lemma listing_snapshot:
  assumes "books_ok a"
  shows "listing a (map mb_id (snapshot_members a))"
proof -
  have roll: "distinct (map fst (ac_members a))" "\<forall>(i, m) \<in> set (ac_members a). id_id (rt_identity m) = i"
    using assms by (simp_all add: books_ok_def roll_ok_def)
  have ids: "mb_id (member_view r x) = fst x" if "x \<in> set (ac_members a)" for r x
    using roll(2) that by (auto simp: member_view_def split: prod.split)
  let ?l = "map (member_view (ac_room a)) (ac_members a)"
  have l: "map mb_id ?l = map fst (ac_members a)" using ids by simp
  have d: "distinct (map mb_id ?l)" unfolding l by (rule roll(1))
  have "distinct (map mb_id (filter P ?l @ filter (\<lambda>x. \<not> P x) ?l))" for P
  proof -
    have "mset (map mb_id (filter P ?l @ filter (\<lambda>x. \<not> P x) ?l)) = mset (map mb_id ?l)"
      by (metis mset_append mset_filter mset_map multiset_partition)
    then show ?thesis using d mset_eq_imp_distinct_iff by blast
  qed
  moreover have "set (map mb_id (filter P ?l @ filter (\<lambda>x. \<not> P x) ?l)) = set (map mb_id ?l)" for P by auto
  ultimately show ?thesis unfolding listing_def snapshot_members_def Let_def using l by (metis list.set_map)
qed

lemma lists_join:
  assumes "books_ok a"
  shows "lists w a (snd (join_room_as e i c a))"
proof (cases "sr_Status (ac_room a) = CLOSED_STATUS \<or> member_at (id_id i) a = None \<and> int (length (ac_members a)) \<ge> sr_MaxMembers (ac_room a)")
  case True
  then show ?thesis by (auto simp: join_room_as_def lists_still)
next
  case False
  let ?new = "\<lparr>rt_identity = i, rt_client = c, rt_ready = False\<rparr>"
  let ?ms = "AList.update (id_id i) ?new (ac_members a)"
  define a1 where "a1 = (case member_at (id_id i) a of Some old \<Rightarrow> act [actor_out.Disconnect (rt_client old) 4001] a
      | None \<Rightarrow> a\<lparr>ac_clients := ac_clients a + 1\<rparr>)"
  define a2 where "a2 = a1\<lparr>ac_members := AList.update (id_id i) ?new (ac_members a1)\<rparr>"
  define a3 where "a3 = (if id_id i = sr_HostUserID (ac_room a2) \<and> sr_Status (ac_room a2) = HOST_DISCONNECTED then host_returns e a2 else a2)"
  define a' where "a' = snd (join_room_as e i c a)"
  define pre where "pre = (case member_at (id_id i) a of Some old \<Rightarrow> [actor_out.Disconnect (rt_client old) 4001] | None \<Rightarrow> []) @
      (if id_id i = sr_HostUserID (ac_room a2) \<and> sr_Status (ac_room a2) = HOST_DISCONNECTED then [Db (UpdateRoomStatus OPEN_ROOM)] else [])"
  let ?b = "broadcast_to e (Ev_member_joined i) ?ms" and ?s = "send_to e c (snapshot a3)"
  have a': "a' = broadcast e (Ev_member_joined i) (act ?s a3)"
  proof -
    have "sr_Status (ac_room a) \<noteq> CLOSED_STATUS" "\<not> (member_at (id_id i) a = None \<and> int (length (ac_members a)) \<ge> sr_MaxMembers (ac_room a))"
      using False by blast+
    then show ?thesis
      by (simp only: a'_def join_room_as_def if_False Let_def snd_conv a1_def [symmetric] a2_def [symmetric] a3_def [symmetric])
  qed
  have a1: "ac_members a1 = ac_members a" by (simp add: a1_def split: option.split)
  have a3: "ac_out a3 = ac_out a @ pre" "ac_members a3 = ?ms"
    using a1 by (auto simp: a3_def a2_def pre_def host_returns_def a1_def split: option.split)
  have m': "ac_members a' = ?ms" "ac_out a' = ac_out a @ pre @ ?s @ ?b" using a3 by (simp_all add: a')
  have ok: "books_ok a'" unfolding a'_def by (rule books_join [OF assms])
  have "listing a' (map mb_id (snapshot_members a3))"
  proof -
    have "books_ok a3" using ok a3(2) by (simp add: a' books_ok_def)
    then show ?thesis using listing_snapshot a3(2) m'(1) by (simp add: listing_def)
  qed
  moreover have "id_id i \<in> here a'" unfolding m'(1) here_update by simp
  ultimately have snap: "listing a' (ids_step (Member_joined (id_id i) x g) (map mb_id (snapshot_members a3)))" for x g
    by (auto simp: listing_def)
  have join: "listing a' (ids_step (Member_joined (id_id i) x g) l)" if "listing a l" for l x g
    using that unfolding listing_def m'(1) here_update by auto
  have pre: "heard_of w k pre = []" for k by (auto simp: pre_def split: option.split)
  have "cut_off k (pre @ ?s @ ?b) \<or> listing a' (fold ids_step (heard_of w k (pre @ ?s @ ?b)) l)"
    if k: "k \<in> conns a'" and l: "k \<in> conns a \<longrightarrow> listing a l" for k l
  proof (cases "cut_off k ?b")
    case no: False
    have kb: "k \<in> (\<lambda>x. rt_client (snd x)) ` set ?ms" using k by (simp add: conns_def m'(1))
    have f: "fold ids_step (heard_of w k ?b) l = ids_step (Member_joined (id_id i) (id_nickname i) (id_guest i)) l" for l
      by (rule fold_heard [OF kb no]) auto
    show ?thesis
    proof (cases "k = c")
      case True
      then have "\<not> se_slow e c" using broadcast_reaches [OF kb, of e "Ev_member_joined i"] no by blast
      then show ?thesis
        using True snap f by (simp add: pre send_to_def snapshot_def del: ids_step.simps(2))
    next
      case other: False
      have "k \<in> conns a" using kb other conns_update [of "id_id i" ?new "ac_members a"] by (auto simp: conns_def)
      then show ?thesis
        using other join [of l] l f by (simp add: pre send_to_def del: ids_step.simps(2))
    qed
  qed simp
  then show ?thesis unfolding a'_def [symmetric] lists_def using m'(2) by blast
qed

text \<open>Somebody is taken off the list.\<close>

lemma lists_left:
  assumes "ac_out b = ac_out a @ pre" and "\<And>c. heard_of w c pre = []" and "ac_members b = AList.delete i (ac_members a)"
  shows "lists w a (broadcast e (Ev_member_left i) b)"
proof -
  let ?b = "broadcast_to e (Ev_member_left i) (ac_members b)" and ?a' = "broadcast e (Ev_member_left i) b"
  have left: "listing ?a' (ids_step (Member_left i) l)" if "listing a l" for l
    using that unfolding listing_def fields assms(3) here_delete by auto
  have "cut_off k (pre @ ?b) \<or> listing ?a' (fold ids_step (heard_of w k (pre @ ?b)) l)"
    if k: "k \<in> conns ?a'" and l: "k \<in> conns a \<longrightarrow> listing a l" for k l
  proof (cases "cut_off k ?b")
    case no: False
    have kb: "k \<in> (\<lambda>x. rt_client (snd x)) ` set (ac_members b)" using k by (simp add: conns_def)
    have f: "fold ids_step (heard_of w k ?b) l = ids_step (Member_left i) l" for l
      by (rule fold_heard [OF kb no]) auto
    have "k \<in> conns a" using kb conns_delete [of i "ac_members a"] by (auto simp: conns_def assms(3))
    then show ?thesis using left [of l] l f by (simp add: assms(2) del: ids_step.simps(3))
  qed simp
  moreover have "ac_out ?a' = ac_out a @ (pre @ ?b)" by (simp add: assms(1))
  ultimately show ?thesis unfolding lists_def by blast
qed

lemma lists_leave: "lists w a (leave_room_as e i c a)"
proof -
  define a1 where "a1 = broadcast e (Ev_member_left i) (a\<lparr>ac_members := AList.delete i (ac_members a), ac_clients := ac_clients a - 1\<rparr>)"
  have l: "lists w a a1" unfolding a1_def by (rule lists_left [of _ _ "[]"]) simp_all
  have "still w a1 (host_leaves e i a1)" unfolding host_leaves_def Let_def by (intro still_rules still_refl) simp
  then show ?thesis
    using lists_before [OF l] l lists_still [OF still_refl]
    by (auto simp: leave_room_as_def a1_def [symmetric] Let_def split: option.split)
qed

lemma lists_kick: "lists w a (snd (kick_member e p a))"
  by (auto simp: kick_member_def Let_def act_def lists_still intro!: lists_left split: option.split)

lemma still_members:
  assumes "member_at i a = Some m" and "rt_client m' = rt_client m"
  shows "still w a (a\<lparr>ac_members := AList.update i m' (ac_members a)\<rparr>)"
proof (rule still_fields)
  have "i \<in> here a" using assms(1) by (force simp: member_at_def dest: map_of_SomeD)
  then show "here (a\<lparr>ac_members := AList.update i m' (ac_members a)\<rparr>) = here a" by (auto simp: here_update)
  show "conns (a\<lparr>ac_members := AList.update i m' (ac_members a)\<rparr>) \<subseteq> conns a"
    using quiet_members [OF assms] by (auto simp: quiet_def)
qed simp

lemma lists_ready: "lists w a (snd (client_ready e i v a))"
proof (cases "decode_ready v")
  case None
  then show ?thesis by (simp add: client_ready_def lists_still)
next
  case (Some p)
  define a1 where "a1 = (case member_at (id_id i) a of None \<Rightarrow> a
      | Some m \<Rightarrow> a\<lparr>ac_members := AList.update (id_id i) (m\<lparr>rt_ready := r_Ready p\<rparr>) (ac_members a)\<rparr>)"
  have q: "still w a a1" by (simp add: a1_def still_members split: option.split)
  have "still w a (publish e f (act [Db c] a1))" for f c by (intro still_rules q) simp
  then show ?thesis using q by (simp add: client_ready_def Some a1_def [symmetric] Let_def lists_still)
qed

lemma lists_close: "lists w a (snd (close_room_now e a))"
proof (cases "se_fails e CloseRoom")
  case (Some m)
  then show ?thesis by (auto simp: close_room_now_def Let_def intro!: lists_still still_rules)
next
  case None
  let ?a' = "snd (close_room_now e a)"
  have "conns ?a' = {}" using None by (simp add: close_room_now_def Let_def conns_def)
  moreover have "\<exists>xs. ac_out ?a' = ac_out a @ xs" using None by (simp add: close_room_now_def Let_def)
  ultimately show ?thesis by (auto simp: lists_def)
qed

lemma lists_playback: "lists w a (snd (command_playback e t p a))"
proof (cases rule: command_playback_cases [of e t p a])
  case (changed b)
  have "still w a b"
    using playback_command_frame(1,2) [of "se_now e" t p a] by (intro still_fields) (simp_all add: changed(2) conns_def)
  then show ?thesis unfolding changed(1) snd_conv by (intro lists_still still_rules) simp_all
next
  case kept
  then show ?thesis
    using playback_command_frame(1,2) [of "se_now e" t p a] by (intro lists_still still_fields) (simp_all add: conns_def)
qed

lemma lists_media: "lists w a (snd (set_media e p a))"
proof (cases "p_MediaID p = [] \<or> p_DurationMs p < 0")
  case False
  have "still w a (persistCheckpoint e (publish e f (act [Db x] a\<lparr>ac_room := r\<rparr>)))" for f x r by (intro still_rules still_refl) simp
  moreover have "still w a (act [Db x] a)" for x by (intro still_rules still_refl) simp
  ultimately show ?thesis using False
    by (simp only: set_media_def if_False Let_def) (simp add: lists_still del: fields publish_fields split: option.split)
qed (simp add: set_media_def lists_still)

lemma lists_transfer: "lists w a (snd (transfer_host e p a))"
  by (auto simp: transfer_host_def Let_def intro!: lists_still still_rules split: option.split)

lemma lists_apply: "lists w a (snd (apply_command e i t v a))"
  by (simp add: apply_command_def lists_ready lists_media lists_transfer lists_kick lists_close lists_playback lists_still split: option.split)

lemma lists_msg:
  assumes "books_ok a"
  shows "lists w a (receive_msg e m a)"
proof (cases m)
  case (Expire_host i)
  have "still w a (expire_host e i (a\<lparr>ac_expiring := x\<rparr>))" for x
    by (auto simp: expire_host_def intro!: still_rules split: option.split)
  then show ?thesis unfolding Expire_host receive_msg.simps by (rule lists_still)
next
  case (Ready_req i b)
  then show ?thesis by (auto intro!: lists_still still_members split: option.split)
next
  case Close_req
  have "heard_of w c (concat (map (\<lambda>(i, m). send_to e (rt_client m) Ev_shutdown @ [actor_out.Disconnect (rt_client m) n]) ms)) = []" for c n ms
    by (induction ms) (auto simp: send_to_def)
  then show ?thesis unfolding Close_req receive_msg.simps shut_down_def Let_def by (intro lists_still still_rules still_refl) simp
next
  case (Grace_over h)
  then show ?thesis by (auto intro!: lists_still still_rules split: option.split)
next
  case (Rename_req title)
  have "still w a (broadcast e (Ev_room_updated title) (act [Db x] a\<lparr>ac_room := r\<rparr>))" for x r by (intro still_rules still_refl) simp_all
  moreover have "still w a (act [Db x] a)" for x by (intro still_rules still_refl) simp
  ultimately show ?thesis
    by (simp add: Rename_req rename_room_def Let_def lists_still del: fields split: option.split)
next
  case (Join_req i c)
  then show ?thesis using lists_join [OF assms] by simp
next
  case Reopen_req
  then show ?thesis by (auto simp: reopen_room_def Let_def intro!: lists_still still_rules split: option.split)
qed (auto simp: lists_leave lists_apply intro!: lists_still still_rules)

definition listed :: "(ServerRoom \<Rightarrow> Room) \<Rightarrow> Actor \<Rightarrow> bool" where
  "listed w a \<longleftrightarrow> books_ok a \<and>
     (\<forall>c \<in> conns a. cut_off c (ac_out a) \<or> (\<forall>l. listing a (fold ids_step (heard_of w c (ac_out a)) l)))"

lemma listed_step:
  assumes "listed w a" and "lists w a a'" and "books_ok a'"
  shows "listed w a'"
proof -
  obtain xs where xs: "ac_out a' = ac_out a @ xs"
    "\<forall>c \<in> conns a'. cut_off c xs \<or> (\<forall>l. (c \<in> conns a \<longrightarrow> listing a l) \<longrightarrow> listing a' (fold ids_step (heard_of w c xs) l))"
    using assms(2) by (auto simp: lists_def)
  show ?thesis using assms(1,3) xs(2) by (auto simp: listed_def xs(1))
qed

interpretation listed_inv: invariant_system actor_init actor_trans "listed w" for w
proof unfold_locales
  show "listed w a" if init: "actor_init a" for a
  proof -
    obtain r ck where "a = NewActor r ck" using init by (auto simp: actor_init_def)
    then have "ac_members a = []" by (simp add: NewActor_def Let_def)
    then show ?thesis using actor_ok_init [OF init] by (simp add: listed_def conns_def actor_ok_def)
  qed
  show "listed w a'" if ok: "listed w a" and tr: "actor_trans a x a'" for a x a'
  proof -
    from tr obtain e m where "a' = receive_msg e m a" by (rule actor_transE)
    then show ?thesis using ok listed_step [OF ok] lists_msg books_msg by (simp add: listed_def)
  qed
qed

text \<open>
  C5. Every page lists exactly who is there: in whatever order members, timers, commands and answers of the
  database reach the server, the page of a member that is connected and not cut off as too slow, once it has
  handled the room's messages about members, with any other messages between them, lists each member of the
  room once and nobody else, whatever it listed before.
\<close>

theorem page_lists_members:
  assumes "actor_reachable a" and "member_at i a = Some m" and "\<not> cut_off (rt_client m) (ac_out a)"
    and "filter about_members (map snd l) = heard_of w (rt_client m) (ac_out a)"
  shows "distinct (map mb_id (pg_members (page_run l pg))) \<and>
         mb_id ` set (pg_members (page_run l pg)) = fst ` set (ac_members a)"
proof -
  have "rt_client m \<in> conns a" using assms(2) by (force simp: conns_def member_at_def dest: map_of_SomeD)
  then have "listing a (map mb_id (pg_members (page_run l pg)))"
    using listed_inv.inv_reachable [OF assms(1), of w] assms(3) by (auto simp: listed_def page_ids assms(4))
  then show ?thesis by (simp add: listing_def)
qed

definition demo_wire :: "ServerRoom \<Rightarrow> Room" where
  "demo_wire r = \<lparr>rm_id = sr_ID r, rm_code = ''ABC'', rm_title = sr_Title r, hostUserId = sr_HostUserID r, rm_mediaId = sr_MediaID r,
     rm_status = sr_Status r, maxMembers = of_int (sr_MaxMembers r), rm_createdAtMs = 0\<rparr>"

theorem page_lists_members_witness:
  "\<forall>pg :: Page. mb_id ` set (pg_members (page_run (map (Pair 0) (heard_of demo_wire 2 (ac_out demo_actor))) pg)) = {''u'', ''v''}"
proof
  fix pg :: Page
  have m: "member_at ''v'' demo_actor = Some \<lparr>rt_identity = demo_person ''v'', rt_client = 2, rt_ready = False\<rparr>"
    "\<not> cut_off 2 (ac_out demo_actor)" "list_all about_members (heard_of demo_wire 2 (ac_out demo_actor))"
    "map fst (ac_members demo_actor) = [''u'', ''v'']"
    by code_simp+
  then have hr: "fst ` set (ac_members demo_actor) = {''u'', ''v''}" by (metis list.set_map list.simps(15) set_empty)
  have f: "filter about_members (map snd (map (Pair 0) (heard_of demo_wire 2 (ac_out demo_actor)))) = heard_of demo_wire 2 (ac_out demo_actor)"
    using m(3) by (simp add: comp_def list_all_iff)
  have c: "\<not> cut_off (rt_client \<lparr>rt_identity = demo_person ''v'', rt_client = 2, rt_ready = False\<rparr>) (ac_out demo_actor)"
    using m(2) by simp
  show "mb_id ` set (pg_members (page_run (map (Pair 0) (heard_of demo_wire 2 (ac_out demo_actor))) pg)) = {''u'', ''v''}"
    using page_lists_members [OF demo_actor_reachable m(1) c, of "map (Pair 0) (heard_of demo_wire 2 (ac_out demo_actor))" demo_wire pg] f
    unfolding hr RtMember.simps by blast
qed

section \<open>A host that comes back\<close>

lemma not_cut: "\<not> se_slow e c \<Longrightarrow> \<not> cut_off c (broadcast_to e ev ms)"
  by (induction ms) (auto simp: broadcast_Cons)

lemma update_keeps: "x \<in> set xs \<Longrightarrow> fst x \<noteq> i \<Longrightarrow> x \<in> set (AList.update i m xs)"
  by (induction xs) auto

lemma page_run_append: "page_run (map (Pair t) (xs @ ys)) pg = page_run (map (Pair t) ys) (page_run (map (Pair t) xs) pg)"
  by (simp add: page_run_def)

lemma page_run_same:
  fixes pg :: "'a Page_scheme"
  assumes "\<And>pg :: 'a Page_scheme. on_room_message t m (on_room_message t m pg) = on_room_message t m pg"
  shows "page_run (map (Pair t) (concat (replicate (Suc n) [m]))) pg = on_room_message t m pg"
proof -
  have "page_run (map (Pair t) ms) pg = fold (on_room_message t) ms pg" for ms and pg :: "'a Page_scheme"
    by (induction ms arbitrary: pg) (simp_all add: page_run_def)
  then show ?thesis by (simp only: fold_same [of "on_room_message t" m, OF assms])
qed

text \<open>
  C40. A host that comes back is listed as a plain member: when the host of an open room loses the connection and
  connects again, the room is open and it is the host as before, but everybody else's page takes the entry off
  and puts it back with the role of a member, and no message corrects it.
\<close>

theorem returned_host_plain:
  assumes "actor_reachable a" and "sr_Status (ac_room a) = OPEN_ROOM" and "member_at (id_id h) a = Some m"
    and "id_id h = sr_HostUserID (ac_room a)" and "member_at k a = Some g" and "k \<noteq> id_id h"
    and "\<not> se_slow e1 (rt_client g)" and "\<not> se_slow e2 (rt_client g)" and "n \<noteq> rt_client g"
  shows "let a2 = receive_msg e2 (Join_req h n) (receive_msg e1 (Leave_req (id_id h) None) a);
             pg' = page_run (map (Pair t) (heard_of w (rt_client g) (drop (length (ac_out a)) (ac_out a2)))) pg
         in sr_HostUserID (ac_room a2) = id_id h \<and> sr_Status (ac_room a2) = OPEN_ROOM \<and> member_at (id_id h) a2 \<noteq> None \<and>
            map mb_role (filter (\<lambda>x. mb_id x = id_id h) (pg_members pg')) = [Member_role]"
proof -
  let ?h = "id_id h" and ?c = "rt_client g"
  define b where "b = broadcast e1 (Ev_member_left ?h) (a\<lparr>ac_members := AList.delete ?h (ac_members a), ac_clients := ac_clients a - 1\<rparr>)"
  define a1 where "a1 = host_leaves e1 ?h b"
  have a1: "receive_msg e1 (Leave_req ?h None) a = a1"
    using assms(2-4) by (simp add: a1_def b_def leave_room_as_def Let_def)
  have "still w b a1" unfolding a1_def host_leaves_def Let_def by (intro still_rules still_refl) simp
  then obtain ys where ys: "ac_out a1 = ac_out b @ ys" "heard_of w ?c ys = []" by (auto simp: still_def)
  have m1: "ac_members a1 = AList.delete ?h (ac_members a)" "ac_room a1 = (ac_room a)\<lparr>sr_Status := HOST_DISCONNECTED\<rparr>"
    by (simp_all add: a1_def b_def host_leaves_def Let_def)
  have k: "(k, g) \<in> set (AList.delete ?h (ac_members a))"
    using assms(5,6) by (auto simp: member_at_def AList.delete_eq dest: map_of_SomeD)
  have "books_ok a" using listed_inv.inv_reachable [OF assms(1), of w] by (simp add: listed_def)
  then have "int (length (ac_members a)) \<le> max 0 (sr_MaxMembers (ac_room a))" "distinct (map fst (ac_members a))"
    by (simp_all add: books_ok_def roll_ok_def)
  then have room: "int (length (ac_members a1)) < sr_MaxMembers (ac_room a1)"
    using length_delete [of "ac_members a" ?h m] assms(3) by (auto simp: m1 member_at_def)
  define ms where "ms = AList.update ?h \<lparr>rt_identity = h, rt_client = n, rt_ready = False\<rparr> (ac_members a1)"
  have none: "member_at ?h a1 = None" by (simp add: member_at_def m1 delete_conv')
  obtain sn where a2: "ac_out (snd (join_room_as e2 h n a1)) =
      ac_out a1 @ [Db (UpdateRoomStatus OPEN_ROOM)] @ send_to e2 n sn @ broadcast_to e2 (Ev_member_joined h) ms"
    "ac_room (snd (join_room_as e2 h n a1)) = ac_room a" "ac_members (snd (join_room_as e2 h n a1)) = ms"
    using none room assms(2,4)
    by (auto simp: join_room_as_def host_returns_def Let_def m1 ms_def)
  have k2: "?c \<in> (\<lambda>x. rt_client (snd x)) ` set ms"
  proof -
    have "(k, g) \<in> set ms" unfolding ms_def m1 by (rule update_keeps) (use k assms(6) in simp_all)
    then show ?thesis by force
  qed
  obtain n1 where n1: "heard_of w ?c (broadcast_to e1 (Ev_member_left ?h) (AList.delete ?h (ac_members a))) = concat (replicate (Suc n1) [Member_left ?h])"
    using heard_broadcast [OF _ not_cut [OF assms(7)], of "AList.delete ?h (ac_members a)" w "Ev_member_left ?h"] k by force
  obtain n2 where n2: "heard_of w ?c (broadcast_to e2 (Ev_member_joined h) ms) = concat (replicate (Suc n2) [Member_joined ?h (id_nickname h) (id_guest h)])"
    using heard_broadcast [OF k2 not_cut [OF assms(8)], of w "Ev_member_joined h"] by auto
  have heard: "heard_of w ?c (drop (length (ac_out a)) (ac_out (snd (join_room_as e2 h n a1)))) =
      concat (replicate (Suc n1) [Member_left ?h]) @ concat (replicate (Suc n2) [Member_joined ?h (id_nickname h) (id_guest h)])"
    using assms(9) ys(2) n1 n2 by (simp add: a2(1) ys(1) b_def send_to_def del: replicate_Suc)
  have pg: "page_run (map (Pair t) (heard_of w ?c (drop (length (ac_out a)) (ac_out (snd (join_room_as e2 h n a1)))))) pg =
      on_room_message t (Member_joined ?h (id_nickname h) (id_guest h)) (on_room_message t (Member_left ?h) pg)"
  proof -
    have "on_room_message t (Member_left i) (on_room_message t (Member_left i) q) = on_room_message t (Member_left i) q"
      "on_room_message t (Member_joined i x y) (on_room_message t (Member_joined i x y) q) = on_room_message t (Member_joined i x y) q"
      for i x y and q :: "'a Page_scheme"
      by (simp_all add: member_left_def member_joined_def)
    then show ?thesis by (simp only: heard page_run_append page_run_same)
  qed
  show ?thesis
    unfolding Let_def a1 receive_msg.simps(1) pg
    using assms(2,4) a2(2,3) by (auto simp: member_left_def member_joined_def list_ex_iff filter_False member_at_def ms_def update_conv' a2(3))
qed

theorem returned_host_plain_witness:
  "\<forall>pg :: Page. map mb_role (filter (\<lambda>x. mb_id x = ''u'')
     (pg_members (page_run (map (Pair 0) (heard_of demo_wire 2 (drop (length (ac_out demo_actor))
        (ac_out (receive_msg (calm 6000) (Join_req (demo_person ''u'') 3) (receive_msg (calm 5000) (Leave_req ''u'' None) demo_actor)))))) pg))) = [Member_role]"
proof
  fix pg :: Page
  have a: "sr_Status (ac_room demo_actor) = OPEN_ROOM" "id_id (demo_person ''u'') = sr_HostUserID (ac_room demo_actor)"
    "member_at ''u'' demo_actor = Some \<lparr>rt_identity = demo_person ''u'', rt_client = 1, rt_ready = False\<rparr>"
    "member_at ''v'' demo_actor = Some \<lparr>rt_identity = demo_person ''v'', rt_client = 2, rt_ready = False\<rparr>"
    by code_simp+
  have i: "id_id (demo_person ''u'') = ''u''" by (simp add: demo_person_def)
  show "map mb_role (filter (\<lambda>x. mb_id x = ''u'')
     (pg_members (page_run (map (Pair 0) (heard_of demo_wire 2 (drop (length (ac_out demo_actor))
        (ac_out (receive_msg (calm 6000) (Join_req (demo_person ''u'') 3) (receive_msg (calm 5000) (Leave_req ''u'' None) demo_actor)))))) pg))) = [Member_role]"
    using returned_host_plain [OF demo_actor_reachable a(1) _ a(2) a(4), of _ "calm 5000" "calm 6000" 3 0 demo_wire pg] a(3)
    by (simp add: i calm_def Let_def del: receive_msg.simps)
qed

end
