(* ===== verification/WebSocketClient_Inv.thy ===== *)
theory WebSocketClient_Inv
  imports WebSocketClient
begin

text \<open>
  The invariant of the connection: its timers are known to its fields and to the commands that wait,
  a running client either has a socket or waits to reconnect, and every promise it handed out is
  waiting or was settled exactly once.
\<close>

section \<open>Live timers as a map\<close>

abbreviation lmap :: "'k timers \<Rightarrow> nat \<rightharpoonup> 'k timer" where
  "lmap ts \<equiv> map_of (live ts)"

definition bounded :: "'k timers \<Rightarrow> bool" where
  "bounded ts \<longleftrightarrow> (\<forall>h \<ge> nextHandle ts. lmap ts h = None)"

lemma lmap_clearTimer [simp]: "lmap (clearTimer h ts) = (lmap ts)(h := None)"
proof -
  have "map_of (filter (\<lambda>x. fst x \<noteq> h) xs) = (map_of xs)(h := None)" for xs :: "(nat \<times> 'a timer) list"
    by (induction xs) auto
  then show ?thesis by (simp add: clearTimer_def)
qed

lemma next_clear [simp]: "nextHandle (clearTimer h ts) = nextHandle ts" "nextHandle (clearField f ts) = nextHandle ts"
  by (simp_all add: clearTimer_def clearField_def split: option.splits)

lemma lmap_clearField: "lmap (clearField f ts) = (case f of None \<Rightarrow> lmap ts | Some h \<Rightarrow> (lmap ts)(h := None))"
  by (simp add: clearField_def split: option.splits)

lemma lmap_arm:
  "bounded ts \<Longrightarrow> lmap (snd (arm k d p ts)) = (lmap ts)(nextHandle ts \<mapsto> \<lparr>callback = k, due = d, period = p\<rparr>)"
  by (rule ext) (auto simp: arm_def bounded_def map_add_def split: option.splits)

lemma arm_next [simp]: "nextHandle (snd (arm k d p ts)) = Suc (nextHandle ts)" "fst (arm k d p ts) = nextHandle ts"
  by (simp_all add: arm_def)

lemma bounded_arm: "bounded ts \<Longrightarrow> bounded (snd (arm k d p ts))"
  by (simp add: bounded_def lmap_arm [unfolded bounded_def])

lemma bounded_clear: "bounded ts \<Longrightarrow> bounded (clearTimer h ts)" "bounded ts \<Longrightarrow> bounded (clearField f ts)"
  by (auto simp: bounded_def lmap_clearField split: option.splits)

lemma clear_all:
  "lmap (fold clearTimer hs ts) = lmap ts |` (- set hs)" "nextHandle (fold clearTimer hs ts) = nextHandle ts"
  by (induction hs arbitrary: ts) (auto simp: restrict_map_def fun_eq_iff)

text \<open>Which timer ran, and what is left of it.\<close>

lemma lmap_expire:
  assumes "expire h now ts = Some (k, ts')"
  obtains t where "lmap ts h = Some t" "callback t = k" "due t \<le> now" "nextHandle ts' = nextHandle ts"
    "lmap ts' = (case period t of None \<Rightarrow> (lmap ts)(h := None) | Some p \<Rightarrow> (lmap ts)(h \<mapsto> t\<lparr>due := now + p\<rparr>))"
proof -
  from assms obtain t where t: "lmap ts h = Some t" "callback t = k" "due t \<le> now"
    "ts' = (case period t of None \<Rightarrow> clearTimer h ts
      | Some p \<Rightarrow> ts\<lparr>live := map (\<lambda>x. if fst x = h then (h, t\<lparr>due := now + p\<rparr>) else x) (live ts)\<rparr>)"
    by (auto simp: expire_def split: option.splits if_splits)
  have upd: "map_of (map (\<lambda>x. if fst x = h then (h, u) else x) xs) =
      (if h \<in> fst ` set xs then (map_of xs)(h \<mapsto> u) else map_of xs)" for xs and u :: "'a timer"
    by (induction xs) auto
  have "h \<in> fst ` set (live ts)" using map_of_SomeD [OF t(1)] by force
  then show thesis using that [of t] t by (auto simp: upd split: option.splits)
qed

section \<open>Timers of the connection\<close>

definition kind :: "'k timers \<Rightarrow> nat \<rightharpoonup> 'k" where
  "kind ts h = map_option callback (lmap ts h)"

lemma kind_clearTimer [simp]: "kind (clearTimer h ts) = (kind ts)(h := None)"
  by (rule ext) (simp add: kind_def)

lemma kind_clearField: "kind (clearField f ts) = (case f of None \<Rightarrow> kind ts | Some h \<Rightarrow> (kind ts)(h := None))"
  by (simp add: clearField_def split: option.splits)

lemma kind_arm: "bounded ts \<Longrightarrow> kind (snd (arm k d p ts)) = (kind ts)(nextHandle ts \<mapsto> k)"
  by (rule ext) (simp add: kind_def lmap_arm)

lemma kind_clear_all: "kind (fold clearTimer hs ts) = kind ts |` (- set hs)"
  by (rule ext) (simp add: kind_def clear_all restrict_map_def)

lemma kind_next: "bounded ts \<Longrightarrow> kind ts (nextHandle ts) = None"
  by (simp add: kind_def bounded_def)

lemma bounded_kind: "bounded ts \<longleftrightarrow> (\<forall>h \<ge> nextHandle ts. kind ts h = None)"
  by (simp add: bounded_def kind_def)

text \<open>Only the resynchronisation repeats.\<close>

definition periods_ok :: "ws_timer timers \<Rightarrow> bool" where
  "periods_ok ts \<longleftrightarrow> (\<forall>h t. lmap ts h = Some t \<longrightarrow> (period t = None) = (callback t \<noteq> ResyncT))"

lemma periods_clear: "periods_ok ts \<Longrightarrow> periods_ok (clearTimer h ts)" "periods_ok ts \<Longrightarrow> periods_ok (clearField f ts)"
  by (auto simp: periods_ok_def lmap_clearField split: option.splits)

lemma periods_arm:
  "bounded ts \<Longrightarrow> periods_ok ts \<Longrightarrow> (p = None) = (k \<noteq> ResyncT) \<Longrightarrow> periods_ok (snd (arm k d p ts))"
  by (simp add: periods_ok_def lmap_arm)

text \<open>Every live timer is known to its field or to the command that waits for it, and only those are live.\<close>

definition t_ok :: "ws_timer timers \<Rightarrow> nat option \<Rightarrow> nat option \<Rightarrow> nat option \<Rightarrow> nat option \<Rightarrow> (string \<times> nat) list \<Rightarrow> bool" where
  "t_ok ts rec res stab sock pend \<longleftrightarrow>
     bounded ts \<and> periods_ok ts \<and> distinct (map fst pend) \<and>
     (\<forall>h. kind ts h = Some ReconnectT \<longleftrightarrow> rec = Some h) \<and>
     (\<forall>h. kind ts h = Some ResyncT \<longleftrightarrow> res = Some h) \<and>
     (\<forall>h i. kind ts h = Some (AckT i) \<longleftrightarrow> (i, h) \<in> set pend) \<and>
     (\<forall>h s. kind ts h = Some (StableT s) \<longrightarrow> stab = Some h \<and> sock = Some s) \<and>
     (\<forall>h. stab = Some h \<longrightarrow> h < nextHandle ts \<and> (\<forall>k. kind ts h = Some k \<longrightarrow> (\<exists>s. k = StableT s)))"

lemma t_kinds:
  assumes "t_ok ts rec res stab sock pend"
  shows "rec = Some h \<Longrightarrow> kind ts h = Some ReconnectT" "res = Some h \<Longrightarrow> kind ts h = Some ResyncT"
    "(j, h) \<in> set pend \<Longrightarrow> kind ts h = Some (AckT j)" "stab = Some h \<Longrightarrow> kind ts h = Some k \<Longrightarrow> \<exists>s. k = StableT s"
    "kind ts (nextHandle ts) = None" "stab = Some h \<Longrightarrow> h < nextHandle ts"
  using assms by (auto simp: t_ok_def kind_next)

lemma t_disj:
  assumes "t_ok ts rec res stab sock pend"
  shows "\<forall>a. rec = Some a \<longrightarrow> res \<noteq> Some a \<and> stab \<noteq> Some a \<and> (\<forall>i. (i, a) \<notin> set pend)"
    and "\<forall>a. res = Some a \<longrightarrow> rec \<noteq> Some a \<and> stab \<noteq> Some a \<and> (\<forall>i. (i, a) \<notin> set pend)"
    and "\<forall>a. stab = Some a \<longrightarrow> rec \<noteq> Some a \<and> res \<noteq> Some a \<and> (\<forall>i. (i, a) \<notin> set pend)"
  using t_kinds [OF assms] by fastforce+

lemma t_next:
  assumes "t_ok ts rec res stab sock pend"
  shows "rec \<noteq> Some (nextHandle ts) \<and> res \<noteq> Some (nextHandle ts) \<and> stab \<noteq> Some (nextHandle ts) \<and>
         (\<forall>i. (i, nextHandle ts) \<notin> set pend)"
  using t_kinds [OF assms] by fastforce

lemma t_clear_rec: "t_ok ts rec res stab sock pend \<Longrightarrow> t_ok (clearField rec ts) None res stab sock pend"
  by (frule t_disj(1), cases rec) (auto simp: t_ok_def kind_clearField bounded_clear periods_clear)

lemma t_clear_res: "t_ok ts rec res stab sock pend \<Longrightarrow> t_ok (clearField res ts) rec None stab sock pend"
  by (frule t_disj(2), cases res) (auto simp: t_ok_def kind_clearField bounded_clear periods_clear)

lemma t_clear_stab: "t_ok ts rec res stab sock pend \<Longrightarrow> t_ok (clearField stab ts) rec res None sock' pend"
  by (frule t_disj(3), cases stab) (auto simp: t_ok_def kind_clearField bounded_clear periods_clear)

lemma t_reject:
  assumes "t_ok ts rec res stab sock pend"
  shows "t_ok (fold clearTimer (map snd pend) ts) rec res stab sock []"
proof -
  let ?ts = "fold clearTimer (map snd pend) ts"
  have acks: "h \<in> snd ` set pend \<longleftrightarrow> (\<exists>i. kind ts h = Some (AckT i))" for h
  proof -
    have "(kind ts h = Some (AckT i)) = ((i, h) \<in> set pend)" for i using assms by (simp add: t_ok_def)
    then show ?thesis by force
  qed
  have eq: "kind ?ts h = (if h \<in> snd ` set pend then None else kind ts h)" for h
    by (simp add: kind_clear_all restrict_map_def)
  have k: "kind ?ts h = Some k \<longleftrightarrow> kind ts h = Some k \<and> (\<forall>i. k \<noteq> AckT i)" for h k
  proof (cases "h \<in> snd ` set pend")
    case True
    then obtain i where "kind ts h = Some (AckT i)" using acks by blast
    then show ?thesis using True eq by auto
  next
    case False
    then have "\<forall>i. kind ts h \<noteq> Some (AckT i)" using acks by blast
    then show ?thesis using False eq by auto
  qed
  have "periods_ok ?ts" "bounded ?ts"
    using assms by (auto simp: t_ok_def periods_ok_def bounded_def clear_all restrict_map_def)
  then show ?thesis using assms by (simp add: t_ok_def k clear_all)
qed

lemma t_arm_rec:
  "t_ok ts None res stab sock pend \<Longrightarrow>
   t_ok (snd (arm ReconnectT d None ts)) (Some (nextHandle ts)) res stab sock pend"
  by (frule t_next) (auto simp: t_ok_def kind_arm bounded_arm periods_arm kind_next less_Suc_eq)

lemma t_arm_res:
  "t_ok ts rec None stab sock pend \<Longrightarrow>
   t_ok (snd (arm ResyncT d (Some p) ts)) rec (Some (nextHandle ts)) stab sock pend"
  by (frule t_next) (auto simp: t_ok_def kind_arm bounded_arm periods_arm kind_next less_Suc_eq)

lemma t_arm_stab:
  "t_ok ts rec res None (Some s) pend \<Longrightarrow>
   t_ok (snd (arm (StableT s) d None ts)) rec res (Some (nextHandle ts)) (Some s) pend"
  by (frule t_next) (auto simp: t_ok_def kind_arm bounded_arm periods_arm kind_next less_Suc_eq)

lemma t_arm_ping:
  "t_ok ts rec res stab sock pend \<Longrightarrow> t_ok (snd (arm PingT d None ts)) rec res stab sock pend"
  by (frule t_next) (auto simp: t_ok_def kind_arm bounded_arm periods_arm kind_next less_Suc_eq)

lemma t_arm_ack:
  assumes "t_ok ts rec res stab sock pend" and "i \<notin> fst ` set pend"
  shows "t_ok (snd (arm (AckT i) d None ts)) rec res stab sock (AList.update i (nextHandle ts) pend)"
proof -
  have "AList.update i h pend = pend @ [(i, h)]" for h
    using assms(2) by (induction pend) auto
  then show ?thesis
    using assms t_next [OF assms(1)] by (auto simp: t_ok_def kind_arm bounded_arm periods_arm kind_next less_Suc_eq)
qed

lemma t_settle:
  assumes "t_ok ts rec res stab sock pend" and "map_of pend i = Some h"
  shows "t_ok (clearTimer h ts) rec res stab sock (AList.delete i pend)"
proof -
  have d: "distinct (map fst pend)" and ack: "\<And>h i. kind ts h = Some (AckT i) \<longleftrightarrow> (i, h) \<in> set pend"
    using assms(1) by (simp_all add: t_ok_def)
  have h: "(i, h) \<in> set pend" using assms(2) by (rule map_of_SomeD)
  then have kh: "kind ts h = Some (AckT i)" by (simp add: ack)
  have "kind ts h' \<noteq> Some (AckT i)" if "h' \<noteq> h" for h'
    using that h d unfolding ack by (metis eq_key_imp_eq_value)
  then have k: "kind (clearTimer h ts) h' = Some k \<longleftrightarrow> kind ts h' = Some k \<and> k \<noteq> AckT i" for h' k
    using kh by (cases "h' = h") (simp, fastforce)
  have "set (AList.delete i pend) = {x \<in> set pend. fst x \<noteq> i}" by (auto simp: AList.delete_eq)
  then show ?thesis
    using assms(1) by (simp add: t_ok_def k bounded_clear periods_clear distinct_delete del: kind_clearTimer)
qed

lemma t_sock: "t_ok ts rec res None sock pend \<Longrightarrow> t_ok ts rec res None sock' pend"
  by (auto simp: t_ok_def)

section \<open>The invariant\<close>

definition ws_timers_ok :: "WS \<Rightarrow> bool" where
  "ws_timers_ok w \<longleftrightarrow>
     t_ok (ws_timers w) (ws_reconnectTimer w) (ws_resyncTimer w) (ws_stableTimer w) (ws_socket w) (ws_pending w)"

definition ws_conn_ok :: "WS \<Rightarrow> bool" where
  "ws_conn_ok w \<longleftrightarrow>
     (ws_socket w = None) = (ws_stopped w \<or> ws_reconnectTimer w \<noteq> None) \<and>
     (ws_stopped w \<longrightarrow> ws_reconnectTimer w = None) \<and>
     (ws_socket w = None \<longrightarrow> ws_pending w = [] \<and> ws_resyncTimer w = None \<and> ws_stableTimer w = None) \<and>
     (\<forall>s. ws_socket w = Some s \<longrightarrow> ready s w \<noteq> CLOSED \<and>
        (ready s w = CONNECTING \<longrightarrow> ws_resyncTimer w = None \<and> ws_stableTimer w = None)) \<and>
     (\<forall>s. s \<in> fst ` set (ws_sockets w) \<longleftrightarrow> s < length (ws_sockets w))"

text \<open>The promises handed out, and those settled, in the order in which that happened.\<close>

definition issued :: "ws_effect list \<Rightarrow> string list" where
  "issued l = concat (map (\<lambda>x. case x of Awaiting i \<Rightarrow> [i] | _ \<Rightarrow> []) l)"

definition settled :: "ws_effect list \<Rightarrow> string list" where
  "settled l = concat (map (\<lambda>x. case x of Resolve i \<Rightarrow> [i] | Reject i r \<Rightarrow> [i] | _ \<Rightarrow> []) l)"

lemma issued_simps [simp]: "issued [] = []" "issued (a @ b) = issued a @ issued b" "issued (x # y # b) = issued [x] @ issued (y # b)"
  by (simp_all add: issued_def)

lemma settled_simps [simp]:
  "settled [] = []" "settled (a @ b) = settled a @ settled b" "settled (x # y # b) = settled [x] @ settled (y # b)"
  by (simp_all add: settled_def)

definition ws_promises_ok :: "WS \<Rightarrow> bool" where
  "ws_promises_ok w \<longleftrightarrow>
     distinct (issued (ws_log w)) \<and> distinct (settled (ws_log w)) \<and>
     set (issued (ws_log w)) = fst ` set (ws_pending w) \<union> set (settled (ws_log w)) \<and>
     fst ` set (ws_pending w) \<inter> set (settled (ws_log w)) = {}"

definition ws_ok :: "WS \<Rightarrow> bool" where
  "ws_ok w \<longleftrightarrow> ws_timers_ok w \<and> ws_conn_ok w \<and> ws_promises_ok w"

lemmas ws_ok_defs = ws_ok_def ws_timers_ok_def ws_conn_ok_def ws_promises_ok_def

section \<open>Timers that run\<close>

lemma clearTimer_twice: "clearTimer h (clearTimer h ts) = clearTimer h ts"
  by (simp add: clearTimer_def)

lemma expire_once:
  assumes "expire h now ts = Some (k, ts')" and "periods_ok ts" and "k \<noteq> ResyncT"
  shows "ts' = clearTimer h ts \<and> kind ts h = Some k"
proof -
  from assms(1) obtain t where t: "lmap ts h = Some t" "callback t = k"
    by (auto simp: expire_def split: option.splits if_splits)
  with assms(2,3) have "period t = None" by (simp add: periods_ok_def)
  with assms(1) t show ?thesis by (auto simp: expire_def kind_def split: if_splits)
qed

lemma t_expire_quiet:
  assumes "t_ok ts rec res stab sock pend" and "kind ts h = Some PingT \<or> kind ts h = Some (StableT s)"
  shows "t_ok (clearTimer h ts) rec res stab sock pend"
proof -
  have "rec \<noteq> Some h" "res \<noteq> Some h" "\<forall>i. (i, h) \<notin> set pend"
    using assms(2) t_kinds(1,2,3) [OF assms(1)] by fastforce+
  then show ?thesis
    using assms(1) by (auto simp: t_ok_def bounded_clear periods_clear)
qed

lemma t_expire_resync:
  assumes "t_ok ts rec res stab sock pend" and ex: "expire h now ts = Some (ResyncT, ts')"
  shows "t_ok ts' rec res stab sock pend"
proof -
  obtain t where t: "lmap ts h = Some t" "callback t = ResyncT" "nextHandle ts' = nextHandle ts"
    and l: "lmap ts' = (case period t of None \<Rightarrow> (lmap ts)(h := None) | Some p \<Rightarrow> (lmap ts)(h \<mapsto> t\<lparr>due := now + p\<rparr>))"
    using ex by (rule lmap_expire)
  have "periods_ok ts" "bounded ts" using assms(1) by (simp_all add: t_ok_def)
  then obtain p where "period t = Some p" using t by (force simp: periods_ok_def)
  with l have l': "lmap ts' = (lmap ts)(h \<mapsto> t\<lparr>due := now + p\<rparr>)" by simp
  then have k: "kind ts' = kind ts" using t by (auto simp: kind_def fun_eq_iff)
  then have "bounded ts'" using \<open>bounded ts\<close> t by (simp add: bounded_kind)
  moreover have "periods_ok ts'"
    using \<open>periods_ok ts\<close> t \<open>period t = Some p\<close> by (auto simp: periods_ok_def l')
  ultimately show ?thesis using assms(1) t by (simp add: t_ok_def k)
qed

section \<open>Operations keep the invariant\<close>

lemma reject_all_eq:
  "reject_all r ps w =
     w\<lparr>ws_timers := fold clearTimer (map snd ps) (ws_timers w),
       ws_log := ws_log w @ map (\<lambda>(i, h). Reject i r) ps\<rparr>"
  by (induction r ps w rule: reject_all.induct) (simp_all add: tell_def)

lemma rejects_log: "issued (map (\<lambda>(i, h). Reject i r) ps) = []" "settled (map (\<lambda>(i, h). Reject i r) ps) = map fst ps"
  by (induction ps) (auto simp: issued_def settled_def)

text \<open>Closing down: the connection's timers and all that waits are gone.\<close>

definition teardown :: "reject_reason \<Rightarrow> WS \<Rightarrow> WS" where
  "teardown r w = rejectPending r (clearConnectionTimers w)"

lemma teardown_eq:
  "teardown r w =
     w\<lparr>ws_timers := fold clearTimer (map snd (ws_pending w))
         (clearField (ws_stableTimer w) (clearField (ws_resyncTimer w) (ws_timers w))),
       ws_log := ws_log w @ map (\<lambda>(i, h). Reject i r) (ws_pending w),
       ws_pending := [], ws_resyncTimer := None, ws_stableTimer := None\<rparr>"
  by (simp add: teardown_def rejectPending_def clearConnectionTimers_def reject_all_eq)

lemma teardown_timers:
  "t_ok (ws_timers w) rec (ws_resyncTimer w) (ws_stableTimer w) sock (ws_pending w) \<Longrightarrow>
   t_ok (ws_timers (teardown r w)) rec None None sock' []"
  by (simp add: teardown_eq) (blast intro: t_reject t_clear_stab t_clear_res)

lemma teardown_promises:
  "ws_promises_ok w \<Longrightarrow> ws_timers_ok w \<Longrightarrow> ws_promises_ok (teardown r w)"
  by (auto simp: ws_promises_ok_def teardown_eq rejects_log ws_timers_ok_def t_ok_def)

lemma promises_cong:
  "ws_log w' = ws_log w \<Longrightarrow> ws_pending w' = ws_pending w \<Longrightarrow> ws_promises_ok w' = ws_promises_ok w"
  by (simp add: ws_promises_ok_def)

lemma promises_tell:
  "ws_promises_ok w \<Longrightarrow> issued [x] = [] \<Longrightarrow> settled [x] = [] \<Longrightarrow> ws_promises_ok (tell x w)"
  by (simp add: ws_promises_ok_def tell_def)

lemma quiet_effects [simp]:
  "issued [OnStatus s] = []" "settled [OnStatus s] = []" "issued [Opened n] = []" "settled [Opened n] = []"
  "issued [SocketClose n c] = []" "settled [SocketClose n c] = []" "issued [SocketSend n t i p] = []"
  "settled [SocketSend n t i p] = []" "issued [Deliver l m] = []" "settled [Deliver l m] = []"
  "issued [Awaiting i] = [i]" "settled [Awaiting i] = []" "issued [Resolve i] = []" "settled [Resolve i] = [i]"
  "issued [Reject i r] = []" "settled [Reject i r] = [i]"
  by (simp_all add: issued_def settled_def)

lemma ready_tell [simp]: "ready s (tell x w) = ready s w"
  by (simp add: ready_def tell_def)

lemma ready_new:
  assumes "\<forall>s. s \<in> fst ` set (ws_sockets w) \<longleftrightarrow> s < length (ws_sockets w)"
  shows "map_of (ws_sockets w @ [(length (ws_sockets w), CONNECTING)]) (length (ws_sockets w)) = Some CONNECTING"
proof -
  have "map_of (ws_sockets w) (length (ws_sockets w)) = None"
    unfolding map_of_eq_None_iff using assms by blast
  then show ?thesis by (simp add: map_add_def)
qed

text \<open>A new socket, for a client that has none and nothing that belongs to one.\<close>

lemma open_socket_ok:
  assumes "t_ok (clearField (ws_reconnectTimer w) (ws_timers w)) None None None None []"
    and "ws_promises_ok w" and "\<not> ws_stopped w" and "ws_pending w = []" and "ws_resyncTimer w = None"
    and "ws_stableTimer w = None" and "\<forall>s. s \<in> fst ` set (ws_sockets w) \<longleftrightarrow> s < length (ws_sockets w)"
  shows "ws_ok (open_socket w)"
proof -
  let ?n = "length (ws_sockets w)"
  let ?w = "w\<lparr>ws_timers := clearField (ws_reconnectTimer w) (ws_timers w), ws_reconnectTimer := None,
    ws_log := ws_log w @ [OnStatus Connecting, Opened ?n],
    ws_sockets := ws_sockets w @ [(?n, CONNECTING)], ws_socket := Some ?n\<rparr>"
  have "open_socket w = ?w"
    using assms(3) by (cases "ws_reconnectTimer w") (simp_all add: open_socket_def tell_def clearField_def Let_def)
  moreover have "ws_timers_ok ?w" using t_sock [OF assms(1)] assms(4-6) by (simp add: ws_timers_ok_def)
  moreover have "ready ?n ?w = CONNECTING" using ready_new [OF assms(7)] by (simp add: ready_def)
  then have "ws_conn_ok ?w" using assms(3-7) by (auto simp: ws_conn_ok_def less_Suc_eq)
  moreover have "ws_promises_ok ?w" using assms(2,4) by (simp add: ws_promises_ok_def)
  ultimately show ?thesis by (simp add: ws_ok_def)
qed

lemma connect_ok:
  assumes "ws_ok w"
  shows "ws_ok (connect w)"
proof (cases "ws_stopped w")
  case True
  then have none: "ws_socket w = None" "ws_reconnectTimer w = None" "ws_pending w = []" "ws_resyncTimer w = None"
    "ws_stableTimer w = None" and keys: "\<forall>s. s \<in> fst ` set (ws_sockets w) \<longleftrightarrow> s < length (ws_sockets w)"
    using assms by (simp_all add: ws_ok_def ws_conn_ok_def)
  have "t_ok (ws_timers w) None None None None []" "ws_promises_ok (w\<lparr>ws_stopped := False\<rparr>)"
    using assms none by (simp_all add: ws_ok_def ws_timers_ok_def ws_promises_ok_def)
  with none keys True show ?thesis
    by (simp add: connect_def open_socket_ok clearField_def)
qed (simp add: connect_def assms)

text \<open>Changes the invariant does not see.\<close>

lemma ws_ok_frame [simp]:
  "ws_ok (w\<lparr>ws_listeners := a\<rparr>) = ws_ok w" "ws_ok (w\<lparr>ws_clock := b\<rparr>) = ws_ok w" "ws_ok (w\<lparr>ws_attempts := n\<rparr>) = ws_ok w"
  by (simp_all add: ws_ok_defs ready_def)

lemma ws_ok_tell: "issued [x] = [] \<Longrightarrow> settled [x] = [] \<Longrightarrow> ws_ok (tell x w) = ws_ok w"
  by (simp add: ws_ok_defs ready_def tell_def)

lemma ready_set: "ready s (set_ready s' r w) = (if s = s' then r else ready s w)"
  by (simp add: ready_def set_ready_def update_conv')

lemma set_ready_frame [simp]:
  "ws_socket (set_ready s r w) = ws_socket w" "ws_stopped (set_ready s r w) = ws_stopped w"
  "ws_reconnectTimer (set_ready s r w) = ws_reconnectTimer w" "ws_pending (set_ready s r w) = ws_pending w"
  "ws_resyncTimer (set_ready s r w) = ws_resyncTimer w" "ws_stableTimer (set_ready s r w) = ws_stableTimer w"
  "ws_timers (set_ready s r w) = ws_timers w" "ws_log (set_ready s r w) = ws_log w"
  by (simp_all add: set_ready_def)

lemma keys_set_ready:
  "ready s w \<noteq> CLOSED \<Longrightarrow> fst ` set (ws_sockets (set_ready s r w)) = fst ` set (ws_sockets w) \<and>
     length (ws_sockets (set_ready s r w)) = length (ws_sockets w)"
proof -
  assume "ready s w \<noteq> CLOSED"
  then have "s \<in> fst ` set (ws_sockets w)"
    by (auto simp: ready_def split: option.splits dest: map_of_SomeD intro: rev_image_eqI)
  moreover have "s \<in> fst ` set xs \<Longrightarrow> map fst (AList.update s r xs) = map fst xs" for xs :: "(nat \<times> readyState) list"
    by (induction xs) auto
  ultimately have "map fst (ws_sockets (set_ready s r w)) = map fst (ws_sockets w)"
    by (simp add: set_ready_def)
  then show ?thesis by (metis length_map list.set_map)
qed

lemma set_ready_ok:
  assumes "ws_ok w" and "ready s w \<noteq> CLOSED" and "ws_socket w = Some s \<Longrightarrow> r \<in> {OPEN, CLOSING}"
  shows "ws_ok (set_ready s r w)"
proof -
  have "ws_timers_ok (set_ready s r w)" "ws_promises_ok (set_ready s r w)"
    using assms(1) by (simp_all add: ws_ok_defs)
  moreover have "\<forall>s'. s' \<in> fst ` set (ws_sockets (set_ready s r w)) \<longleftrightarrow> s' < length (ws_sockets (set_ready s r w))"
    using keys_set_ready [OF assms(2), of r] assms(1) by (simp add: ws_ok_def ws_conn_ok_def)
  then have "ws_conn_ok (set_ready s r w)"
    unfolding ws_conn_ok_def using assms by (simp add: ws_ok_def ws_conn_ok_def ready_set) blast
  ultimately show ?thesis by (simp add: ws_ok_def)
qed

lemma close_socket_ok:
  assumes "ws_ok w"
  shows "ws_ok (close_socket s args w)"
proof -
  have "ws_ok (if ready s w \<in> {CONNECTING, OPEN} then set_ready s CLOSING w else w)"
    using assms by (auto intro!: set_ready_ok)
  then show ?thesis by (simp add: close_socket_def ws_ok_tell)
qed

text \<open>A client whose socket is gone, after the timers and promises of that socket are.\<close>

lemma lost_ok:
  assumes "ws_ok w" and "ws_socket w = Some s"
    and keys: "\<forall>s. s \<in> fst ` set sk \<longleftrightarrow> s < length sk"
  shows "ws_ok (lost e code reason (w\<lparr>ws_sockets := sk, ws_socket := None\<rparr>))"
proof -
  let ?w = "teardown Connection_lost (w\<lparr>ws_sockets := sk, ws_socket := None\<rparr>)"
  have run: "\<not> ws_stopped w" "ws_reconnectTimer w = None"
    using assms(1,2) by (auto simp: ws_ok_def ws_conn_ok_def)
  have t: "t_ok (ws_timers ?w) None None None None []"
    by (rule teardown_timers [where sock = "ws_socket w"])
       (use assms(1) run in \<open>simp add: ws_ok_def ws_timers_ok_def\<close>)
  have p: "ws_promises_ok ?w"
    by (simp add: teardown_eq)
       (use teardown_promises [of w Connection_lost] assms(1) in \<open>simp add: ws_ok_def ws_promises_ok_def teardown_eq\<close>)
  have f: "ws_stopped ?w = ws_stopped w" "ws_reconnectTimer ?w = None" "ws_pending ?w = []" "ws_resyncTimer ?w = None"
    "ws_stableTimer ?w = None" "ws_socket ?w = None" "ws_sockets ?w = sk"
    using run by (simp_all add: teardown_eq)
  have eq: "lost e code reason (w\<lparr>ws_sockets := sk, ws_socket := None\<rparr>) =
      (case terminal_status code reason of
         Some st \<Rightarrow> tell (OnStatus st) (?w\<lparr>ws_stopped := True\<rparr>)
       | None \<Rightarrow> (tell (OnStatus Disconnected) (?w\<lparr>ws_attempts := Suc (ws_attempts ?w)\<rparr>))
           \<lparr>ws_reconnectTimer := Some (nextHandle (ws_timers ?w)),
            ws_timers := snd (arm ReconnectT (monoNow e + max 0 (min 10000 (1000 * 2 ^ ws_attempts ?w)
              * (8 / 10 + random e * (4 / 10)))) None (ws_timers ?w))\<rparr>)"
    using run by (simp add: lost_def teardown_def [symmetric] tell_def setTimeout_def case_prod_beta Let_def
        split: option.splits)
  show ?thesis
  proof (cases "terminal_status code reason")
    case None
    then show ?thesis using t p f run keys t_arm_rec [OF t]
      by (simp add: eq ws_ok_defs tell_def)
  next
    case (Some st)
    then show ?thesis using t p f keys by (simp add: eq ws_ok_defs tell_def)
  qed
qed

lemma onclose_ok:
  assumes "ws_ok w" and "ready s w \<noteq> CLOSED"
  shows "ws_ok (onclose e s code reason (set_ready s CLOSED w))"
proof (cases "ws_socket w = Some s")
  case True
  have "(set_ready s CLOSED w)\<lparr>ws_socket := None\<rparr> = w\<lparr>ws_sockets := ws_sockets (set_ready s CLOSED w), ws_socket := None\<rparr>"
    by (simp add: set_ready_def)
  moreover have "\<forall>s'. s' \<in> fst ` set (ws_sockets (set_ready s CLOSED w)) \<longleftrightarrow> s' < length (ws_sockets (set_ready s CLOSED w))"
    using keys_set_ready [OF assms(2), of CLOSED] assms(1) by (simp add: ws_ok_def ws_conn_ok_def)
  ultimately show ?thesis
    using lost_ok [OF assms(1) True] True by (simp add: onclose_def)
next
  case False
  then have "ws_ok (set_ready s CLOSED w)" using assms by (intro set_ready_ok) auto
  with False show ?thesis by (simp add: onclose_def)
qed

lemma close_socket_frame [simp]:
  "ws_socket (close_socket s a w) = ws_socket w" "ws_stopped (close_socket s a w) = ws_stopped w"
  "ws_reconnectTimer (close_socket s a w) = ws_reconnectTimer w" "ws_pending (close_socket s a w) = ws_pending w"
  "ws_resyncTimer (close_socket s a w) = ws_resyncTimer w" "ws_stableTimer (close_socket s a w) = ws_stableTimer w"
  "ws_timers (close_socket s a w) = ws_timers w" "ws_log (close_socket s a w) = ws_log w @ [SocketClose s a]"
  by (simp_all add: close_socket_def tell_def)

lemma keys_close_socket:
  "fst ` set (ws_sockets (close_socket s a w)) = fst ` set (ws_sockets w) \<and>
   length (ws_sockets (close_socket s a w)) = length (ws_sockets w)"
proof (cases "ready s w \<in> {CONNECTING, OPEN}")
  case True
  then have "ready s w \<noteq> CLOSED" by auto
  from keys_set_ready [OF this, of CLOSING] True show ?thesis by (auto simp: close_socket_def tell_def)
qed (simp add: close_socket_def tell_def)

text \<open>The state \<open>disconnect\<close> leaves, up to the ready state of the socket it closed.\<close>

lemma disconnect_fields:
  "ws_timers (disconnect w) = fold clearTimer (map snd (ws_pending w))
     (clearField (ws_stableTimer w) (clearField (ws_resyncTimer w) (clearField (ws_reconnectTimer w) (ws_timers w))))"
  "ws_reconnectTimer (disconnect w) = None" "ws_resyncTimer (disconnect w) = None"
  "ws_stableTimer (disconnect w) = None" "ws_socket (disconnect w) = None" "ws_stopped (disconnect w)"
  "ws_pending (disconnect w) = []"
  "ws_log (disconnect w) = ws_log w @ (case ws_socket w of None \<Rightarrow> [] | Some s \<Rightarrow> [SocketClose s (Some (1000, ''leaving room''))])
     @ map (\<lambda>(i, h). Reject i Disconnected_reason) (ws_pending w)"
  by (simp_all add: disconnect_def clearTimers_def clearConnectionTimers_def rejectPending_def reject_all_eq
      Let_def split: option.splits)

lemma keys_disconnect:
  "fst ` set (ws_sockets (disconnect w)) = fst ` set (ws_sockets w) \<and>
   length (ws_sockets (disconnect w)) = length (ws_sockets w)"
  by (simp add: disconnect_def clearTimers_def clearConnectionTimers_def rejectPending_def reject_all_eq
      Let_def keys_close_socket split: option.splits)

lemma disconnect_ok:
  assumes "ws_ok w"
  shows "ws_ok (disconnect w)"
proof -
  have "t_ok (ws_timers w) (ws_reconnectTimer w) (ws_resyncTimer w) (ws_stableTimer w) (ws_socket w) (ws_pending w)"
    using assms by (simp add: ws_ok_def ws_timers_ok_def)
  then have "t_ok (clearField (ws_stableTimer w) (clearField (ws_resyncTimer w)
      (clearField (ws_reconnectTimer w) (ws_timers w)))) None None None None (ws_pending w)"
    by (intro t_clear_stab t_clear_res t_clear_rec)
  then have "ws_timers_ok (disconnect w)"
    by (simp add: ws_timers_ok_def disconnect_fields t_reject)
  moreover have "ws_conn_ok (disconnect w)"
    using assms keys_disconnect [of w] by (simp add: ws_ok_def ws_conn_ok_def disconnect_fields)
  moreover have "ws_promises_ok (disconnect w)"
    using assms by (auto simp: ws_ok_defs disconnect_fields rejects_log t_ok_def split: option.splits)
  ultimately show ?thesis by (simp add: ws_ok_def)
qed

lemma sampleClock_ok:
  assumes "ws_ok w"
  shows "ws_ok (sampleClock e w)"
proof -
  have "t_ok ts rec res stab sock pend \<Longrightarrow>
      t_ok (fold (\<lambda>i ts. snd (setTimeout PingT (monoNow e) (of_nat i * 120) ts)) is ts) rec res stab sock pend"
    for "is" ts rec res stab sock pend
    by (induction "is" arbitrary: ts) (simp_all add: setTimeout_def t_arm_ping)
  then show ?thesis using assms by (simp add: sampleClock_def ws_ok_defs ready_def)
qed

lemma send_ok:
  assumes "ws_ok w" and "fresh_uuid e w"
  shows "ws_ok (snd (send e t p ack w))"
proof (cases "\<exists>s. ws_socket w = Some s \<and> ready s w = OPEN \<and> ack")
  case False
  have "ws_ok (tell (SocketSend s t (uuid e) p) w)" for s using assms(1) by (simp add: ws_ok_tell)
  with False assms(1) show ?thesis by (auto simp: send_def Let_def split: option.splits)
next
  case True
  then obtain s where s: "ws_socket w = Some s" "ready s w = OPEN" "ack" by blast
  have new: "uuid e \<notin> set (issued (ws_log w))"
    using assms(2) by (auto simp: fresh_uuid_def issued_def split: ws_effect.splits)
  then have "uuid e \<notin> fst ` set (ws_pending w)" using assms(1) by (simp add: ws_ok_def ws_promises_ok_def)
  then have t: "t_ok (snd (arm (AckT (uuid e)) d None (ws_timers w))) (ws_reconnectTimer w) (ws_resyncTimer w)
      (ws_stableTimer w) (ws_socket w) (AList.update (uuid e) (nextHandle (ws_timers w)) (ws_pending w))" for d
    using assms(1) by (intro t_arm_ack) (simp_all add: ws_ok_def ws_timers_ok_def)
  have upd: "fst ` set (AList.update (uuid e) h (ws_pending w)) = insert (uuid e) (fst ` set (ws_pending w))" for h
    by (simp add: dom_update)
  define w' where "w' = snd (send e t p ack w)"
  have w': "w' = w\<lparr>ws_timers := snd (arm (AckT (uuid e)) (monoNow e + 6000) None (ws_timers w)),
      ws_pending := AList.update (uuid e) (nextHandle (ws_timers w)) (ws_pending w),
      ws_log := ws_log w @ [SocketSend s t (uuid e) p, Awaiting (uuid e)]\<rparr>"
    using s by (simp add: w'_def send_def setTimeout_def case_prod_beta Let_def tell_def)
  have "ws_timers_ok w'" using t by (simp add: w' ws_timers_ok_def)
  moreover have "ws_conn_ok w'" using assms(1) s by (simp add: w' ws_ok_def ws_conn_ok_def ready_def)
  moreover have "ws_promises_ok w'"
    using assms(1) new by (auto simp: w' ws_ok_def ws_promises_ok_def upd)
  ultimately show ?thesis by (simp add: ws_ok_def flip: w'_def)
qed

lemma fresh_frame: "ws_log w' = ws_log w \<Longrightarrow> fresh_uuid e w' = fresh_uuid e w"
  by (simp add: fresh_uuid_def)

lemma ping_fires_ok: "ws_ok w \<Longrightarrow> fresh_uuid e w \<Longrightarrow> ws_ok (ping_fires e w)"
  by (simp add: ping_fires_def pingPayload_def send_ok fresh_frame [of "w\<lparr>ws_clock := c\<rparr>" w for c])

lemma onopen_ok:
  assumes "ws_ok w" and "ready s w = CONNECTING"
  shows "ws_ok (onopen e s (set_ready s OPEN w))"
proof -
  define u where "u = set_ready s OPEN w"
  have u: "ws_ok u" "ready s u = OPEN" using assms by (auto simp: u_def ready_set intro!: set_ready_ok)
  show ?thesis
  proof (cases "ws_socket w \<noteq> Some s \<or> ws_stopped w")
    case True
    then have "onopen e s u = u" by (auto simp: onopen_def u_def)
    with u show ?thesis by (simp flip: u_def)
  next
    case False
    then have run: "ws_socket u = Some s" "\<not> ws_stopped u" by (simp_all add: u_def)
    have none: "ws_resyncTimer u = None" "ws_stableTimer u = None"
      using False assms by (auto simp: ws_ok_def ws_conn_ok_def u_def)
    define c where "c = resetClock (dateNow e) (monoNow e) (ws_clock u)"
    define v where "v = sampleClock e ((tell (OnStatus Connected) u)\<lparr>ws_clock := c\<rparr>)"
    have v: "ws_ok v" unfolding v_def using u(1) by (intro sampleClock_ok) (simp add: ws_ok_tell)
    have vf: "ws_resyncTimer v = None" "ws_stableTimer v = None" "ws_socket v = Some s" "ws_stopped v = ws_stopped u"
      "ready s v = OPEN"
      using none run u(2) by (simp_all add: v_def sampleClock_def tell_def ready_def)
    define ts1 where "ts1 = snd (arm ResyncT (monoNow e + 30000) (Some 30000) (ws_timers v))"
    define ts2 where "ts2 = snd (arm (StableT s) (monoNow e + STABLE_CONNECTION_MS) None ts1)"
    have "t_ok ts2 (ws_reconnectTimer v) (Some (nextHandle (ws_timers v))) (Some (nextHandle ts1)) (Some s) (ws_pending v)"
      unfolding ts2_def ts1_def using v vf by (intro t_arm_stab t_arm_res) (simp add: ws_ok_def ws_timers_ok_def)
    moreover have "onopen e s u = v\<lparr>ws_resyncTimer := Some (nextHandle (ws_timers v)),
        ws_stableTimer := Some (nextHandle ts1), ws_timers := ts2\<rparr>"
      using run none by (simp add: onopen_def Let_def v_def ts1_def ts2_def c_def setInterval_def setTimeout_def
          case_prod_beta clearField_def STABLE_CONNECTION_MS_def sampleClock_def tell_def)
    ultimately show ?thesis
      using v vf run by (simp add: ws_ok_defs ready_def flip: u_def)
  qed
qed

lemma stable_fires_ok: "ws_ok w \<Longrightarrow> ws_ok (stable_fires s w)"
  by (simp add: stable_fires_def)

text \<open>An answer, or the timeout, takes one promise out of the waiting ones and settles it.\<close>

lemma settle_one_ok:
  assumes "ws_ok w" and "map_of (ws_pending w) i = Some h" and x: "issued [x] = []" "settled [x] = [i]"
  shows "ws_ok (tell x (w\<lparr>ws_timers := clearTimer h (ws_timers w), ws_pending := AList.delete i (ws_pending w)\<rparr>))"
proof -
  let ?w = "tell x (w\<lparr>ws_timers := clearTimer h (ws_timers w), ws_pending := AList.delete i (ws_pending w)\<rparr>)"
  have "i \<in> fst ` set (ws_pending w)" using map_of_SomeD [OF assms(2)] by force
  moreover have "fst ` set (AList.delete i (ws_pending w)) = fst ` set (ws_pending w) - {i}"
    by (auto simp: AList.delete_eq)
  ultimately have "ws_promises_ok ?w"
    using assms(1) x by (auto simp: ws_ok_def ws_promises_ok_def tell_def)
  moreover have "ws_timers_ok ?w"
    using assms(1) t_settle [OF _ assms(2)] by (simp add: ws_ok_def ws_timers_ok_def tell_def)
  moreover have "ws_conn_ok ?w"
    using assms(1,2) by (auto simp: ws_ok_def ws_conn_ok_def tell_def ready_def)
  ultimately show ?thesis by (simp add: ws_ok_def)
qed

lemma settle_request_ok: "ws_ok w \<Longrightarrow> ws_ok (settle_request m w)"
  by (auto simp: settle_request_def intro!: settle_one_ok split: option.splits json.splits)

lemma deliver_ok: "ws_ok w \<Longrightarrow> ws_ok (snd (deliver e m ls w))"
  by (induction e m ls w rule: deliver.induct) (simp_all add: ws_ok_tell)

lemma receive_ok: "ws_ok w \<Longrightarrow> ws_ok (receive e raw w)"
  using deliver_ok [of _ e _ "ws_listeners w"]
  by (fastforce simp: receive_def Let_def case_prod_beta intro: settle_request_ok split: sum.splits option.splits)

lemma ws_timer_ok:
  assumes "ws_ok w" and fresh: "fresh_uuid e w" and ex: "expire h (monoNow e) (ws_timers w) = Some (k, ts)"
  shows "ws_ok (ws_run_timer e k (w\<lparr>ws_timers := ts\<rparr>))"
proof -
  have t: "t_ok (ws_timers w) (ws_reconnectTimer w) (ws_resyncTimer w) (ws_stableTimer w) (ws_socket w) (ws_pending w)"
    using assms(1) by (simp add: ws_ok_def ws_timers_ok_def)
  then have pk: "periods_ok (ws_timers w)" by (simp add: t_ok_def)
  have same: "ws_ok (w\<lparr>ws_timers := ts\<rparr>)"
    if "t_ok ts (ws_reconnectTimer w) (ws_resyncTimer w) (ws_stableTimer w) (ws_socket w) (ws_pending w)"
    using assms(1) that by (simp add: ws_ok_defs ready_def)
  show ?thesis
  proof (cases k)
    case ReconnectT
    then have ts: "ts = clearTimer h (ws_timers w)" and kh: "kind (ws_timers w) h = Some ReconnectT"
      using expire_once [OF ex pk] by auto
    then have rec: "ws_reconnectTimer w = Some h" using t by (simp add: t_ok_def)
    have none: "ws_socket w = None" "ws_pending w = []" "ws_resyncTimer w = None" "ws_stableTimer w = None"
      "\<not> ws_stopped w" and keys: "\<forall>s. s \<in> fst ` set (ws_sockets w) \<longleftrightarrow> s < length (ws_sockets w)"
      using assms(1) rec by (auto simp: ws_ok_def ws_conn_ok_def)
    have "t_ok (clearField (Some h) ts) None None None None []"
      using t_clear_rec [OF t] rec none by (simp add: clearField_def ts clearTimer_twice)
    moreover have "ws_promises_ok (w\<lparr>ws_timers := ts\<rparr>)"
      using assms(1) by (simp add: ws_ok_def ws_promises_ok_def)
    ultimately show ?thesis using none keys rec by (simp add: ReconnectT open_socket_ok)
  next
    case (StableT s)
    then have "t_ok ts (ws_reconnectTimer w) (ws_resyncTimer w) (ws_stableTimer w) (ws_socket w) (ws_pending w)"
      using expire_once [OF ex pk] t_expire_quiet [OF t, of h s] by auto
    then show ?thesis by (simp add: StableT stable_fires_ok same)
  next
    case ResyncT
    then have "t_ok ts (ws_reconnectTimer w) (ws_resyncTimer w) (ws_stableTimer w) (ws_socket w) (ws_pending w)"
      using t_expire_resync [OF t] ex by simp
    then show ?thesis by (simp add: ResyncT sampleClock_ok same)
  next
    case (AckT i)
    then have ts: "ts = clearTimer h (ws_timers w)" and kh: "kind (ws_timers w) h = Some (AckT i)"
      using expire_once [OF ex pk] by auto
    then have "(i, h) \<in> set (ws_pending w)" "distinct (map fst (ws_pending w))" using t by (simp_all add: t_ok_def)
    then have "map_of (ws_pending w) i = Some h" by simp
    from settle_one_ok [OF assms(1) this, of "Reject i Timed_out"] show ?thesis
      by (simp add: AckT ack_timeout_def ts)
  next
    case PingT
    then have "t_ok ts (ws_reconnectTimer w) (ws_resyncTimer w) (ws_stableTimer w) (ws_socket w) (ws_pending w)"
      using expire_once [OF ex pk] t_expire_quiet [OF t, of h] by auto
    then show ?thesis using fresh by (simp add: PingT ping_fires_ok same fresh_uuid_def)
  qed
qed

lemma ws_handle_ok:
  assumes "ws_ok w" and "fresh_uuid e w"
  shows "ws_ok (ws_handle e ev w)"
proof (cases ev)
  case (NetClose s c r)
  with assms show ?thesis by (simp add: onclose_ok)
next
  case (WsTimer h)
  with assms show ?thesis by (auto simp: ws_timer_ok split: option.splits)
qed (use assms in \<open>auto simp: connect_ok disconnect_ok subscribe_def unsubscribe_def send_ok onopen_ok onmessage_def
    receive_ok onerror_def close_socket_ok\<close>)

lemma newWS_ok: "ws_ok (newWS d m)"
  by (simp add: newWS_def ws_ok_defs t_ok_def noTimers_def bounded_def periods_ok_def kind_def ready_def)

interpretation ws_inv: invariant_system ws_init ws_step ws_ok
proof unfold_locales
  show "ws_init w \<Longrightarrow> ws_ok w" for w by (auto simp: ws_init_def newWS_ok)
  show "ws_ok w \<Longrightarrow> ws_step w l w' \<Longrightarrow> ws_ok w'" for w l w'
    by (erule ws_stepE) (simp add: ws_handle_ok)
qed

end
