(* ===== verification/WebSocketClient_Props.thy ===== *)
theory WebSocketClient_Props
  imports WebSocketClient_Inv
begin

text \<open>What the connection promises to its users.\<close>

section \<open>Concrete values\<close>

definition demo_wenv :: "rat \<Rightarrow> string \<Rightarrow> ws_env" where
  "demo_wenv t i = \<lparr>monoNow = t, dateNow = t + 100000, uuid = i, random = 1 / 2,
     parse = (\<lambda>raw. Some (JObj [(''v'', JNum (Num 1)), (''type'', JStr ''ack''), (''requestId'', JStr raw)])),
     throws = (\<lambda>l m. False)\<rparr>"

fun ws_run :: "(ws_env \<times> ws_event) list \<Rightarrow> WS \<Rightarrow> WS" where
  "ws_run [] w = w"
| "ws_run ((e, ev) # evs) w = ws_run evs (ws_handle e ev w)"

fun fresh_run :: "(ws_env \<times> ws_event) list \<Rightarrow> WS \<Rightarrow> bool" where
  "fresh_run [] w = True"
| "fresh_run ((e, ev) # evs) w = (fresh_uuid e w \<and> fresh_run evs (ws_handle e ev w))"

lemma ws_run_reachable: "ws_reachable w \<Longrightarrow> fresh_run evs w \<Longrightarrow> ws_reachable (ws_run evs w)"
  by (induction evs w rule: ws_run.induct) (auto intro: reachable_step ws_step.intros)

lemma newWS_reachable: "ws_reachable (newWS d m)"
  by (rule reachable_init) (auto simp: ws_init_def)

definition demo_connected :: WS where
  "demo_connected = ws_run [(demo_wenv 0 ''a'', Connect), (demo_wenv 50 ''b'', NetOpen 0),
     (demo_wenv 60 ''c'', SendCmd ''chat.send'' JNull True)] (newWS 100000 0)"

lemma demo_connected_reachable: "ws_reachable demo_connected"
  unfolding demo_connected_def by (rule ws_run_reachable [OF newWS_reachable]) code_simp

section \<open>Connection\<close>

text \<open>
  C12. The client never gives up silently and never doubles itself: in every reachable state it was
  stopped, or it has a socket that is not closed, or it has exactly one live reconnection timer;
  these three exclude each other.
\<close>

theorem connected_or_retrying:
  assumes "ws_reachable w"
  shows "(ws_socket w = None) = (ws_stopped w \<or> (\<exists>h. kind (ws_timers w) h = Some ReconnectT)) \<and>
         (ws_stopped w \<longrightarrow> (\<forall>h. kind (ws_timers w) h \<noteq> Some ReconnectT)) \<and>
         (\<forall>s. ws_socket w = Some s \<longrightarrow> ready s w \<noteq> CLOSED) \<and>
         (\<forall>h h'. kind (ws_timers w) h = Some ReconnectT \<and> kind (ws_timers w) h' = Some ReconnectT \<longrightarrow> h = h')"
  using ws_inv.inv_reachable [OF assms]
  by (auto simp: ws_ok_def ws_timers_ok_def ws_conn_ok_def t_ok_def)

theorem connected_or_retrying_witness: "\<forall>h. kind (ws_timers demo_connected) h \<noteq> Some ReconnectT"
proof -
  have "ws_socket demo_connected = Some 0" by code_simp
  then show ?thesis using connected_or_retrying [OF demo_connected_reachable] by auto
qed

text \<open>
  A retry happens: when the live reconnection timer of a reachable state is due, running it
  creates a new socket, and the client waits for that one.
\<close>

theorem retry_opens:
  assumes "ws_reachable w" and "lmap (ws_timers w) h = Some t" and "callback t = ReconnectT" and "due t \<le> monoNow e"
  shows "ws_socket (ws_handle e (WsTimer h) w) = Some (length (ws_sockets w)) \<and>
         ready (length (ws_sockets w)) (ws_handle e (WsTimer h) w) = CONNECTING \<and>
         ws_log (ws_handle e (WsTimer h) w) = ws_log w @ [OnStatus Connecting, Opened (length (ws_sockets w))]"
proof -
  have ok: "ws_ok w" using assms(1) by (rule ws_inv.inv_reachable)
  have p: "period t = None"
    using ok assms(2,3) by (simp add: ws_ok_def ws_timers_ok_def t_ok_def periods_ok_def)
  have "kind (ws_timers w) h = Some ReconnectT" using assms(2,3) by (simp add: kind_def)
  then have "ws_reconnectTimer w = Some h" using ok by (simp add: ws_ok_def ws_timers_ok_def t_ok_def)
  then have "\<not> ws_stopped w" and keys: "\<forall>s. s \<in> fst ` set (ws_sockets w) \<longleftrightarrow> s < length (ws_sockets w)"
    using ok by (auto simp: ws_ok_def ws_conn_ok_def)
  moreover have "expire h (monoNow e) (ws_timers w) = Some (ReconnectT, clearTimer h (ws_timers w))"
    using assms p by (simp add: expire_def)
  ultimately show ?thesis
    using \<open>ws_reconnectTimer w = Some h\<close> ready_new [OF keys]
    by (simp add: open_socket_def tell_def Let_def ready_def)
qed

text \<open>A client that lost its first connection and waits.\<close>

definition demo_waiting :: WS where
  "demo_waiting = ws_run [(demo_wenv 100 ''d'', NetClose 0 1006 '''')] demo_connected"

lemma demo_waiting_reachable: "ws_reachable demo_waiting"
  unfolding demo_waiting_def by (rule ws_run_reachable [OF demo_connected_reachable]) code_simp

theorem retry_opens_witness: "ws_socket (ws_handle (demo_wenv 2000 ''e'') (WsTimer 9) demo_waiting) = Some 1"
proof -
  have "lmap (ws_timers demo_waiting) 9 = Some \<lparr>callback = ReconnectT, due = 1100, period = None\<rparr>"
    "length (ws_sockets demo_waiting) = 1"
    by code_simp+
  then show ?thesis
    using retry_opens [OF demo_waiting_reachable, of 9 _ "demo_wenv 2000 ''e''"] by (simp add: demo_wenv_def)
qed

text \<open>
  The back-off: a loss that is not final arms a retry after at least 0.8 and less than 1.2 times
  the base delay, which doubles from one second with every attempt up to ten seconds; every waiting
  command is rejected.
\<close>

theorem loss_backs_off:
  assumes "ws_reachable w" and "ws_socket w = Some s" and "terminal_status code reason = None"
    and "0 \<le> random e" and "random e < 1"
  shows "let w' = ws_handle e (NetClose s code reason) w; base = min 10000 (1000 * 2 ^ ws_attempts w) in
     (\<exists>h t. lmap (ws_timers w') h = Some t \<and> callback t = ReconnectT \<and>
        monoNow e + 8 / 10 * base \<le> due t \<and> due t < monoNow e + 12 / 10 * base) \<and>
     ws_attempts w' = Suc (ws_attempts w) \<and> ws_pending w' = [] \<and>
     ws_log w' = ws_log w @ map (\<lambda>(i, h). Reject i Connection_lost) (ws_pending w) @ [OnStatus Disconnected]"
proof -
  let ?base = "min 10000 (1000 * 2 ^ ws_attempts w) :: rat"
  have ok: "ws_ok w" using assms(1) by (rule ws_inv.inv_reachable)
  have r: "ready s w \<noteq> CLOSED" and run: "\<not> ws_stopped w" "ws_reconnectTimer w = None"
    using ok assms(2) by (auto simp: ws_ok_def ws_conn_ok_def)
  let ?u = "teardown Connection_lost ((set_ready s CLOSED w)\<lparr>ws_socket := None\<rparr>)"
  have "t_ok (ws_timers ?u) None None None None []"
    by (rule teardown_timers [where sock = "ws_socket w"])
       (use ok run in \<open>simp add: ws_ok_def ws_timers_ok_def\<close>)
  then have b: "bounded (ws_timers ?u)" by (simp add: t_ok_def)
  have base: "0 < ?base" by simp
  have lo: "?base * (8 / 10) \<le> ?base * (8 / 10 + random e * (4 / 10))"
    by (rule mult_left_mono) (use assms(4) base in simp_all)
  have hi: "?base * (8 / 10 + random e * (4 / 10)) < ?base * (12 / 10)"
    by (rule mult_strict_left_mono) (use assms(5) base in simp_all)
  have eq: "ws_handle e (NetClose s code reason) w =
      (tell (OnStatus Disconnected) ?u)
        \<lparr>ws_attempts := Suc (ws_attempts w), ws_reconnectTimer := Some (nextHandle (ws_timers ?u)),
         ws_timers := snd (arm ReconnectT (monoNow e + ?base * (8 / 10 + random e * (4 / 10))) None (ws_timers ?u))\<rparr>"
    using assms(2,3) r run lo base
    by (simp add: onclose_def lost_def teardown_def [symmetric] setTimeout_def case_prod_beta Let_def tell_def max_def)
       (simp add: teardown_eq set_ready_def)
  show ?thesis
    unfolding eq Let_def using lo hi
    by (simp add: lmap_arm [OF b] tell_def algebra_simps) (simp add: teardown_eq, blast)
qed

theorem loss_backs_off_witness:
  "ws_attempts (ws_handle (demo_wenv 100 ''d'') (NetClose 0 1006 '''') demo_connected) = 1"
proof -
  have "ws_socket demo_connected = Some 0" "ws_attempts demo_connected = 0" by code_simp+
  then show ?thesis
    using loss_backs_off [OF demo_connected_reachable, of 0 1006 "''''" "demo_wenv 100 ''d''"]
    by (simp add: demo_wenv_def Let_def terminal_status_def CONNECTION_SUPERSEDED_def)
qed

text \<open>The client is stopped and nothing that would open a socket is left.\<close>

definition no_retry :: "ws_timer timers \<Rightarrow> bool" where
  "no_retry ts \<longleftrightarrow> bounded ts \<and> (\<forall>h. kind ts h \<noteq> Some ReconnectT)"

definition at_rest :: "WS \<Rightarrow> bool" where
  "at_rest w \<longleftrightarrow> ws_stopped w \<and> ws_socket w = None \<and> no_retry (ws_timers w)"

lemma no_retry_clear: "no_retry ts \<Longrightarrow> no_retry (clearTimer h ts)" "no_retry ts \<Longrightarrow> no_retry (clearField f ts)"
  by (auto simp: no_retry_def bounded_clear kind_clearField split: option.splits)

lemma no_retry_clear_all: "no_retry ts \<Longrightarrow> no_retry (fold clearTimer hs ts)"
  by (induction hs arbitrary: ts) (simp_all add: no_retry_clear)

lemma no_retry_arm: "no_retry ts \<Longrightarrow> k \<noteq> ReconnectT \<Longrightarrow> no_retry (snd (arm k d p ts))"
  by (auto simp: no_retry_def bounded_arm kind_arm)

lemma no_retry_expire:
  assumes "no_retry ts" and "expire h t ts = Some (k, ts')"
  shows "k \<noteq> ReconnectT \<and> no_retry ts'"
proof -
  obtain x where x: "lmap ts h = Some x" "callback x = k" "nextHandle ts' = nextHandle ts"
    and l: "lmap ts' = (case period x of None \<Rightarrow> (lmap ts)(h := None) | Some p \<Rightarrow> (lmap ts)(h \<mapsto> x\<lparr>due := t + p\<rparr>))"
    using assms(2) by (rule lmap_expire)
  have "kind ts h = Some k" using x by (simp add: kind_def)
  moreover have "kind ts' h' = kind ts h' \<or> kind ts' h' = None" for h'
    using x by (auto simp: kind_def l split: option.splits)
  ultimately show ?thesis using assms(1) x(3) by (metis bounded_kind no_retry_def option.distinct(1))
qed

lemma at_rest_timer:
  assumes "at_rest w" and "k \<noteq> ReconnectT"
  shows "at_rest (ws_run_timer e k w) \<and> length (ws_sockets (ws_run_timer e k w)) = length (ws_sockets w)"
proof -
  have "no_retry ts \<Longrightarrow> no_retry (fold (\<lambda>i ts. snd (setTimeout PingT (monoNow e) (of_nat i * 120) ts)) is ts)"
    for "is" ts
    by (induction "is" arbitrary: ts) (simp_all add: setTimeout_def no_retry_arm)
  then show ?thesis using assms
    by (cases k) (auto simp: at_rest_def stable_fires_def sampleClock_def ack_timeout_def tell_def
        ping_fires_def pingPayload_def send_def)
qed

lemma at_rest_step:
  assumes "at_rest w" and "ev \<noteq> Connect"
  shows "at_rest (ws_handle e ev w) \<and> length (ws_sockets (ws_handle e ev w)) = length (ws_sockets w)"
proof -
  have rd: "at_rest (set_ready s r w) \<and> length (ws_sockets (set_ready s r w)) = length (ws_sockets w)"
    if "ready s w \<noteq> CLOSED" for s r
    using assms(1) keys_set_ready [OF that] by (simp add: at_rest_def)
  show ?thesis
  proof (cases ev)
    case Disconnect
    then show ?thesis using assms(1) keys_disconnect [of w]
      by (simp add: at_rest_def disconnect_fields no_retry_clear no_retry_clear_all)
  next
    case (NetOpen s)
    then show ?thesis using assms(1) rd [of s OPEN] by (auto simp: onopen_def at_rest_def)
  next
    case (NetClose s c r)
    then show ?thesis using assms(1) rd [of s CLOSED] by (auto simp: onclose_def at_rest_def)
  next
    case (WsTimer h)
    have "at_rest (w\<lparr>ws_timers := ts\<rparr>) \<and> k \<noteq> ReconnectT" if "expire h (monoNow e) (ws_timers w) = Some (k, ts)" for k ts
      using no_retry_expire [OF _ that] assms(1) by (simp add: at_rest_def)
    then show ?thesis using assms(1) at_rest_timer by (fastforce simp: WsTimer split: option.splits)
  qed (use assms in \<open>auto simp: at_rest_def subscribe_def unsubscribe_def send_def onmessage_def onerror_def\<close>)
qed

lemma at_rest_run:
  "at_rest w \<Longrightarrow> list_all (\<lambda>(e, ev). ev \<noteq> Connect) evs \<Longrightarrow>
   at_rest (ws_run evs w) \<and> length (ws_sockets (ws_run evs w)) = length (ws_sockets w)"
  by (induction evs w rule: ws_run.induct) (auto simp: at_rest_step)

text \<open>
  A final close is final: when the server ends the connection for one of the reasons that
  reconnecting cannot cure (superseded by another tab, room closed, removed, session ended, room
  full), the client reports that status, rejects what waits, and opens no socket again until it is
  told to connect, whatever else happens.
\<close>

theorem final_close_is_final:
  assumes "ws_reachable w" and "ws_socket w = Some s" and "terminal_status code reason = Some st"
    and "list_all (\<lambda>(e, ev). ev \<noteq> Connect) evs"
  shows "let w' = ws_handle e (NetClose s code reason) w in
     ws_stopped w' \<and> last (ws_log w') = OnStatus st \<and> ws_pending w' = [] \<and>
     ws_stopped (ws_run evs w') \<and> length (ws_sockets (ws_run evs w')) = length (ws_sockets w)"
proof -
  let ?w = "ws_handle e (NetClose s code reason) w"
  have ok: "ws_ok w" using assms(1) by (rule ws_inv.inv_reachable)
  have r: "ready s w \<noteq> CLOSED" and run: "\<not> ws_stopped w" using ok assms(2) by (auto simp: ws_ok_def ws_conn_ok_def)
  have eq: "?w = tell (OnStatus st) ((teardown Connection_lost ((set_ready s CLOSED w)\<lparr>ws_socket := None\<rparr>))\<lparr>ws_stopped := True\<rparr>)"
    using assms(2,3) r run by (simp add: onclose_def lost_def teardown_def Let_def)
  have "ws_ok ?w" using ok r onclose_ok by simp
  moreover have "ws_stopped ?w" by (simp add: eq tell_def del: ws_handle.simps)
  ultimately have rest: "at_rest ?w"
    by (simp add: at_rest_def no_retry_def ws_ok_def ws_timers_ok_def ws_conn_ok_def t_ok_def del: ws_handle.simps)
  have "length (ws_sockets ?w) = length (ws_sockets w)"
    using keys_set_ready [OF r, of CLOSED] by (simp add: eq tell_def teardown_eq del: ws_handle.simps)
  moreover have "last (ws_log ?w) = OnStatus st" "ws_pending ?w = []"
    by (simp_all add: eq tell_def teardown_eq del: ws_handle.simps)
  ultimately show ?thesis
    using at_rest_run [OF rest assms(4)] rest by (simp add: Let_def at_rest_def del: ws_handle.simps)
qed

theorem final_close_is_final_witness:
  "length (ws_sockets (ws_run [(demo_wenv 20000 ''f'', WsTimer 9)]
     (ws_handle (demo_wenv 100 ''d'') (NetClose 0 1000 ''room closed'') demo_connected))) = 1"
proof -
  have "ws_socket demo_connected = Some 0" "length (ws_sockets demo_connected) = 1"
    "terminal_status 1000 ''room closed'' = Some Closed_room"
    by code_simp+
  then show ?thesis
    using final_close_is_final [OF demo_connected_reachable, of 0 1000 "''room closed''" Closed_room
        "[(demo_wenv 20000 ''f'', WsTimer 9)]" "demo_wenv 100 ''d''"]
    by (simp add: Let_def del: ws_handle.simps)
qed

text \<open>
  A socket the client has let go of cannot disturb it: opening, messages, errors and the close of
  any socket but the current one change nothing but the ready state of that socket itself.
\<close>

theorem stale_socket_ignored:
  assumes "ws_socket w \<noteq> Some s" and "ev \<in> {NetOpen s, NetMessage s raw, NetClose s code reason, NetError s}"
  shows "(ws_handle e ev w)\<lparr>ws_sockets := ws_sockets w\<rparr> = w"
  using assms by (auto simp: onopen_def onmessage_def onclose_def onerror_def set_ready_def)

theorem stale_socket_ignored_witness:
  "(ws_handle (demo_wenv 200 ''x'') (NetMessage 7 ''c'') demo_connected)\<lparr>ws_sockets := ws_sockets demo_connected\<rparr> = demo_connected"
proof -
  have "ws_socket demo_connected \<noteq> Some 7" by code_simp
  then show ?thesis by (rule stale_socket_ignored [where raw = "''c''"]) simp
qed

section \<open>Commands\<close>

text \<open>
  C13. Every promise is settled exactly once: in every reachable state the promises handed out are
  those that wait and those that were settled, no promise is both, and none was settled twice.
\<close>

theorem promises_settle_once:
  assumes "ws_reachable w"
  shows "set (issued (ws_log w)) = fst ` set (ws_pending w) \<union> set (settled (ws_log w)) \<and>
         fst ` set (ws_pending w) \<inter> set (settled (ws_log w)) = {} \<and> distinct (settled (ws_log w))"
  using ws_inv.inv_reachable [OF assms] by (simp add: ws_ok_def ws_promises_ok_def)

theorem promises_settle_once_witness:
  "issued (ws_log demo_waiting) = [''c''] \<and> ''c'' \<in> set (settled (ws_log demo_waiting))"
proof
  show iss: "issued (ws_log demo_waiting) = [''c'']" by code_simp
  have "ws_pending demo_waiting = []" by code_simp
  then show "''c'' \<in> set (settled (ws_log demo_waiting))"
    using promises_settle_once [OF demo_waiting_reachable] iss by auto
qed

text \<open>
  No command waits for ever: in every reachable state each waiting promise has a live timer, and
  when that timer is due, running it rejects the promise and takes it out of the waiting ones.
\<close>

theorem waiting_promise_times_out:
  assumes "ws_reachable w" and "i \<in> fst ` set (ws_pending w)"
  shows "\<exists>h t. lmap (ws_timers w) h = Some t \<and> callback t = AckT i \<and>
     (due t \<le> monoNow e \<longrightarrow>
        ws_log (ws_handle e (WsTimer h) w) = ws_log w @ [Reject i Timed_out] \<and>
        i \<notin> fst ` set (ws_pending (ws_handle e (WsTimer h) w)))"
proof -
  have ok: "ws_ok w" using assms(1) by (rule ws_inv.inv_reachable)
  obtain h where h: "(i, h) \<in> set (ws_pending w)" using assms(2) by auto
  then have "kind (ws_timers w) h = Some (AckT i)" using ok by (simp add: ws_ok_def ws_timers_ok_def t_ok_def)
  then obtain t where t: "lmap (ws_timers w) h = Some t" "callback t = AckT i" by (auto simp: kind_def)
  moreover have "period t = None"
    using ok t by (simp add: ws_ok_def ws_timers_ok_def t_ok_def periods_ok_def)
  ultimately have "due t \<le> monoNow e \<longrightarrow>
      expire h (monoNow e) (ws_timers w) = Some (AckT i, clearTimer h (ws_timers w))"
    by (simp add: expire_def)
  with t show ?thesis
    by (intro exI [of _ h] exI [of _ t]) (auto simp: ack_timeout_def tell_def AList.delete_eq)
qed

theorem waiting_promise_times_out_witness:
  "\<exists>h t. lmap (ws_timers demo_connected) h = Some t \<and> callback t = AckT ''c''"
proof -
  have "''c'' \<in> fst ` set (ws_pending demo_connected)" by code_simp
  from waiting_promise_times_out [OF demo_connected_reachable this] show ?thesis by blast
qed

lemma deliver_all:
  assumes "list_all (\<lambda>l. \<not> throws e l m) ls"
  shows "deliver e m ls w = (True, w\<lparr>ws_log := ws_log w @ map (\<lambda>l. Deliver l m) ls\<rparr>)"
  using assms by (induction ls arbitrary: w) (simp_all add: tell_def)

text \<open>
  An answer settles its own command and no other: an acknowledgement (or error) on the current
  socket, for a command that waits, is passed to every listener and then resolves (or rejects) exactly
  that command; the others wait on.
\<close>

theorem answer_settles_command:
  assumes "ws_socket w = Some s" and "ready s w = OPEN" and "\<not> ws_stopped w"
    and "parseEnvelope (parse e) raw = Inr m" and "type m = ''ack'' \<or> type m = ''error''"
    and "requestId m = Some (JStr i)" and "i \<noteq> ''''" and "map_of (ws_pending w) i = Some h"
    and "list_all (\<lambda>l. \<not> throws e l m) (ws_listeners w)"
  shows "let w' = ws_handle e (NetMessage s raw) w in
     ws_log w' = ws_log w @ map (\<lambda>l. Deliver l m) (ws_listeners w)
       @ [if type m = ''ack'' then Resolve i else Reject i (reject_message (payload m))] \<and>
     ws_pending w' = filter (\<lambda>x. fst x \<noteq> i) (ws_pending w)"
proof -
  have "receive e raw w =
      settle_request m (w\<lparr>ws_log := ws_log w @ map (\<lambda>l. Deliver l m) (ws_listeners w)\<rparr>)"
    using assms(4,5) by (auto simp: receive_def deliver_all [OF assms(9)])
  then show ?thesis
    using assms by (auto simp: onmessage_def settle_request_def tell_def AList.delete_eq Let_def intro: filter_cong)
qed

theorem answer_settles_command_witness:
  "ws_pending (ws_handle (demo_wenv 200 ''x'') (NetMessage 0 ''c'') demo_connected) = []"
proof -
  let ?m = "\<lparr>type = ''ack'', requestId = Some (JStr ''c''), payload = None\<rparr>"
  have "ws_socket demo_connected = Some 0" "ready 0 demo_connected = OPEN" "\<not> ws_stopped demo_connected"
    "map_of (ws_pending demo_connected) ''c'' = Some 8" "ws_listeners demo_connected = []"
    "map fst (ws_pending demo_connected) = [''c'']"
    by code_simp+
  moreover have "parseEnvelope (parse (demo_wenv 200 ''x'')) ''c'' = Inr ?m"
    by (simp add: demo_wenv_def parseEnvelope_def PROTOCOL_VERSION_def)
  ultimately show ?thesis
    using answer_settles_command [of demo_connected 0 "demo_wenv 200 ''x''" "''c''" ?m "''c''" 8]
    by (auto simp: Let_def filter_empty_conv simp del: ws_handle.simps)
qed

end
