(* ===== verification/RoomPage_Effects.thy ===== *)
theory RoomPage_Effects
  imports RoomPage
begin

text \<open>
  The effects and the actions of the room page, \<open>web/src/pages/RoomPage.tsx\<close>. React renders after the
  setters of an event and then commits: of every effect whose dependencies changed it runs the cleanup,
  and then the bodies in their order, which read the values of the render and may set state again, for
  the next commit. Messages, answers of the HTTP interface, status reports of the connection and clicks
  arrive in any order between commits. The page belongs to one room code: another code makes another
  connection, stream and synchronizer. Scrolling the chat is not modelled.
\<close>

section \<open>Dependencies\<close>

record deps =
  d_identity :: nat
  d_loading :: bool
  d_connection :: ConnectionStatus
  d_isHost :: bool
  d_roomId :: "string option"
  d_closed :: bool
  d_playbackMedia :: "string option"
  d_roomMedia :: "string option"

text \<open>The committed page: the dependencies of the last commit, and whether the cleanup of the connection's
  effect is pending, which is so exactly when its body subscribed.\<close>

record RoomView = Page +
  rv_deps :: "deps option"
  rv_attached :: bool

definition isHost :: "'a Page_scheme \<Rightarrow> bool" where
  "isHost pg \<longleftrightarrow>
     (case pg_identity pg of None \<Rightarrow> False | Some i \<Rightarrow> map_option hostUserId (pg_room pg) = Some (id_id i))"

definition roomClosed :: "'a Page_scheme \<Rightarrow> bool" where
  "roomClosed pg \<longleftrightarrow> map_option rm_status (pg_room pg) = Some CLOSED_STATUS"

definition playbackMedia :: "'a Page_scheme \<Rightarrow> string option" where
  "playbackMedia pg = Option.bind (pg_playback pg) mediaId"

definition roomMedia :: "'a Page_scheme \<Rightarrow> string option" where
  "roomMedia pg = Option.bind (pg_room pg) rm_mediaId"

definition deps_of :: "'a Page_scheme \<Rightarrow> deps" where
  "deps_of pg =
     \<lparr>d_identity = pg_identityRef pg, d_loading = pg_loading pg, d_connection = pg_connection pg,
      d_isHost = isHost pg, d_roomId = map_option rm_id (pg_room pg), d_closed = roomClosed pg,
      d_playbackMedia = playbackMedia pg, d_roomMedia = roomMedia pg\<rparr>"

text \<open>Whether an effect with these dependencies runs.\<close>

definition changed :: "(deps \<Rightarrow> 'b) \<Rightarrow> deps option \<Rightarrow> deps \<Rightarrow> bool" where
  "changed f old new \<longleftrightarrow> map_option f old \<noteq> Some (f new)"

text \<open>\<open>String.prototype.toUpperCase\<close> on the letters room codes are made of.\<close>

definition to_upper :: "string \<Rightarrow> string" where
  "to_upper s = map (\<lambda>c. if 97 \<le> (of_char c :: nat) \<and> (of_char c :: nat) \<le> 122
                          then char_of ((of_char c :: nat) - 32) else c) s"

section \<open>Effects\<close>

text \<open>The bodies take the render they close over and the state they change.\<close>

definition login_effect :: "RoomView \<Rightarrow> RoomView \<Rightarrow> RoomView" where
  "login_effect r pg = (if \<not> pg_loading r \<and> pg_identity r = None then request_out [Nav ''/login''] pg else pg)"

definition connection_effect :: "RoomView \<Rightarrow> RoomView \<Rightarrow> RoomView" where
  "connection_effect r pg =
     (let pg1 = (if pg_connection r = Unauthorized then request_out [Refresh_identity] pg else pg)
      in if pg_connection r = Closed_room then close_room pg1 else pg1)"

definition host_effect :: "RoomView \<Rightarrow> RoomView \<Rightarrow> RoomView" where
  "host_effect r pg = request_out [Ctl_setHost (isHost r)] pg"

definition suspend_effect :: "RoomView \<Rightarrow> RoomView \<Rightarrow> RoomView" where
  "suspend_effect r pg = (if pg_connection r \<noteq> Connected then request_out [Ctl_suspend] pg else pg)"

definition load_effect :: "RoomView \<Rightarrow> RoomView \<Rightarrow> RoomView" where
  "load_effect r pg =
     (case pg_identity r of
        None \<Rightarrow> pg
      | Some i \<Rightarrow>
          request_out ([Request Get_room, Request Get_messages] @ (if id_guest i then [] else [Request Get_library]))
            (pg\<lparr>pg_room := None, pg_messages := [], pg_connection := Connecting\<rparr>))"

text \<open>The effect that owns the connection.\<close>

definition can_attach :: "RoomView \<Rightarrow> bool" where
  "can_attach r \<longleftrightarrow>
     pg_identity r \<noteq> None \<and> map_option rm_code (pg_room r) = Some (to_upper (pg_code r))"

definition socket_effect :: "RoomView \<Rightarrow> RoomView \<Rightarrow> RoomView" where
  "socket_effect r pg =
     (if \<not> can_attach r then pg
      else if roomClosed r then request_out [Ctl_suspend] (pg\<lparr>pg_connection := Closed_room\<rparr>)
      else request_out [Ws_subscribe, Ws_connect] (pg\<lparr>rv_attached := True\<rparr>))"

definition socket_cleanup :: "RoomView \<Rightarrow> RoomView" where
  "socket_cleanup pg =
     (if rv_attached pg then request_out [Ws_unsubscribe, Ws_disconnect] (pg\<lparr>rv_attached := False\<rparr>) else pg)"

text \<open>\<open>playback?.mediaId ?? room?.mediaId\<close>.\<close>

definition media_effect :: "RoomView \<Rightarrow> RoomView \<Rightarrow> RoomView" where
  "media_effect r pg =
     ticket_effect (case playbackMedia r of None \<Rightarrow> roomMedia r | Some m \<Rightarrow> Some m) (pg_identity r \<noteq> None) pg"

definition when_changed :: "(deps \<Rightarrow> 'b) \<Rightarrow> RoomView \<Rightarrow> (RoomView \<Rightarrow> RoomView) \<Rightarrow> RoomView \<Rightarrow> RoomView" where
  "when_changed f r body pg = (if changed f (rv_deps r) (deps_of r) then body pg else pg)"

abbreviation socket_deps :: "deps \<Rightarrow> nat \<times> string option \<times> bool" where
  "socket_deps d \<equiv> (d_identity d, d_roomId d, d_closed d)"

text \<open>The media effect also depends on \<open>ticketNonce\<close>, which only \<open>onMediaError\<close> changes: there the effect is run
  again, so the commit does not look at it.\<close>

definition commit :: "RoomView \<Rightarrow> RoomView" where
  "commit r =
     (let p0 = when_changed socket_deps r socket_cleanup r;
          p1 = when_changed (\<lambda>d. (d_identity d, d_loading d)) r (login_effect r) p0;
          p2 = when_changed d_connection r (connection_effect r) p1;
          p3 = when_changed d_isHost r (host_effect r) p2;
          p4 = when_changed d_connection r (suspend_effect r) p3;
          p5 = when_changed d_identity r (load_effect r) p4;
          p6 = when_changed socket_deps r (socket_effect r) p5;
          p7 = when_changed (\<lambda>d. (d_playbackMedia d, d_roomMedia d, d_roomId d, d_identity d)) r (media_effect r) p6
      in p7\<lparr>rv_deps := Some (deps_of r)\<rparr>)"

section \<open>Answers and actions\<close>

definition room_loaded :: "string + Room \<times> Media option \<Rightarrow> RoomView \<Rightarrow> RoomView" where
  "room_loaded answer pg =
     (case answer of
        Inl msg \<Rightarrow> pg\<lparr>pg_connection := Disconnected, pg_error := Error_text msg\<rparr>
      | Inr (r, m) \<Rightarrow> pg\<lparr>pg_room := Some r, pg_media := m\<rparr>)"

text \<open>\<open>room!.id\<close> of an absent room throws inside the \<open>try\<close>.\<close>

definition with_room :: "(string \<Rightarrow> page_request) \<Rightarrow> RoomView \<Rightarrow> RoomView" where
  "with_room req pg =
     (case pg_room pg of
        None \<Rightarrow> pg\<lparr>pg_error := Type_error\<rparr>
      | Some r \<Rightarrow> request_out [Request (req (rm_id r))] pg)"

definition createInvite :: "RoomView \<Rightarrow> RoomView" where
  "createInvite pg = with_room Post_invite pg"

definition invite_answer :: "string + string \<Rightarrow> RoomView \<Rightarrow> RoomView" where
  "invite_answer answer pg =
     (case answer of
        Inl msg \<Rightarrow> pg\<lparr>pg_error := Error_text msg\<rparr>
      | Inr url \<Rightarrow> request_out [Clipboard url] (pg\<lparr>pg_invite := url\<rparr>))"

definition reopenRoom :: "RoomView \<Rightarrow> RoomView" where
  "reopenRoom pg = (if pg_room pg = None then pg else with_room Post_reopen pg)"

definition reopen_answer :: "string + Room \<Rightarrow> RoomView \<Rightarrow> RoomView" where
  "reopen_answer answer pg =
     (case answer of
        Inl msg \<Rightarrow> pg\<lparr>pg_error := Error_text msg\<rparr>
      | Inr r \<Rightarrow> pg\<lparr>pg_error := No_error, pg_room := Some r\<rparr>)"

definition changeMedia :: "string \<Rightarrow> RoomView \<Rightarrow> RoomView" where
  "changeMedia i pg = (if i = [] then pg else with_room (\<lambda>room. Post_media room i) pg)"

definition failed :: "string \<Rightarrow> RoomView \<Rightarrow> RoomView" where
  "failed msg pg = pg\<lparr>pg_error := Error_text msg\<rparr>"

text \<open>Closing and leaving are confirmed first. The room's identifier is read when the dialogue is confirmed; the source
  has it from the render of the click, which is the same one unless the address changes under the open dialogue.\<close>

definition closeRoom :: "bool \<Rightarrow> RoomView \<Rightarrow> RoomView" where
  "closeRoom confirmed pg = (if \<not> confirmed then pg else with_room Post_close pg)"

definition close_answer :: "string option \<Rightarrow> RoomView \<Rightarrow> RoomView" where
  "close_answer answer pg = (case answer of Some msg \<Rightarrow> failed msg pg | None \<Rightarrow> close_room pg)"

definition leaveRoom :: "bool \<Rightarrow> RoomView \<Rightarrow> RoomView" where
  "leaveRoom confirmed pg = (if \<not> confirmed then pg else with_room Post_leave pg)"

text \<open>The identity is the one of the render in which the button was clicked.\<close>

definition leave_answer :: "bool \<Rightarrow> string option \<Rightarrow> RoomView \<Rightarrow> RoomView" where
  "leave_answer was_guest answer pg =
     (case answer of
        Some msg \<Rightarrow> failed msg pg
      | None \<Rightarrow> request_out [Refresh_identity, Nav (if was_guest then ''/login'' else ''/'')] pg)"

text \<open>The buttons of a member: making it the host, and removing it. \<open>room!.id\<close> is read outside any \<open>try\<close>.\<close>

definition transferHost :: "string \<Rightarrow> RoomView \<Rightarrow> RoomView" where
  "transferHost i pg = (case pg_room pg of None \<Rightarrow> pg | Some r \<Rightarrow> request_out [Request (Post_transfer (rm_id r) i)] pg)"

definition kickMember :: "string \<Rightarrow> RoomView \<Rightarrow> RoomView" where
  "kickMember i pg = (case pg_room pg of None \<Rightarrow> pg | Some r \<Rightarrow> request_out [Request (Post_kick (rm_id r) i)] pg)"

text \<open>Leaving the page: the cleanups of both effects.\<close>

definition unmount :: "RoomView \<Rightarrow> RoomView" where
  "unmount pg = (socket_cleanup pg)\<lparr>tk_instance := Suc (tk_instance pg), tk_timer := None\<rparr>"

section \<open>The life of a page\<close>

datatype view_event =
    Commit
  | Message page_event
  | Ticket_event ticket_event
  | Auth "Identity option" bool
  | Status ConnectionStatus
  | Room_loaded "string + Room \<times> Media option"
  | Library_loaded "Media list"
  | Create_invite
  | Invite_answer "string + string"
  | Reopen
  | Reopen_answer "string + Room"
  | Change_media string
  | Close bool
  | Close_answer "string option"
  | Leave bool
  | Leave_answer bool "string option"
  | Action_failed string
  | Transfer string
  | Kick string
  | Hide_invite
  | Hide_error
  | Unmount

text \<open>The listener is only called while it is subscribed; the media effect runs in commits only.\<close>

fun view_step :: "view_event \<Rightarrow> RoomView \<Rightarrow> RoomView" where
  "view_step Commit pg = commit pg"
| "view_step (Message (Live now m)) pg = (if rv_attached pg then on_room_message now m pg else pg)"
| "view_step (Message (History h)) pg = page_step (History h) pg"
| "view_step (Ticket_event (Effect m b)) pg = pg"
| "view_step (Ticket_event ev) pg = ticket_step ev pg"
| "view_step (Auth i l) pg =
     (if i = None \<and> pg_identity pg = None then pg\<lparr>pg_loading := l\<rparr>
      else pg\<lparr>pg_identity := i, pg_identityRef := Suc (pg_identityRef pg), pg_loading := l\<rparr>)"
| "view_step (Status s) pg = pg\<lparr>pg_connection := s\<rparr>"
| "view_step (Room_loaded a) pg = room_loaded a pg"
| "view_step (Library_loaded ms) pg = pg\<lparr>pg_library := ms\<rparr>"
| "view_step Create_invite pg = createInvite pg"
| "view_step (Invite_answer a) pg = invite_answer a pg"
| "view_step Reopen pg = reopenRoom pg"
| "view_step (Reopen_answer a) pg = reopen_answer a pg"
| "view_step (Change_media i) pg = changeMedia i pg"
| "view_step (Close b) pg = closeRoom b pg"
| "view_step (Close_answer a) pg = close_answer a pg"
| "view_step (Leave b) pg = leaveRoom b pg"
| "view_step (Leave_answer g a) pg = leave_answer g a pg"
| "view_step (Action_failed msg) pg = failed msg pg"
| "view_step (Transfer i) pg = transferHost i pg"
| "view_step (Kick i) pg = kickMember i pg"
| "view_step Hide_invite pg = pg\<lparr>pg_invite := []\<rparr>"
| "view_step Hide_error pg = pg\<lparr>pg_error := No_error\<rparr>"
| "view_step Unmount pg = unmount pg"

definition newView :: "string \<Rightarrow> RoomView" where
  "newView code = Page.extend (newPage\<lparr>pg_code := code\<rparr>) \<lparr>rv_deps = None, rv_attached = False\<rparr>"

inductive view_trans :: "RoomView \<Rightarrow> view_event \<Rightarrow> RoomView \<Rightarrow> bool" where
  view_trans: "view_trans pg ev (view_step ev pg)"

inductive_cases view_transE: "view_trans pg ev pg'"

definition view_init :: "RoomView \<Rightarrow> bool" where
  "view_init pg \<longleftrightarrow> (\<exists>code. pg = newView code)"

abbreviation view_reachable :: "RoomView \<Rightarrow> bool" where
  "view_reachable \<equiv> reachable view_init view_trans"

section \<open>The connection is used in pairs\<close>

text \<open>The protocol of the connection: subscribe and connect, then unsubscribe and disconnect.\<close>

datatype link = Idle | Subscribed | Live_link | Unsubscribed | Misused

fun link_step :: "page_cmd \<Rightarrow> link \<Rightarrow> link" where
  "link_step Ws_subscribe l = (if l = Idle then Subscribed else Misused)"
| "link_step Ws_connect l = (if l = Subscribed then Live_link else Misused)"
| "link_step Ws_unsubscribe l = (if l = Live_link then Unsubscribed else Misused)"
| "link_step Ws_disconnect l = (if l = Unsubscribed then Idle else Misused)"
| "link_step _ l = l"

definition link_of :: "'a Page_scheme \<Rightarrow> link" where
  "link_of pg = fold link_step (pg_out pg) Idle"

definition view_ok :: "RoomView \<Rightarrow> bool" where
  "view_ok pg \<longleftrightarrow>
     link_of pg = (if rv_attached pg then Live_link else Idle) \<and>
     (rv_attached pg \<longrightarrow> (\<exists>d. rv_deps pg = Some d \<and> d_roomId d \<noteq> None \<and> \<not> d_closed d))"

text \<open>A change that leaves all of this alone.\<close>

definition same_link :: "RoomView \<Rightarrow> RoomView \<Rightarrow> bool" where
  "same_link a b \<longleftrightarrow> link_of a = link_of b \<and> rv_attached a = rv_attached b \<and> rv_deps a = rv_deps b"

lemma same_link_refl [simp]: "same_link a a"
  by (simp add: same_link_def)

lemma same_link_trans: "same_link a b \<Longrightarrow> same_link b c \<Longrightarrow> same_link a c"
  by (simp add: same_link_def)

lemma view_ok_same: "same_link a b \<Longrightarrow> view_ok b = view_ok a"
  by (simp add: same_link_def view_ok_def)

lemma link_of_request [simp]:
  "link_of (pg\<lparr>pg_out := pg_out pg @ cs\<rparr>) = fold link_step cs (link_of pg)"
  by (simp add: link_of_def)

named_theorems quiet

lemma ticket_frame [simp]:
  "pg_out (ticket_effect m b pg) = pg_out pg" "rv_attached (ticket_effect m b pg) = rv_attached pg"
  "rv_deps (ticket_effect m b pg) = rv_deps pg"
  by (simp_all add: ticket_effect_def Let_def)

lemma same_link_ticket [quiet]: "same_link pg (ticket_step ev pg)"
  by (cases ev) (auto simp: same_link_def link_of_def ticket_effect_def ticket_answer_def ticket_timer_def described_def
      onMediaError_def Let_def split: option.splits sum.splits)

lemma same_link_message [quiet]: "same_link pg (page_step ev pg)"
proof (cases ev)
  case (Live now m)
  then show ?thesis
    by (cases m) (auto simp: same_link_def link_of_def Let_def split: prod.splits)
qed (simp add: same_link_def link_of_def)

lemma same_link_effects [quiet]:
  "same_link pg (login_effect r pg)" "same_link pg (connection_effect r pg)" "same_link pg (host_effect r pg)"
  "same_link pg (suspend_effect r pg)" "same_link pg (load_effect r pg)" "same_link pg (media_effect r pg)"
  by (auto simp: same_link_def link_of_def login_effect_def connection_effect_def host_effect_def suspend_effect_def
      load_effect_def media_effect_def Let_def split: option.splits)

lemma same_link_actions [quiet]:
  "same_link pg (createInvite pg)" "same_link pg (reopenRoom pg)" "same_link pg (changeMedia i pg)"
  "same_link pg (closeRoom b pg)" "same_link pg (leaveRoom b pg)"
  "same_link pg (room_loaded a pg)" "same_link pg (invite_answer a' pg)" "same_link pg (reopen_answer a'' pg)"
  "same_link pg (close_answer c pg)" "same_link pg (leave_answer g c pg)" "same_link pg (failed msg pg)"
  "same_link pg (transferHost i pg)" "same_link pg (kickMember i pg)"
  by (auto simp: same_link_def link_of_def createInvite_def reopenRoom_def changeMedia_def closeRoom_def leaveRoom_def
      with_room_def room_loaded_def invite_answer_def reopen_answer_def close_answer_def leave_answer_def failed_def
      transferHost_def kickMember_def split: option.splits sum.splits)

lemma same_link_when [quiet]: "same_link pg (body pg) \<Longrightarrow> same_link pg (when_changed f r body pg)"
  by (simp add: when_changed_def)


text \<open>A commit, seen from the connection: the cleanup and the body of its own effect.\<close>

lemma commit_cases:
  obtains p5 p7 where "same_link (when_changed socket_deps r socket_cleanup r) p5"
    and "same_link (when_changed socket_deps r (socket_effect r) p5) p7"
    and "commit r = p7\<lparr>rv_deps := Some (deps_of r)\<rparr>"
proof -
  define p0 where "p0 = when_changed socket_deps r socket_cleanup r"
  define p1 where "p1 = when_changed (\<lambda>d. (d_identity d, d_loading d)) r (login_effect r) p0"
  define p2 where "p2 = when_changed d_connection r (connection_effect r) p1"
  define p3 where "p3 = when_changed d_isHost r (host_effect r) p2"
  define p4 where "p4 = when_changed d_connection r (suspend_effect r) p3"
  define p5 where "p5 = when_changed d_identity r (load_effect r) p4"
  define p6 where "p6 = when_changed socket_deps r (socket_effect r) p5"
  define p7 where "p7 = when_changed (\<lambda>d. (d_playbackMedia d, d_roomMedia d, d_roomId d, d_identity d)) r (media_effect r) p6"
  have "same_link p0 p1" "same_link p1 p2" "same_link p2 p3" "same_link p3 p4" "same_link p4 p5" and p67: "same_link p6 p7"
    unfolding p1_def p2_def p3_def p4_def p5_def p7_def by (intro quiet)+
  then have "same_link p0 p5" by (blast intro: same_link_trans)
  moreover have "commit r = p7\<lparr>rv_deps := Some (deps_of r)\<rparr>"
    by (simp add: commit_def Let_def p0_def p1_def p2_def p3_def p4_def p5_def p6_def p7_def)
  ultimately show ?thesis using that p67 unfolding p0_def p6_def by blast
qed

lemma cleanup_idle: "view_ok r \<Longrightarrow> link_of (socket_cleanup r) = Idle \<and> \<not> rv_attached (socket_cleanup r)"
  by (auto simp: view_ok_def socket_cleanup_def link_of_def)

lemma commit_changed:
  assumes "view_ok r" and "changed socket_deps (rv_deps r) (deps_of r)"
  shows "rv_attached (commit r) = (can_attach r \<and> \<not> roomClosed r) \<and>
         link_of (commit r) = (if can_attach r \<and> \<not> roomClosed r then Live_link else Idle)"
proof -
  obtain p5 p7 where p: "same_link (socket_cleanup r) p5" "same_link (socket_effect r p5) p7"
    "commit r = p7\<lparr>rv_deps := Some (deps_of r)\<rparr>"
    using commit_cases [of r] assms(2) by (auto simp: when_changed_def)
  have "link_of p5 = Idle" "\<not> rv_attached p5" using cleanup_idle [OF assms(1)] p(1) by (auto simp: same_link_def)
  then have "link_of p7 = (if can_attach r \<and> \<not> roomClosed r then Live_link else Idle) \<and>
             rv_attached p7 = (can_attach r \<and> \<not> roomClosed r)"
    using p(2) by (auto simp: same_link_def socket_effect_def link_of_def split: if_splits)
  then show ?thesis using p(3) by (simp add: link_of_def)
qed

lemma commit_unchanged:
  assumes "\<not> changed socket_deps (rv_deps r) (deps_of r)"
  shows "rv_attached (commit r) = rv_attached r \<and> link_of (commit r) = link_of r"
proof -
  obtain p5 p7 where p: "same_link r p5" "same_link p5 p7" "commit r = p7\<lparr>rv_deps := Some (deps_of r)\<rparr>"
    using commit_cases [of r] assms by (auto simp: when_changed_def)
  then show ?thesis by (auto simp: same_link_def link_of_def)
qed

lemma commit_deps [simp]: "rv_deps (commit r) = Some (deps_of r)"
  by (simp add: commit_def Let_def)

lemma view_ok_commit:
  assumes "view_ok r"
  shows "view_ok (commit r)"
proof (cases "changed socket_deps (rv_deps r) (deps_of r)")
  case True
  then show ?thesis using commit_changed [OF assms True]
    by (auto simp: view_ok_def can_attach_def deps_of_def)
next
  case False
  then show ?thesis using commit_unchanged [OF False] assms
    by (auto simp: view_ok_def changed_def)
qed

lemma view_ok_step:
  assumes "view_ok pg"
  shows "view_ok (view_step ev pg)"
proof -
  consider "ev = Commit" | "ev = Unmount" | "same_link pg (view_step ev pg)"
  proof (cases ev)
    case (Message m)
    then have "same_link pg (view_step ev pg)"
      using same_link_message [of pg m] by (cases m) auto
    then show ?thesis by (rule that(3))
  next
    case (Ticket_event t)
    then have "same_link pg (view_step ev pg)"
      using same_link_ticket [of pg t] by (cases t) auto
    then show ?thesis by (rule that(3))
  next
    case (Auth i l)
    then show ?thesis by (intro that(3)) (simp add: same_link_def link_of_def)
  next
    case (Status s)
    then show ?thesis by (intro that(3)) (simp add: same_link_def link_of_def)
  next
    case (Library_loaded s)
    then show ?thesis by (intro that(3)) (simp add: same_link_def link_of_def)
  next
    case Hide_invite
    then show ?thesis by (intro that(3)) (simp add: same_link_def link_of_def)
  next
    case Hide_error
    then show ?thesis by (intro that(3)) (simp add: same_link_def link_of_def)
  qed (use that quiet in \<open>auto\<close>)
  then show ?thesis
  proof cases
    case 1
    then show ?thesis using view_ok_commit [OF assms] by simp
  next
    case 2
    then show ?thesis using cleanup_idle [OF assms] by (simp add: unmount_def view_ok_def link_of_def)
  next
    case 3
    then show ?thesis using view_ok_same assms by blast
  qed
qed

text \<open>No effect changes whose page it is.\<close>

definition same_who :: "RoomView \<Rightarrow> RoomView \<Rightarrow> bool" where
  "same_who a b \<longleftrightarrow> pg_identity a = pg_identity b \<and> pg_code a = pg_code b \<and> pg_identityRef a = pg_identityRef b"

lemma same_who_effects:
  "same_who a pg \<Longrightarrow> same_who a (login_effect r pg)" "same_who a pg \<Longrightarrow> same_who a (connection_effect r pg)"
  "same_who a pg \<Longrightarrow> same_who a (host_effect r pg)" "same_who a pg \<Longrightarrow> same_who a (suspend_effect r pg)"
  "same_who a pg \<Longrightarrow> same_who a (load_effect r pg)" "same_who a pg \<Longrightarrow> same_who a (media_effect r pg)"
  "same_who a pg \<Longrightarrow> same_who a (socket_effect r pg)" "same_who a pg \<Longrightarrow> same_who a (socket_cleanup pg)"
  by (auto simp: same_who_def login_effect_def connection_effect_def host_effect_def suspend_effect_def load_effect_def
      media_effect_def socket_effect_def socket_cleanup_def ticket_effect_def Let_def split: option.splits)

lemma same_who_when:
  "same_who a pg \<Longrightarrow> (same_who a pg \<Longrightarrow> same_who a (body pg)) \<Longrightarrow> same_who a (when_changed f r body pg)"
  by (simp add: when_changed_def)

lemma same_who_commit: "same_who r (commit r)"
proof -
  have deps: "same_who r pg \<Longrightarrow> same_who r (pg\<lparr>rv_deps := d\<rparr>)" for pg d by (simp add: same_who_def)
  show ?thesis
    unfolding commit_def Let_def
    by (intro deps same_who_when same_who_effects; (assumption | simp add: same_who_def)?)
qed

interpretation view_inv: invariant_system view_init view_trans view_ok
proof unfold_locales
  show "view_init pg \<Longrightarrow> view_ok pg" for pg
    by (auto simp: view_init_def newView_def newPage_def Page.defs view_ok_def link_of_def)
  show "view_ok pg \<Longrightarrow> view_trans pg ev pg' \<Longrightarrow> view_ok pg'" for pg ev pg'
    by (erule view_transE) (simp add: view_ok_step del: view_step.simps)
qed

text \<open>
  The page uses its connection in pairs: in every reachable state the commands it gave are
  subscribe, connect, unsubscribe, disconnect, over and over, with nothing doubled or left out; it is
  inside such a pair exactly while it counts as attached; and then the room of the last commit was
  there and open. So no listener is ever registered twice and none is left behind.
\<close>

theorem connection_in_pairs:
  assumes "view_reachable pg"
  shows "fold link_step (pg_out pg) Idle = (if rv_attached pg then Live_link else Idle) \<and>
         (rv_attached pg \<longrightarrow> (\<exists>d. rv_deps pg = Some d \<and> d_roomId d \<noteq> None \<and> \<not> d_closed d))"
  using view_inv.inv_reachable [OF assms] by (simp add: view_ok_def link_of_def)


definition demo_room :: Room where
  "demo_room = \<lparr>rm_id = ''r'', rm_code = ''AB'', rm_title = ''t'', hostUserId = ''u'', rm_mediaId = Some ''m'',
     rm_status = OPEN_ROOM, maxMembers = 8, rm_createdAtMs = 0\<rparr>"

definition demo_identity :: Identity where
  "demo_identity = \<lparr>id_role = None, id_username = None, id_id = ''u'', id_nickname = ''Una'', id_roomId = None, id_guest = False\<rparr>"

definition demo_view_events :: "view_event list" where
  "demo_view_events = [Commit, Auth (Some demo_identity) False, Commit, Commit, Room_loaded (Inr (demo_room, None)), Commit]"

lemma view_reachable_run: "view_reachable pg \<Longrightarrow> view_reachable (fold view_step evs pg)"
  by (induction evs arbitrary: pg) (auto intro: reachable_step view_trans simp del: view_step.simps)

lemma demo_view_reachable: "view_reachable (fold view_step demo_view_events (newView ''ab''))"
  by (intro view_reachable_run reachable_init) (auto simp: view_init_def)

lemma demo_view_attached: "rv_attached (fold view_step demo_view_events (newView ''ab''))"
  by code_simp

theorem connection_in_pairs_witness:
  "fold link_step (pg_out (fold view_step demo_view_events (newView ''ab''))) Idle = Live_link"
  using connection_in_pairs [OF demo_view_reachable] demo_view_attached by simp

text \<open>
  The connection follows the room: once a change of the identity or of the room is committed, the
  page is attached exactly when there is an identity and the room of its code, and that room is not
  closed. In particular a commit after the room was closed, by a message, by the connection or by the
  host's own click, leaves it detached, and it stays so until the room or the identity changes again.
\<close>

theorem connection_follows_room:
  assumes "view_reachable pg" and "map_option socket_deps (rv_deps pg) \<noteq> Some (socket_deps (deps_of pg))"
  shows "rv_attached (view_step Commit pg) =
     (pg_identity pg \<noteq> None \<and> map_option rm_code (pg_room pg) = Some (to_upper (pg_code pg)) \<and> \<not> roomClosed pg)"
  using commit_changed [OF view_inv.inv_reachable [OF assms(1)]] assms(2) by (simp add: changed_def can_attach_def)

theorem connection_follows_room_witness:
  "\<not> rv_attached (view_step Commit (fold view_step (demo_view_events @ [Close True, Close_answer None]) (newView ''ab'')))"
proof -
  let ?pg = "fold view_step (demo_view_events @ [Close True, Close_answer None]) (newView ''ab'')"
  have "view_reachable ?pg" by (intro view_reachable_run reachable_init) (auto simp: view_init_def)
  moreover have "map_option socket_deps (rv_deps ?pg) \<noteq> Some (socket_deps (deps_of ?pg))" "roomClosed ?pg" by code_simp+
  ultimately show ?thesis using connection_follows_room by (simp del: view_step.simps)
qed

text \<open>
  Closing and opening again is a round trip: from a reachable attached page, the acknowledged close
  and its commit detach it, and the answer to the reopening, with the same room open, attaches it again
  at the next commit; in between the connection was told to disconnect and then to connect.
\<close>

theorem close_reopen_roundtrip:
  assumes "view_reachable pg" and "pg_room pg = Some r" and "rm_status r \<noteq> CLOSED_STATUS"
    and "rv_deps pg = Some (deps_of pg)" and "can_attach pg"
    and "r' = r\<lparr>rm_status := OPEN_ROOM\<rparr>"
  shows "let p1 = view_step Commit (view_step (Close_answer None) pg);
             p2 = view_step Commit (view_step (Reopen_answer (Inr r')) p1)
         in \<not> rv_attached p1 \<and> link_of p1 = Idle \<and> rv_attached p2 \<and> link_of p2 = Live_link"
proof -
  let ?q = "close_answer None pg"
  define p1 where "p1 = commit ?q"
  define q1 where "q1 = reopen_answer (Inr r') p1"
  have ok: "view_ok ?q" using view_inv.inv_reachable [OF assms(1)] same_link_actions(9) view_ok_same by blast
  have q: "pg_room ?q = Some (r\<lparr>rm_status := CLOSED_STATUS\<rparr>)" "rv_deps ?q = rv_deps pg" "pg_identityRef ?q = pg_identityRef pg"
    using assms(2) by (simp_all add: close_answer_def)
  have "changed socket_deps (rv_deps ?q) (deps_of ?q)"
    using assms q by (simp add: changed_def deps_of_def roomClosed_def)
  from commit_changed [OF ok this] have p1: "\<not> rv_attached p1" "link_of p1 = Idle"
    using q by (simp_all add: p1_def roomClosed_def)
  have keep: "pg_identity p1 = pg_identity pg" "pg_code p1 = pg_code pg" "pg_identityRef p1 = pg_identityRef pg"
    using same_who_commit [of ?q] by (simp_all add: same_who_def p1_def close_answer_def)
  have ok1: "view_ok q1"
    unfolding q1_def p1_def using view_ok_commit [OF ok] same_link_actions(8) view_ok_same by blast
  have q1: "pg_room q1 = Some r'" "pg_identity q1 = pg_identity pg" "pg_code q1 = pg_code pg"
    "rv_deps q1 = Some (deps_of ?q)"
    by (simp_all add: q1_def reopen_answer_def keep) (simp add: p1_def)
  have "changed socket_deps (rv_deps q1) (deps_of q1)"
    using q q1 assms(6) by (simp add: changed_def deps_of_def roomClosed_def)
  from commit_changed [OF ok1 this] have "rv_attached (commit q1)" "link_of (commit q1) = Live_link"
    using assms(2,5,6) q1 by (simp_all add: can_attach_def roomClosed_def)
  with p1 show ?thesis by (simp add: Let_def p1_def q1_def)
qed


theorem close_reopen_roundtrip_witness:
  "let pg = fold view_step (demo_view_events @ [Commit]) (newView ''ab'');
       p1 = view_step Commit (view_step (Close_answer None) pg);
       p2 = view_step Commit (view_step (Reopen_answer (Inr demo_room)) p1)
   in link_of pg = Live_link \<and> link_of p1 = Idle \<and> link_of p2 = Live_link"
proof -
  let ?pg = "fold view_step (demo_view_events @ [Commit]) (newView ''ab'')"
  have r: "view_reachable ?pg" by (intro view_reachable_run reachable_init) (auto simp: view_init_def)
  have "pg_room ?pg = Some demo_room" "rm_status demo_room \<noteq> CLOSED_STATUS" "rv_deps ?pg = Some (deps_of ?pg)"
    "can_attach ?pg" "demo_room = demo_room\<lparr>rm_status := OPEN_ROOM\<rparr>" "link_of ?pg = Live_link"
    by code_simp+
  with close_reopen_roundtrip [OF r] show ?thesis by (metis (no_types, lifting))
qed

end
