(* ===== verification/RoomConnection.thy ===== *)
theory RoomConnection
  imports RoomPage_Effects WebSocketClient_Props
begin

text \<open>
  The room page together with its connection: \<open>pages/RoomPage.tsx\<close> and \<open>realtime/WebSocketClient.ts\<close> as they
  run in the browser. What the page asks of the connection is carried out on the client at once; what the
  client reports or delivers meanwhile goes to the page's callbacks: \<open>onStatus\<close> is the page's setter, and
  the page's listener is the listener 0. How a payload is read as a message of the room is a parameter,
  since the source casts it without a check.
\<close>

section \<open>The two sides\<close>

text \<open>Every listener the page makes is the listener 0: the page never has two at once, since each run of the effect
  is preceded by the cleanup of the one before.\<close>

fun exec_cmd :: "page_cmd \<Rightarrow> WS \<Rightarrow> WS" where
  "exec_cmd Ws_subscribe w = subscribe 0 w"
| "exec_cmd Ws_connect w = connect w"
| "exec_cmd Ws_unsubscribe w = unsubscribe 0 w"
| "exec_cmd Ws_disconnect w = disconnect w"
| "exec_cmd _ w = w"

fun hear :: "(Envelope \<Rightarrow> room_message) \<Rightarrow> rat \<Rightarrow> ws_effect \<Rightarrow> RoomView \<Rightarrow> RoomView" where
  "hear dec t (OnStatus s) pg = view_step (Status s) pg"
| "hear dec t (Deliver l m) pg = (if l = 0 then view_step (Message (Live t (dec m))) pg else pg)"
| "hear dec t _ pg = pg"

definition new_cmds :: "RoomView \<Rightarrow> RoomView \<Rightarrow> page_cmd list" where
  "new_cmds pg pg' = drop (length (pg_out pg)) (pg_out pg')"

definition overheard :: "WS \<Rightarrow> WS \<Rightarrow> ws_effect list" where
  "overheard w w' = drop (length (ws_log w)) (ws_log w')"

datatype conn_event = Page_side view_event | Net_side ws_event

fun conn_step :: "(Envelope \<Rightarrow> room_message) \<Rightarrow> ws_env \<Rightarrow> conn_event \<Rightarrow> RoomView \<times> WS \<Rightarrow> RoomView \<times> WS" where
  "conn_step dec e (Page_side x) (pg, w) =
     (let pg1 = view_step x pg;
          w1 = fold exec_cmd (new_cmds pg pg1) w
      in (fold (hear dec (monoNow e)) (overheard w w1) pg1, w1))"
| "conn_step dec e (Net_side y) (pg, w) =
     (let w1 = ws_handle e y w
      in (fold (hear dec (monoNow e)) (overheard w w1) pg, w1))"

text \<open>Messages and status reports reach the page through the connection, and only the page connects,
  disconnects and subscribes.\<close>

fun proper :: "conn_event \<Rightarrow> bool" where
  "proper (Page_side (Message (Live t m))) = False"
| "proper (Page_side (Status s)) = False"
| "proper (Page_side x) = True"
| "proper (Net_side Connect) = False"
| "proper (Net_side Disconnect) = False"
| "proper (Net_side (Subscribe l)) = False"
| "proper (Net_side (Unsubscribe l)) = False"
| "proper (Net_side y) = True"

inductive conn_trans :: "RoomView \<times> WS \<Rightarrow> (Envelope \<Rightarrow> room_message) \<times> ws_env \<times> conn_event \<Rightarrow> RoomView \<times> WS \<Rightarrow> bool" where
  conn_trans: "proper ev \<Longrightarrow> fresh_uuid e (snd s) \<Longrightarrow> conn_trans s (dec, e, ev) (conn_step dec e ev s)"

inductive_cases conn_transE: "conn_trans s l s'"

definition conn_init :: "RoomView \<times> WS \<Rightarrow> bool" where
  "conn_init s \<longleftrightarrow> (\<exists>code d m. s = (newView code, newWS d m))"

abbreviation conn_reachable :: "RoomView \<times> WS \<Rightarrow> bool" where
  "conn_reachable \<equiv> reachable conn_init conn_trans"

section \<open>Commands are only added\<close>

definition grows :: "RoomView \<Rightarrow> RoomView \<Rightarrow> bool" where
  "grows a b \<longleftrightarrow> (\<exists>cs. pg_out b = pg_out a @ cs)"

lemma grows_same: "pg_out b = pg_out a \<Longrightarrow> grows a b"
  by (simp add: grows_def)

lemma grows_out: "grows a b \<Longrightarrow> pg_out c = pg_out b @ cs \<Longrightarrow> grows a c"
  by (auto simp: grows_def)

lemma grows_trans: "grows a b \<Longrightarrow> grows b c \<Longrightarrow> grows a c"
  by (auto simp: grows_def)

lemma grows_effects:
  "grows pg (login_effect r pg)" "grows pg (connection_effect r pg)" "grows pg (host_effect r pg)"
  "grows pg (suspend_effect r pg)" "grows pg (load_effect r pg)" "grows pg (media_effect r pg)"
  "grows pg (socket_effect r pg)" "grows pg (socket_cleanup pg)"
  by (auto simp: grows_def login_effect_def connection_effect_def host_effect_def suspend_effect_def load_effect_def
      media_effect_def socket_effect_def socket_cleanup_def Let_def split: option.splits)

lemma grows_when: "grows a pg \<Longrightarrow> grows pg (body pg) \<Longrightarrow> grows a (when_changed f r body pg)"
  by (auto simp: when_changed_def intro: grows_trans)

lemma grows_commit: "grows r (commit r)"
proof -
  have deps: "grows r pg \<Longrightarrow> grows r (pg\<lparr>rv_deps := d\<rparr>)" for pg d by (simp add: grows_def)
  show ?thesis
    unfolding commit_def Let_def by (intro deps grows_when grows_effects grows_same refl)
qed

lemma grows_ticket: "pg_out (ticket_step ev pg) = pg_out (pg :: RoomView)"
  by (cases ev) (auto simp: ticket_effect_def ticket_answer_def ticket_timer_def described_def
      onMediaError_def Let_def split: option.splits sum.splits)

lemma grows_message: "grows pg (page_step ev (pg :: RoomView))"
proof (cases ev)
  case (Live now m)
  then show ?thesis by (cases m) (auto simp: grows_def Let_def split: prod.splits)
qed (simp add: grows_def)

lemma grows_step: "grows pg (view_step ev pg)"
proof (cases ev)
  case (Message m)
  then show ?thesis using grows_message [of pg m] by (cases m) (auto simp: grows_def)
next
  case (Ticket_event t)
  then show ?thesis using grows_ticket [of t pg] by (cases t) (auto simp: grows_def)
next
  case Unmount
  then show ?thesis using grows_effects(8) [of pg] by (simp add: grows_def unmount_def)
next
  case Commit
  then show ?thesis using grows_commit by simp
qed (auto simp: grows_def createInvite_def reopenRoom_def changeMedia_def closeRoom_def
      leaveRoom_def with_room_def room_loaded_def invite_answer_def reopen_answer_def close_answer_def leave_answer_def
      failed_def transferHost_def kickMember_def split: option.splits sum.splits)

section \<open>The client, seen from the page\<close>

lemma listeners_deliver [simp]: "ws_listeners (snd (deliver e m ls w)) = ws_listeners w"
  by (induction e m ls w rule: deliver.induct) (simp_all add: tell_def)

lemma listeners_parts:
  "ws_listeners (tell x w) = ws_listeners w" "ws_listeners (set_ready s r w) = ws_listeners w"
  "ws_listeners (close_socket s a w) = ws_listeners w" "ws_listeners (rejectPending rr w) = ws_listeners w"
  "ws_listeners (clearConnectionTimers w) = ws_listeners w" "ws_listeners (clearTimers w) = ws_listeners w"
  "ws_listeners (open_socket w) = ws_listeners w" "ws_listeners (sampleClock e w) = ws_listeners w"
  "ws_listeners (settle_request m w) = ws_listeners w"
  by (simp_all add: tell_def set_ready_def close_socket_def rejectPending_def reject_all_eq clearConnectionTimers_def
      clearTimers_def open_socket_def sampleClock_def settle_request_def Let_def split: option.splits json.splits)

lemma listeners_send: "ws_listeners (snd (send e t p a w)) = ws_listeners w"
  by (simp add: send_def tell_def Let_def split: option.splits prod.splits)

lemma listeners_receive: "ws_listeners (receive e raw w) = ws_listeners w"
proof -
  have d: "ws_listeners (case deliver e m ls v of (ok, w2) \<Rightarrow> if ok then settle_request m w2 else w2) = ws_listeners v" for m ls v
    using listeners_deliver [of e m ls v] by (cases "deliver e m ls v") (simp add: listeners_parts)
  show ?thesis by (simp add: receive_def d Let_def split: sum.splits option.splits)
qed

lemma listeners_handle:
  assumes "proper (Net_side y)"
  shows "ws_listeners (ws_handle e y w) = ws_listeners w"
proof -
  have lost: "ws_listeners (lost e c r v) = ws_listeners v" for c r v
    by (simp add: lost_def listeners_parts Let_def split: option.splits prod.splits)
  have ping: "ws_listeners (ping_fires e v) = ws_listeners v" for v
    by (simp add: ping_fires_def listeners_send split: prod.splits)
  have timer: "ws_listeners (ws_run_timer e k v) = ws_listeners v" for k v
    by (cases k) (simp_all add: listeners_parts stable_fires_def ack_timeout_def ping)
  have opened: "ws_listeners (onopen e x v) = ws_listeners v" for x v
    by (simp add: onopen_def listeners_parts Let_def split: prod.splits)
  show ?thesis
    using assms
    by (cases y) (simp_all add: listeners_send opened listeners_parts onmessage_def listeners_receive onclose_def lost
        onerror_def timer split: option.splits)
qed

lemma stopped_at_rest: "ws_reachable w \<Longrightarrow> ws_stopped w \<Longrightarrow> at_rest w"
  using ws_inv.inv_reachable [of w]
  by (auto simp: at_rest_def no_retry_def ws_ok_def ws_timers_ok_def ws_conn_ok_def t_ok_def)

lemma exec_awaiting: "Awaiting i \<in> set (ws_log (exec_cmd c w)) \<longleftrightarrow> Awaiting i \<in> set (ws_log w)"
  by (cases c) (auto simp: subscribe_def unsubscribe_def connect_def disconnect_def open_socket_def tell_def clearTimers_def
      clearConnectionTimers_def close_socket_def set_ready_def rejectPending_def reject_all_eq Let_def split: option.splits)

lemma exec_reachable:
  assumes "ws_reachable w" and "fresh_uuid e w"
  shows "ws_reachable (exec_cmd c w)" and "fresh_uuid e (exec_cmd c w)"
proof -
  have "ws_reachable (ws_handle e y w)" for y
    using assms by (blast intro: reachable_step ws_step.ws_step)
  from this [of "Subscribe 0"] this [of Connect] this [of "Unsubscribe 0"] this [of Disconnect] assms(1)
  show "ws_reachable (exec_cmd c w)" by (cases c) simp_all
  show "fresh_uuid e (exec_cmd c w)" using assms(2) by (simp add: fresh_uuid_def exec_awaiting)
qed

text \<open>The client is where the page's commands have brought it.\<close>

fun matches :: "link \<Rightarrow> WS \<Rightarrow> bool" where
  "matches Idle w = (ws_listeners w = [] \<and> ws_stopped w)"
| "matches Subscribed w = (ws_listeners w = [0] \<and> ws_stopped w)"
| "matches Live_link w = (ws_listeners w = [0])"
| "matches Unsubscribed w = (ws_listeners w = [])"
| "matches Misused w = True"

lemma matches_exec: "matches l w \<Longrightarrow> matches (link_step c l) (exec_cmd c w)"
proof -
  have dis: "ws_listeners (disconnect v) = ws_listeners v" "ws_stopped (disconnect v)" for v
    by (simp_all add: disconnect_def listeners_parts Let_def split: option.splits)
      (simp add: rejectPending_def reject_all_eq clearTimers_def clearConnectionTimers_def close_socket_def set_ready_def tell_def)
  assume "matches l w"
  then show ?thesis
    by (cases c; cases l) (simp_all add: subscribe_def unsubscribe_def connect_def listeners_parts dis)
qed

lemma exec_all:
  assumes "ws_reachable w" and "fresh_uuid e w" and "matches l w"
  shows "ws_reachable (fold exec_cmd cs w) \<and> matches (fold link_step cs l) (fold exec_cmd cs w)"
  using assms
proof (induction cs arbitrary: l w)
  case (Cons c cs)
  show ?case
    using Cons.IH [OF exec_reachable [OF Cons.prems(1,2)] matches_exec [OF Cons.prems(3)]] by simp
qed simp

lemma hear_quiet: "same_link pg (hear dec t x pg)"
proof (cases x)
  case (Deliver l m)
  then show ?thesis using same_link_message [of pg "Live t (dec m)"] by simp
qed (simp_all add: same_link_def link_of_def)

lemma hear_all: "same_link pg (fold (hear dec t) xs pg)"
  by (induction xs arbitrary: pg) (auto intro: same_link_trans hear_quiet)

section \<open>The composition\<close>

definition conn_ok :: "RoomView \<times> WS \<Rightarrow> bool" where
  "conn_ok s \<longleftrightarrow> view_ok (fst s) \<and> ws_reachable (snd s) \<and> matches (link_of (fst s)) (snd s)"

lemma conn_ok_page:
  assumes "conn_ok (pg, w)" and "fresh_uuid e w"
  shows "conn_ok (conn_step dec e (Page_side x) (pg, w))"
proof -
  define pg1 where "pg1 = view_step x pg"
  define w1 where "w1 = fold exec_cmd (new_cmds pg pg1) w"
  have ok1: "view_ok pg1" using assms(1) view_ok_step by (simp add: conn_ok_def pg1_def)
  obtain cs where cs: "pg_out pg1 = pg_out pg @ cs" using grows_step [of pg x] by (auto simp: grows_def pg1_def)
  then have new: "new_cmds pg pg1 = cs" and l1: "link_of pg1 = fold link_step cs (link_of pg)"
    by (simp_all add: new_cmds_def link_of_def)
  have w1: "ws_reachable w1" "matches (link_of pg1) w1"
    using exec_all [of w e "link_of pg" cs] assms by (simp_all add: conn_ok_def w1_def new l1)
  define pg2 where "pg2 = fold (hear dec (monoNow e)) (overheard w w1) pg1"
  have same: "same_link pg1 pg2" unfolding pg2_def by (rule hear_all)
  have "view_ok pg2" "link_of pg2 = link_of pg1" using view_ok_same [OF same] ok1 same by (simp_all add: same_link_def)
  moreover have "conn_step dec e (Page_side x) (pg, w) = (pg2, w1)"
    by (simp add: Let_def pg1_def w1_def pg2_def)
  ultimately show ?thesis using w1 by (simp add: conn_ok_def)
qed

lemma conn_ok_net:
  assumes "conn_ok (pg, w)" and "fresh_uuid e w" and "proper (Net_side y)"
  shows "conn_ok (conn_step dec e (Net_side y) (pg, w))"
proof -
  define w1 where "w1 = ws_handle e y w"
  have r: "ws_reachable w" "view_ok pg" "matches (link_of pg) w" using assms(1) by (simp_all add: conn_ok_def)
  have r1: "ws_reachable w1" unfolding w1_def using r(1) assms(2) by (blast intro: reachable_step ws_step.ws_step)
  have ls: "ws_listeners w1 = ws_listeners w" unfolding w1_def using assms(3) by (rule listeners_handle)
  have "y \<noteq> Connect" using assms(3) by auto
  then have "ws_stopped w \<Longrightarrow> ws_stopped w1"
    using at_rest_step [of w y e] stopped_at_rest [OF r(1)] by (simp add: w1_def at_rest_def)
  then have m1: "matches (link_of pg) w1" using r(3) ls by (cases "link_of pg") simp_all
  define pg2 where "pg2 = fold (hear dec (monoNow e)) (overheard w w1) pg"
  have same: "same_link pg pg2" unfolding pg2_def by (rule hear_all)
  have "view_ok pg2" "link_of pg2 = link_of pg" using view_ok_same [OF same] r(2) same by (simp_all add: same_link_def)
  moreover have "conn_step dec e (Net_side y) (pg, w) = (pg2, w1)" by (simp add: Let_def w1_def pg2_def)
  ultimately show ?thesis using r1 m1 by (simp add: conn_ok_def)
qed

interpretation conn_inv: invariant_system conn_init conn_trans conn_ok
proof unfold_locales
  show "conn_init s \<Longrightarrow> conn_ok s" for s
  proof -
    assume "conn_init s"
    then obtain code d m where s: "s = (newView code, newWS d m)" by (auto simp: conn_init_def)
    have "view_ok (newView code)" by (rule view_inv.inv_init) (auto simp: view_init_def)
    then show "conn_ok s"
      by (simp add: s conn_ok_def newWS_reachable) (simp add: newView_def newPage_def Page.defs link_of_def newWS_def)
  qed
  show "conn_ok s \<Longrightarrow> conn_trans s l s' \<Longrightarrow> conn_ok s'" for s l s'
  proof (erule conn_transE)
    fix ev e dec
    assume ok: "conn_ok s" and s': "s' = conn_step dec e ev s" and "proper ev" "fresh_uuid e (snd s)"
    then show "conn_ok s'"
      by (cases s; cases ev) (auto simp: conn_ok_page conn_ok_net simp del: conn_step.simps)
  qed
qed

text \<open>
  C19. The page and its connection stay together: whatever the network, the user and the interface do, and
  in whatever order, the client only takes steps of its own relation, the page's listener is registered
  exactly once while the page is attached and not at all otherwise, and a page that is not attached
  leaves the client at rest: stopped, without a socket and without a timer that would open one.
\<close>

theorem room_connection:
  assumes "conn_reachable s"
  shows "ws_reachable (snd s) \<and> ws_listeners (snd s) = (if rv_attached (fst s) then [0] else []) \<and>
         (\<not> rv_attached (fst s) \<longrightarrow> ws_stopped (snd s) \<and> ws_socket (snd s) = None \<and>
            (\<forall>h. kind (ws_timers (snd s)) h \<noteq> Some ReconnectT))"
proof -
  have ok: "conn_ok s" using assms by (rule conn_inv.inv_reachable)
  then have r: "ws_reachable (snd s)" and m: "matches (link_of (fst s)) (snd s)"
    and l: "link_of (fst s) = (if rv_attached (fst s) then Live_link else Idle)"
    unfolding conn_ok_def view_ok_def by blast+
  show ?thesis using r m l stopped_at_rest [OF r] by (auto simp: at_rest_def no_retry_def split: if_splits)
qed

fun conn_run :: "(Envelope \<Rightarrow> room_message) \<Rightarrow> (ws_env \<times> conn_event) list \<Rightarrow> RoomView \<times> WS \<Rightarrow> RoomView \<times> WS" where
  "conn_run dec [] s = s"
| "conn_run dec ((e, ev) # evs) s = conn_run dec evs (conn_step dec e ev s)"

fun conn_proper :: "(Envelope \<Rightarrow> room_message) \<Rightarrow> (ws_env \<times> conn_event) list \<Rightarrow> RoomView \<times> WS \<Rightarrow> bool" where
  "conn_proper dec [] s = True"
| "conn_proper dec ((e, ev) # evs) s = (proper ev \<and> fresh_uuid e (snd s) \<and> conn_proper dec evs (conn_step dec e ev s))"

lemma conn_run_reachable:
  "conn_reachable s \<Longrightarrow> conn_proper dec evs s \<Longrightarrow> conn_reachable (conn_run dec evs s)"
proof (induction evs arbitrary: s)
  case (Cons x evs)
  obtain e ev where x: "x = (e, ev)" by (cases x)
  then have "conn_trans s (dec, e, ev) (conn_step dec e ev s)" using Cons.prems(2) by (simp add: conn_trans.intros)
  then have "conn_reachable (conn_step dec e ev s)" by (rule reachable_step [OF Cons.prems(1)])
  then show ?case using Cons.IH Cons.prems(2) by (simp add: x)
qed simp

definition demo_conn_events :: "(ws_env \<times> conn_event) list" where
  "demo_conn_events = map (\<lambda>x. (demo_wenv 0 ''a'', Page_side x)) demo_view_events @ [(demo_wenv 50 ''b'', Net_side (NetOpen 0))]"

theorem room_connection_witness:
  "let s = conn_run (\<lambda>_. Server_shutdown) demo_conn_events (newView ''ab'', newWS 100000 0);
       s' = conn_run (\<lambda>_. Server_shutdown) [(demo_wenv 60 ''c'', Page_side Unmount)] s
   in pg_connection (fst s) = Connected \<and> ws_listeners (snd s) = [0] \<and> ws_socket (snd s') = None"
proof -
  let ?start = "(newView ''ab'', newWS 100000 0)"
  let ?s = "conn_run (\<lambda>_. Server_shutdown) demo_conn_events ?start"
  let ?s' = "conn_run (\<lambda>_. Server_shutdown) [(demo_wenv 60 ''c'', Page_side Unmount)] ?s"
  have "conn_reachable ?start" by (rule reachable_init) (auto simp: conn_init_def)
  then have r: "conn_reachable ?s" by (rule conn_run_reachable) code_simp
  then have r': "conn_reachable ?s'" by (rule conn_run_reachable) code_simp
  have "pg_connection (fst ?s) = Connected" "rv_attached (fst ?s)" "\<not> rv_attached (fst ?s')" by code_simp+
  then show ?thesis
    using room_connection [OF r] room_connection [OF r'] by (simp only: Let_def if_True if_False simp_thms)
qed

end
