(* ===== verification/UI.thy ===== *)
theory UI
  imports JS_Prelude
begin

text \<open>
  What a page shows, as far as it decides what can be done: the elements a component returns, in their
  order, without icons, sizes, colours and wrappers that only arrange them. A button carries what its
  handler does. A fixed text of the source is Chinese and is written in English here; texts that are put
  together from data are put together the same way, and captions on which nothing depends are left out.
  \<open>offers\<close> lists what can be clicked: the buttons that are
  there and not disabled.
\<close>

section \<open>Elements\<close>

datatype 'c ui =
    Label string
  | Note string "'c option"
  | Button string bool 'c
  | Link string string
  | Field string string bool
  | Picker string bool 'c
  | Choice string string "(string \<times> string \<times> 'c) list"
  | Skeleton nat
  | Group string "'c ui list"

text \<open>A \<open>Note\<close> is an alert with what closing it does; a \<open>Picker\<close> opens the file dialogue; a \<open>Choice\<close> has its
  value and its options; a \<open>Group\<close> has the key or the role of its element.\<close>

fun offers :: "'c ui \<Rightarrow> 'c list" where
  "offers (Note t c) = (case c of None \<Rightarrow> [] | Some x \<Rightarrow> [x])"
| "offers (Button l d c) = (if d then [] else [c])"
| "offers (Picker l d c) = (if d then [] else [c])"
| "offers (Choice l v os) = map (\<lambda>(x, t, c). c) os"
| "offers (Group k us) = concat (map offers us)"
| "offers _ = []"

definition offered :: "'c ui list \<Rightarrow> 'c list" where
  "offered us = concat (map offers us)"

lemma offered_simps [simp]:
  "offered [] = []" "offered (u # us) = offers u @ offered us" "offered (us @ vs) = offered us @ offered vs"
  by (simp_all add: offered_def)

lemma offers_Group [simp]: "offers (Group k us) = offered us"
  by (simp add: offered_def)

declare offers.simps(5) [simp del]

lemma offered_map [simp]: "set (offered (map f xs)) = (\<Union>x \<in> set xs. set (offers (f x)))"
  by (simp add: offered_def)

lemma offered_if [simp]: "offered (if b then us else vs) = (if b then offered us else offered vs)"
  by simp

text \<open>\<open>b && element\<close>.\<close>

definition only_if :: "bool \<Rightarrow> 'c ui \<Rightarrow> 'c ui list" where
  "only_if b u = (if b then [u] else [])"

lemma offered_only_if [simp]: "offered (only_if b u) = (if b then offers u else [])"
  by (simp add: only_if_def)

text \<open>A template with a value that may be \<open>undefined\<close>; as a child \<open>undefined\<close> shows nothing.\<close>

definition tmpl :: "string option \<Rightarrow> string" where
  "tmpl v = (case v of None \<Rightarrow> ''undefined'' | Some s \<Rightarrow> s)"

definition child :: "string option \<Rightarrow> string" where
  "child v = (case v of None \<Rightarrow> [] | Some s \<Rightarrow> s)"

section \<open>Using a page\<close>

text \<open>Steps of the page's surroundings, and clicks on what it offers; the clicks are recorded with the
  state they were made in.\<close>

inductive used ::
  "('s \<Rightarrow> 'c ui list) \<Rightarrow> ('s \<Rightarrow> bool) \<Rightarrow> ('s \<Rightarrow> 's \<Rightarrow> bool) \<Rightarrow> ('s \<Rightarrow> 'c \<Rightarrow> 's \<Rightarrow> bool) \<Rightarrow> ('s \<times> 'c) list \<Rightarrow> 's \<Rightarrow> bool"
  for render :: "'s \<Rightarrow> 'c ui list" and init :: "'s \<Rightarrow> bool" and env :: "'s \<Rightarrow> 's \<Rightarrow> bool" and click :: "'s \<Rightarrow> 'c \<Rightarrow> 's \<Rightarrow> bool"
where
  used_init: "init s \<Longrightarrow> used render init env click [] s"
| used_env: "used render init env click h s \<Longrightarrow> env s s' \<Longrightarrow> used render init env click h s'"
| used_click: "used render init env click h s \<Longrightarrow> c \<in> set (offered (render s)) \<Longrightarrow> click s c s' \<Longrightarrow>
     used render init env click (h @ [(s, c)]) s'"

text \<open>
  The contract between a page and its interface: an invariant that its surroundings and the clicks it
  offers preserve, and what a click offered in a good state may be.
\<close>

locale guarded_ui =
  fixes render :: "'s \<Rightarrow> 'c ui list"
    and init :: "'s \<Rightarrow> bool"
    and env :: "'s \<Rightarrow> 's \<Rightarrow> bool"
    and click :: "'s \<Rightarrow> 'c \<Rightarrow> 's \<Rightarrow> bool"
    and good :: "'s \<Rightarrow> bool"
    and permitted :: "'s \<Rightarrow> 'c \<Rightarrow> bool"
  assumes good_init: "init s \<Longrightarrow> good s"
    and good_env: "good s \<Longrightarrow> env s s' \<Longrightarrow> good s'"
    and good_click: "good s \<Longrightarrow> c \<in> set (offered (render s)) \<Longrightarrow> click s c s' \<Longrightarrow> good s'"
    and offered_permitted: "good s \<Longrightarrow> c \<in> set (offered (render s)) \<Longrightarrow> permitted s c"
begin

lemma used_good: "used render init env click h s \<Longrightarrow> good s"
  by (induction rule: used.induct) (auto intro: good_init good_env good_click)

lemma used_permitted: "used render init env click h s \<Longrightarrow> (t, c) \<in> set h \<Longrightarrow> permitted t c"
  by (induction rule: used.induct) (auto dest: used_good offered_permitted)

lemma used_states_good: "used render init env click h s \<Longrightarrow> (t, c) \<in> set h \<Longrightarrow> good t"
  by (induction rule: used.induct) (auto dest: used_good)

end

text \<open>
  Pages on which some requests follow a click only later, after a confirmation: \<open>asks\<close> are the requests made
  and those still to be confirmed. The surroundings add none, and a click adds at most the one it asks
  for; then every request goes back to a click that was offered and permitted.
\<close>

locale traced_ui = guarded_ui render init env click good permitted
  for render :: "'s \<Rightarrow> 'c ui list"
    and init :: "'s \<Rightarrow> bool"
    and env :: "'s \<Rightarrow> 's \<Rightarrow> bool"
    and click :: "'s \<Rightarrow> 'c \<Rightarrow> 's \<Rightarrow> bool"
    and good :: "'s \<Rightarrow> bool"
    and permitted :: "'s \<Rightarrow> 'c \<Rightarrow> bool" +
  fixes asks :: "'s \<Rightarrow> 'q set"
    and asked :: "'c \<Rightarrow> 'q option"
  assumes asks_init: "init s \<Longrightarrow> asks s = {}"
    and asks_env: "env s s' \<Longrightarrow> asks s' \<subseteq> asks s"
    and asks_click: "click s c s' \<Longrightarrow> asks s' \<subseteq> asks s \<union> set_option (asked c)"
begin

lemma used_asked:
  assumes "used render init env click h s" and "q \<in> asks s"
  shows "\<exists>t c. (t, c) \<in> set h \<and> asked c = Some q"
  using assms
proof (induction arbitrary: q rule: used.induct)
  case (used_init s)
  then show ?case using asks_init by blast
next
  case (used_env h s s')
  then show ?case using asks_env by blast
next
  case (used_click h s c s')
  then have "q \<in> asks s \<or> asked c = Some q" using asks_click [of s c s'] by (auto simp: elem_set)
  then show ?case
  proof
    assume "q \<in> asks s"
    from used_click.IH [OF this] show ?case by (metis Un_iff set_append)
  qed auto
qed

lemma used_asked_permitted:
  assumes "used render init env click h s" and "q \<in> asks s"
  shows "\<exists>t c. (t, c) \<in> set h \<and> asked c = Some q \<and> good t \<and> permitted t c"
  using used_asked [OF assms] used_permitted [OF assms(1)] used_states_good [OF assms(1)] by blast

end

end
