(* ===== verification/RoomPanel.thy ===== *)
theory RoomPanel
  imports RoomPage_Effects UI
begin

text \<open>
  The state of the room page that belongs to its display, \<open>web/src/pages/RoomPage.tsx\<close>: the preference for the
  synchronisation status, kept in the browser's storage, and the chat log, which is scrolled to its end as
  long as the reader is there. Where the browser puts the log when its content changes is an event.
\<close>

section \<open>The preference\<close>

text \<open>The browser's storage: out of order (reading and writing throw), or the value of the key, if any.\<close>

datatype storage = Storage_off | Storage "string option"

definition initialSyncStatusPreference :: "storage \<Rightarrow> bool" where
  "initialSyncStatusPreference st = (case st of Storage_off \<Rightarrow> True | Storage v \<Rightarrow> v \<noteq> Some ''off'')"

definition setItem :: "string \<Rightarrow> storage \<Rightarrow> storage" where
  "setItem v st = (case st of Storage_off \<Rightarrow> Storage_off | Storage _ \<Rightarrow> Storage (Some v))"

definition toggleSyncStatus :: "bool \<times> storage \<Rightarrow> bool \<times> storage" where
  "toggleSyncStatus s = (\<not> fst s, setItem (if \<not> fst s then ''on'' else ''off'') (snd s))"

definition visit :: "storage \<Rightarrow> nat \<Rightarrow> bool \<times> storage" where
  "visit st n = (toggleSyncStatus ^^ n) (initialSyncStatusPreference st, st)"

lemma visit_visible: "fst (visit st n) = (if even n then initialSyncStatusPreference st else \<not> initialSyncStatusPreference st)"
  by (induction n) (simp_all add: visit_def toggleSyncStatus_def)

lemma visit_stored: "initialSyncStatusPreference (snd (visit (Storage v) n)) = fst (visit (Storage v) n) \<and> snd (visit (Storage v) n) \<noteq> Storage_off"
proof (induction n)
  case (Suc n)
  then show ?case
    by (cases "snd (visit (Storage v) n)")
      (simp_all add: visit_def toggleSyncStatus_def setItem_def initialSyncStatusPreference_def)
qed (simp add: visit_def)

lemma visit_off: "snd (visit Storage_off n) = Storage_off"
  by (induction n) (simp_all add: visit_def toggleSyncStatus_def setItem_def)

text \<open>
  The preference is kept: however often the status is switched in a visit, the next visit starts with
  what was shown last if the storage works; if it does not, every switch still takes effect in the
  visit, nothing is thrown out of it, and the next visit starts with the status shown.
\<close>

theorem preference_kept:
  "fst (visit (Storage v) n) = initialSyncStatusPreference (snd (visit (Storage v) n)) \<and>
   fst (visit st (Suc n)) = (\<not> fst (visit st n)) \<and>
   initialSyncStatusPreference (snd (visit Storage_off n))"
  using visit_stored [of v n] visit_off [of n]
  by (simp add: visit_visible) (simp add: initialSyncStatusPreference_def)

section \<open>The chat log\<close>

datatype side_panel = Chat_side | Members_side

text \<open>\<open>cl_deps\<close> are the dependencies of the last commit, \<open>cl_frame\<close> says whether an animation frame is
  requested; the geometry is that of the element.\<close>

record ChatLog =
  cl_panel :: side_panel
  cl_keep :: bool
  cl_deps :: "(nat \<times> side_panel) option"
  cl_frame :: bool
  cl_top :: rat
  cl_height :: rat
  cl_client :: rat

definition newChatLog :: ChatLog where
  "newChatLog = \<lparr>cl_panel = Chat_side, cl_keep = True, cl_deps = None, cl_frame = False, cl_top = 0, cl_height = 0, cl_client = 0\<rparr>"

text \<open>The effect on the number of messages and the panel: its cleanup, and its body.\<close>

definition scroll_effect :: "nat \<Rightarrow> ChatLog \<Rightarrow> ChatLog" where
  "scroll_effect n l =
     (if cl_deps l = Some (n, cl_panel l) then l
      else l\<lparr>cl_frame := (cl_panel l = Chat_side \<and> cl_keep l), cl_deps := Some (n, cl_panel l)\<rparr>)"

text \<open>The frame: \<open>scrollTop\<close> is set to the height of the content, which the browser limits to the last
  possible position; the log is only there while its panel is selected.\<close>

definition log_end :: "ChatLog \<Rightarrow> rat" where
  "log_end l = max 0 (cl_height l - cl_client l)"

definition frame_fires :: "ChatLog \<Rightarrow> ChatLog" where
  "frame_fires l =
     (if \<not> cl_frame l then l
      else if cl_panel l = Chat_side then l\<lparr>cl_frame := False, cl_top := log_end l\<rparr> else l\<lparr>cl_frame := False\<rparr>)"

definition onScroll :: "ChatLog \<Rightarrow> ChatLog" where
  "onScroll l = l\<lparr>cl_keep := (cl_height l - cl_top l - cl_client l < 80)\<rparr>"

definition tab_change :: "side_panel \<Rightarrow> ChatLog \<Rightarrow> ChatLog" where
  "tab_change p l = l\<lparr>cl_keep := True, cl_panel := p\<rparr>"

datatype log_event =
    Messages_commit nat
  | Frame
  | Laid_out rat rat rat
  | Scrolled rat
  | Tab side_panel

fun log_step :: "log_event \<Rightarrow> ChatLog \<Rightarrow> ChatLog" where
  "log_step (Messages_commit n) l = scroll_effect n l"
| "log_step Frame l = frame_fires l"
| "log_step (Laid_out y height client) l = l\<lparr>cl_top := y, cl_height := height, cl_client := client\<rparr>"
| "log_step (Scrolled y) l = onScroll (l\<lparr>cl_top := y\<rparr>)"
| "log_step (Tab p) l = tab_change p l"

text \<open>A message has come: the browser lays the log out, the page commits, the frame runs, and the scroll
  that it caused is reported.\<close>

definition message_shown :: "nat \<Rightarrow> rat \<Rightarrow> rat \<Rightarrow> ChatLog \<Rightarrow> ChatLog" where
  "message_shown n y height l =
     (let l1 = fold log_step [Laid_out y height (cl_client l), Messages_commit n, Frame] l in log_step (Scrolled (cl_top l1)) l1)"

definition log_settled :: "nat \<Rightarrow> ChatLog \<Rightarrow> bool" where
  "log_settled n l \<longleftrightarrow> cl_panel l = Chat_side \<and> cl_deps l = Some (n, Chat_side) \<and> \<not> cl_frame l"

lemma live_count:
  assumes "rv_attached pg" and "st_receive now (to_broadcast m) (pg_stream pg) = (True, calls, st)"
  shows "length (pg_messages (view_step (Message (Live now (Chat_message m))) pg)) = min 300 (Suc (length (pg_messages pg)))"
  using assms by (simp add: append_message_def)

text \<open>
  The log follows the conversation: when a new message of the room is shown while fewer than 300 are
  there, a reader within 80 pixels of the end is at the end afterwards and stays a reader who is
  followed, and one who has scrolled up further is left exactly where the browser has put the log.
\<close>

theorem chat_follows:
  assumes "rv_attached pg" and "st_receive now (to_broadcast m) (pg_stream pg) = (True, calls, st)"
    and "length (pg_messages pg) < 300" and "log_settled (length (pg_messages pg)) l"
  shows "let n = length (pg_messages (view_step (Message (Live now (Chat_message m))) pg));
             l' = message_shown n y height l
         in log_settled n l' \<and>
            (cl_keep l \<longrightarrow> cl_top l' = log_end l' \<and> cl_keep l') \<and>
            (\<not> cl_keep l \<longrightarrow> cl_top l' = y)"
  using assms live_count [OF assms(1,2)]
  by (auto simp: message_shown_def log_settled_def scroll_effect_def frame_fires_def onScroll_def log_end_def Let_def max_def)

text \<open>A run of the chat: messages that are delivered, each with where the browser then puts the log and the
  height of its content.\<close>

fun chat_run :: "(rat \<times> ChatMessage \<times> rat \<times> rat) list \<Rightarrow> RoomView \<Rightarrow> ChatLog \<Rightarrow> RoomView \<times> ChatLog" where
  "chat_run [] pg l = (pg, l)"
| "chat_run ((t, m, y, height) # ms) pg l =
     (let pg' = view_step (Message (Live t (Chat_message m))) pg
      in chat_run ms pg' (message_shown (length (pg_messages pg')) y height l))"

lemma full_stays:
  assumes "rv_attached pg" and "length (pg_messages pg) = 300"
  shows "rv_attached (view_step (Message (Live t (Chat_message m))) pg)"
    and "length (pg_messages (view_step (Message (Live t (Chat_message m))) pg)) = 300"
  using assms by (auto simp: append_message_def Let_def split: prod.splits)

lemma message_not_followed:
  assumes "log_settled 300 l"
  shows "message_shown 300 y height l = l\<lparr>cl_top := y, cl_height := height, cl_keep := (height - y - cl_client l < 80)\<rparr>"
  using assms by (simp add: message_shown_def log_settled_def scroll_effect_def frame_fires_def onScroll_def Let_def)

lemma chat_run_full:
  assumes "rv_attached pg" and "length (pg_messages pg) = 300" and "log_settled 300 l"
  shows "rv_attached (fst (chat_run ms pg l)) \<and> length (pg_messages (fst (chat_run ms pg l))) = 300 \<and>
         log_settled 300 (snd (chat_run ms pg l)) \<and> cl_client (snd (chat_run ms pg l)) = cl_client l"
  using assms
proof (induction ms pg l rule: chat_run.induct)
  case (2 t m y height ms pg l)
  have "log_settled 300 (message_shown 300 y height l)" "cl_client (message_shown 300 y height l) = cl_client l"
    using message_not_followed [OF 2(4)] 2(4) by (simp_all add: log_settled_def)
  then show ?case using 2 full_stays [OF 2(2,3), of t m] by (simp add: Let_def del: view_step.simps)
qed simp

lemma chat_run_snoc:
  "chat_run (ms @ [(t, m, y, height)]) pg l =
     (let (pg1, l1) = chat_run ms pg l; pg' = view_step (Message (Live t (Chat_message m))) pg1
      in (pg', message_shown (length (pg_messages pg')) y height l1))"
  by (induction ms pg l rule: chat_run.induct) (simp_all add: Let_def del: view_step.simps)


definition demo_message :: ChatMessage where
  "demo_message = \<lparr>cm_id = ''m'', cm_senderId = ''u'', cm_senderNickname = ''Una'', cm_senderKind = ''user'', cm_content = ''hi'',
     mediaPositionMs = None, createdAtMs = 5\<rparr>"

definition demo_full_chat :: "nat \<Rightarrow> RoomView" where
  "demo_full_chat n = (newView ''ab'')\<lparr>rv_attached := True, pg_messages := replicate n demo_message\<rparr>"

definition demo_log :: "nat \<Rightarrow> ChatLog" where
  "demo_log n = newChatLog\<lparr>cl_deps := Some (n, Chat_side), cl_top := 500, cl_height := 900, cl_client := 400\<rparr>"

lemma demo_full_chat_facts:
  "rv_attached (demo_full_chat n)" "length (pg_messages (demo_full_chat n)) = n" "log_settled n (demo_log n)" "cl_keep (demo_log n)"
  "\<exists>calls st. st_receive 0 (to_broadcast demo_message) (pg_stream (demo_full_chat n)) = (True, calls, st)"
proof -
  have "pg_stream (demo_full_chat n) = newStream" by (simp add: demo_full_chat_def newView_def newPage_def Page.defs)
  moreover have "fst (st_receive 0 (to_broadcast demo_message) newStream)" by code_simp
  ultimately show "\<exists>calls st. st_receive 0 (to_broadcast demo_message) (pg_stream (demo_full_chat n)) = (True, calls, st)"
    by (cases "st_receive 0 (to_broadcast demo_message) newStream") auto
qed (simp_all add: demo_full_chat_def demo_log_def newChatLog_def log_settled_def)

theorem chat_follows_witness: "cl_top (message_shown 3 500 960 (demo_log 2)) = 560"
proof -
  obtain calls st where r: "st_receive 0 (to_broadcast demo_message) (pg_stream (demo_full_chat 2)) = (True, calls, st)"
    using demo_full_chat_facts(5) by blast
  have n: "length (pg_messages (view_step (Message (Live 0 (Chat_message demo_message))) (demo_full_chat 2))) = 3"
    using live_count [OF demo_full_chat_facts(1) r] by (simp only: demo_full_chat_facts)
  have g: "log_end (message_shown 3 500 960 (demo_log 2)) = 560"
    by (simp add: message_shown_def log_end_def scroll_effect_def frame_fires_def onScroll_def demo_log_def newChatLog_def Let_def)
  show ?thesis
    using chat_follows [OF demo_full_chat_facts(1) r, of "demo_log 2" 500 960] n g demo_full_chat_facts(2,3,4) [of 2]
    by (simp only: Let_def simp_thms if_True)
qed


end
