(* ===== verification/Format.thy ===== *)
theory Format
  imports JS_Prelude
begin

text \<open>
  How numbers are shown: decimal digits, \<open>Number.prototype.toFixed\<close> with one digit, \<open>padStart\<close>, and the
  sizes of \<open>web/src/pages/AdminPage.tsx\<close> and \<open>web/src/pages/HomePage.tsx\<close>.
\<close>

section \<open>Digits\<close>

definition digit :: "nat \<Rightarrow> char" where
  "digit d = char_of (48 + d)"

fun show_nat :: "nat \<Rightarrow> string" where
  "show_nat n = (if n < 10 then [digit n] else show_nat (n div 10) @ [digit (n mod 10)])"

declare show_nat.simps [simp del]

definition digit_of :: "char \<Rightarrow> nat" where
  "digit_of c = of_char c - 48"

definition is_digit :: "char \<Rightarrow> bool" where
  "is_digit c \<longleftrightarrow> 48 \<le> (of_char c :: nat) \<and> (of_char c :: nat) \<le> 57"

text \<open>Reading the digits of a text, whatever stands between them.\<close>

definition read_digits :: "string \<Rightarrow> nat" where
  "read_digits s = foldl (\<lambda>n c. 10 * n + digit_of c) 0 (filter is_digit s)"

lemma digit_back: "d < 10 \<Longrightarrow> digit_of (digit d) = d \<and> is_digit (digit d)"
  by (simp add: digit_of_def digit_def is_digit_def)

lemma read_digits_snoc: "is_digit c \<Longrightarrow> read_digits (s @ [c]) = 10 * read_digits s + digit_of c"
  by (simp add: read_digits_def)

lemma read_show: "read_digits (show_nat n) = n"
proof (induction n rule: show_nat.induct)
  case (1 n)
  show ?case
  proof (cases "n < 10")
    case True
    then show ?thesis using digit_back [of n] by (simp add: show_nat.simps [of n] read_digits_def)
  next
    case False
    then show ?thesis using 1 digit_back [of "n mod 10"] by (simp add: show_nat.simps [of n] read_digits_snoc)
  qed
qed

lemma show_digits: "c \<in> set (show_nat n) \<Longrightarrow> is_digit c"
proof (induction n rule: show_nat.induct)
  case (1 n)
  then show ?case using digit_back [of n] digit_back [of "n mod 10"]
    by (cases "n < 10") (auto simp: show_nat.simps [of n])
qed

lemma show_not_Nil: "show_nat n \<noteq> []"
  by (subst show_nat.simps) simp

text \<open>\<open>padStart(2, "0")\<close>.\<close>

definition padStart2 :: "string \<Rightarrow> string" where
  "padStart2 s = replicate (2 - length s) (CHR ''0'') @ s"

section \<open>One decimal\<close>

text \<open>\<open>toFixed(1)\<close> of a number that is not negative (and below \<open>10 ^ 21\<close>): the nearest multiple of a tenth, the
  larger one of two.\<close>

definition tenths :: "rat \<Rightarrow> nat" where
  "tenths x = nat \<lfloor>x * 10 + 1 / 2\<rfloor>"

definition toFixed1 :: "rat \<Rightarrow> string" where
  "toFixed1 x = show_nat (tenths x div 10) @ ''.'' @ show_nat (tenths x mod 10)"

lemma read_append_dot: "read_digits (s @ CHR ''.'' # t) = read_digits (s @ t)"
  by (simp add: read_digits_def is_digit_def)

lemma read_toFixed1: "read_digits (toFixed1 x) = tenths x"
proof -
  have one: "show_nat (tenths x mod 10) = [digit (tenths x mod 10)]" by (subst show_nat.simps) simp
  have "read_digits (toFixed1 x) = read_digits (show_nat (tenths x div 10) @ [digit (tenths x mod 10)])"
    by (simp add: toFixed1_def one read_append_dot)
  also have "\<dots> = 10 * (tenths x div 10) + tenths x mod 10"
    using digit_back [of "tenths x mod 10"] by (simp add: read_digits_snoc read_show)
  finally show ?thesis by simp
qed

lemma tenths_near:
  assumes "0 \<le> x"
  shows "\<bar>of_nat (tenths x) / 10 - x\<bar> \<le> 1 / 20"
proof -
  have "0 \<le> \<lfloor>x * 10 + 1 / 2\<rfloor>" using assms by (simp add: add_nonneg_nonneg)
  then have "(of_nat (tenths x) :: rat) = of_int \<lfloor>x * 10 + 1 / 2\<rfloor>" by (simp add: tenths_def of_nat_nat)
  moreover have "of_int \<lfloor>x * 10 + 1 / 2\<rfloor> \<le> x * 10 + 1 / 2" "x * 10 + 1 / 2 < of_int \<lfloor>x * 10 + 1 / 2\<rfloor> + 1"
    by (rule of_int_floor_le) (rule floor_correct [THEN conjunct2, unfolded of_int_add of_int_1])
  ultimately show ?thesis unfolding abs_le_iff by linarith
qed

lemma tenths_scaled:
  assumes "0 \<le> v" and "0 < u"
  shows "\<bar>of_nat (tenths (v / u)) / 10 * u - v\<bar> \<le> u / 20"
proof -
  have "\<bar>of_nat (tenths (v / u)) / 10 * u - v\<bar> = \<bar>(of_nat (tenths (v / u)) / 10 - v / u) * u\<bar>"
    using assms(2) by (simp add: left_diff_distrib)
  also have "\<dots> = \<bar>of_nat (tenths (v / u)) / 10 - v / u\<bar> * u" using assms(2) by (simp add: abs_mult)
  also have "\<dots> \<le> 1 / 20 * u" using tenths_near [of "v / u"] assms by (intro mult_right_mono) simp_all
  finally show ?thesis by simp
qed

text \<open>\<open>bytes\<close> of the administration page and the megabytes of the home page.\<close>

definition bytes :: "rat \<Rightarrow> string" where
  "bytes v = (if v \<ge> 1024 ^ 3 then toFixed1 (v / 1024 ^ 3) @ '' GB'' else toFixed1 (v / 1024 ^ 2) @ '' MB'')"

definition megabytes :: "rat \<Rightarrow> string" where
  "megabytes v = toFixed1 (v / 1024 / 1024) @ '' MB''"

text \<open>
  Sizes are shown accurately: the digits of what is shown, read as tenths of the unit behind them, are
  within a twentieth of that unit of the true size; the unit is a gigabyte exactly from one gigabyte on,
  and both pages show the same below.
\<close>

theorem bytes_accurate:
  assumes "0 \<le> v"
  shows "\<bar>of_nat (read_digits (bytes v)) / 10 * (if v \<ge> 1024 ^ 3 then 1024 ^ 3 else 1024 ^ 2) - v\<bar>
           \<le> (if v \<ge> 1024 ^ 3 then 1024 ^ 3 else 1024 ^ 2) / 20 \<and>
         (\<exists>n. bytes v = n @ (if v \<ge> 1024 ^ 3 then '' GB'' else '' MB'')) \<and>
         (v < 1024 ^ 3 \<longrightarrow> megabytes v = bytes v)"
proof -
  have tail: "read_digits (s @ '' GB'') = read_digits s" "read_digits (s @ '' MB'') = read_digits s" for s
    by (simp_all add: read_digits_def is_digit_def)
  show ?thesis
  proof (cases "v \<ge> 1024 ^ 3")
    case True
    then have "bytes v = toFixed1 (v / 1024 ^ 3) @ '' GB''" by (simp only: bytes_def if_True)
    then show ?thesis using True tenths_scaled [OF assms, of "1024 ^ 3"] by (simp only: tail read_toFixed1 if_True) simp
  next
    case False
    then have b: "bytes v = toFixed1 (v / 1024 ^ 2) @ '' MB''" by (simp only: bytes_def if_False)
    then show ?thesis
      using False tenths_scaled [OF assms, of "1024 ^ 2"] by (simp only: tail read_toFixed1 if_False) (simp add: megabytes_def)
  qed
qed

theorem bytes_accurate_witness: "bytes 5000000 = ''4.8 MB'' \<and> \<bar>of_nat (read_digits (bytes 5000000)) / 10 * 1024 ^ 2 - (5000000 :: rat)\<bar> \<le> 1024 ^ 2 / 20"
proof -
  have "bytes 5000000 = ''4.8 MB''" by code_simp
  then show ?thesis using bytes_accurate [of 5000000] by simp
qed

end
