(* ===== verification/RoomScreen.thy ===== *)
theory RoomScreen
  imports RoomPanel Format
begin

text \<open>
  What the room page shows and offers, the part of \<open>web/src/pages/RoomPage.tsx\<close> behind \<open>return\<close>: the head with
  the state of the connection, the notices, the choice of the film, the chat and the members. The player
  is theory \<open>VideoPlayer\<close>, the chat form theory \<open>AppShell\<close>. How the runtime writes times and numbers is a
  parameter.
\<close>

section \<open>The parts of the page\<close>

datatype room_click =
    Back_home
  | Reopen_click
  | Invite_click
  | Close_click
  | Leave_click
  | Hide_invite_click
  | Hide_error_click
  | Select_film string
  | Show_tab side_panel
  | Transfer_click string
  | Kick_click string

definition connection_class :: "ConnectionStatus \<Rightarrow> string" where
  "connection_class c = (if c = Connected then ''connected'' else if c = Connecting then ''connecting'' else ''disconnected'')"

definition connection_text :: "ConnectionStatus \<Rightarrow> string" where
  "connection_text c =
     (if c = Connected then ''Connected'' else if c = Connecting then ''Connecting''
      else if c = Superseded then ''Taken over by another page'' else if c = Closed_room then ''The room is closed''
      else if c = Unauthorized then ''Signed out, please sign in again'' else if c = Forbidden then ''Not allowed to enter''
      else if c = Full then ''The room is full'' else ''Disconnected'')"

definition error_text :: "page_error \<Rightarrow> string" where
  "error_text e =
     (case e of No_error \<Rightarrow> [] | Room_closed_text \<Rightarrow> ''The room is closed'' | Maintenance_text \<Rightarrow> ''Maintenance, playback is paused''
      | Error_text m \<Rightarrow> m | Type_error \<Rightarrow> ''undefined has no properties'')"

definition room_head :: "RoomView \<Rightarrow> room_click ui list" where
  "room_head pg =
     [Button ''Back to the home page'' False Back_home,
      Label (case pg_room pg of None \<Rightarrow> ''Entering the room'' | Some r \<Rightarrow> rm_title r),
      Label (''Room '' @ child (map_option rm_code (pg_room pg))),
      Group (connection_class (pg_connection pg)) [Label (connection_text (pg_connection pg))]] @
     only_if (roomClosed pg \<and> isHost pg) (Button ''Reopen the room'' False Reopen_click) @
     only_if (isHost pg) (Button ''Copy the invitation'' False Invite_click) @
     only_if (isHost pg) (Button ''Close the room'' False Close_click) @
     only_if (\<not> isHost pg \<and> pg_room pg \<noteq> None) (Button ''Leave the room'' False Leave_click)"

definition room_notices :: "RoomView \<Rightarrow> room_click ui list" where
  "room_notices pg =
     (if pg_invite pg = [] then []
      else [Note ''The invitation is ready'' (Some Hide_invite_click), Link (pg_invite pg) (pg_invite pg)]) @
     only_if (error_text (pg_error pg) \<noteq> []) (Note (error_text (pg_error pg)) (Some Hide_error_click))"

definition ready_films :: "RoomView \<Rightarrow> Media list" where
  "ready_films pg = filter (\<lambda>m. md_status m = ''READY'') (pg_library pg)"

definition host_tools :: "RoomView \<Rightarrow> room_click ui list" where
  "host_tools pg =
     only_if (isHost pg)
       (Group ''host tools''
          [Label ''Current film'', Label (case pg_media pg of None \<Rightarrow> ''None chosen'' | Some m \<Rightarrow> originalFilename m),
           Choice ''Change the film'' (child (map_option md_id (pg_media pg)))
             (([], ''Choose a film'', Select_film []) #
              map (\<lambda>m. (md_id m, originalFilename m, Select_film (md_id m))) (ready_films pg))])"

definition side_tabs :: "(rat \<Rightarrow> string) \<Rightarrow> RoomView \<Rightarrow> room_click ui list" where
  "side_tabs num pg =
     [Button ''Chat'' False (Show_tab Chat_side), Label (show_nat (length (pg_messages pg))),
      Button ''Members'' False (Show_tab Members_side),
      Label (show_nat (length (pg_members pg)) @ ''/'' @ child (map_option (num \<circ> maxMembers) (pg_room pg)))]"

definition message_item :: "(rat \<Rightarrow> string) \<Rightarrow> string \<Rightarrow> ChatMessage \<Rightarrow> room_click ui" where
  "message_item time own m =
     Group (if cm_senderId m = own then ''message own'' else ''message'')
       [Label (if cm_senderId m = own then ''Me'' else cm_senderNickname m), Label (time (createdAtMs m)), Label (cm_content m)]"

definition chat_panel :: "(rat \<Rightarrow> string) \<Rightarrow> string \<Rightarrow> RoomView \<Rightarrow> room_click ui list" where
  "chat_panel time own pg =
     map (message_item time own) (pg_messages pg) @
     only_if (pg_messages pg = []) (Label ''It is quiet in here. Say something and your friends see it on the screen.'')"

definition member_item :: "bool \<Rightarrow> string \<Rightarrow> Member \<Rightarrow> room_click ui" where
  "member_item host own m =
     Group (mb_id m)
       ([Label (nickname m),
         Label ((if mb_role m = Host_role then ''Host'' else if mb_kind m = Guest_kind then ''Guest'' else ''Member'') @
                (if mb_ready m then '', ready'' else '', loading''))] @
        only_if (online m) (Label ''online'') @
        only_if (host \<and> mb_id m \<noteq> own \<and> mb_kind m = User_kind) (Button ''Make host'' False (Transfer_click (mb_id m))) @
        only_if (host \<and> mb_id m \<noteq> own) (Button ''Remove'' False (Kick_click (mb_id m))))"

definition members_panel :: "string \<Rightarrow> RoomView \<Rightarrow> room_click ui list" where
  "members_panel own pg = Label ''Members'' # map (member_item (isHost pg) own) (pg_members pg)"

text \<open>Only the panel that is selected is there.\<close>

definition room_view :: "(rat \<Rightarrow> string) \<Rightarrow> (rat \<Rightarrow> string) \<Rightarrow> side_panel \<Rightarrow> RoomView \<Rightarrow> room_click ui list" where
  "room_view num time side pg =
     (if pg_loading pg then []
      else case pg_identity pg of
             None \<Rightarrow> []
           | Some i \<Rightarrow>
               room_head pg @ room_notices pg @ host_tools pg @ side_tabs num pg @
               (if side = Chat_side then chat_panel time (id_id i) pg else members_panel (id_id i) pg))"

section \<open>What may be asked of the server\<close>

datatype action_kind =
    Do_invite
  | Do_reopen
  | Do_media string
  | Do_close
  | Do_leave
  | Do_transfer string
  | Do_kick string

fun kind_of_request :: "page_request \<Rightarrow> action_kind option" where
  "kind_of_request (Post_invite r) = Some Do_invite"
| "kind_of_request (Post_reopen r) = Some Do_reopen"
| "kind_of_request (Post_media r m) = Some (Do_media m)"
| "kind_of_request (Post_close r) = Some Do_close"
| "kind_of_request (Post_leave r) = Some Do_leave"
| "kind_of_request (Post_transfer r i) = Some (Do_transfer i)"
| "kind_of_request (Post_kick r i) = Some (Do_kick i)"
| "kind_of_request _ = None"

fun room_asked :: "room_click \<Rightarrow> action_kind option" where
  "room_asked Reopen_click = Some Do_reopen"
| "room_asked Invite_click = Some Do_invite"
| "room_asked Close_click = Some Do_close"
| "room_asked Leave_click = Some Do_leave"
| "room_asked (Select_film i) = Some (Do_media i)"
| "room_asked (Transfer_click i) = Some (Do_transfer i)"
| "room_asked (Kick_click i) = Some (Do_kick i)"
| "room_asked _ = None"

text \<open>Who may ask for what: the host for everything but leaving, of other members, users only for a new
  host, and ready films; a member only for leaving.\<close>

fun may_ask :: "RoomView \<Rightarrow> action_kind \<Rightarrow> bool" where
  "may_ask pg Do_invite = isHost pg"
| "may_ask pg Do_reopen = (isHost pg \<and> roomClosed pg)"
| "may_ask pg (Do_media i) = (isHost pg \<and> (i = [] \<or> (\<exists>m \<in> set (pg_library pg). md_id m = i \<and> md_status m = ''READY'')))"
| "may_ask pg Do_close = isHost pg"
| "may_ask pg Do_leave = (\<not> isHost pg \<and> pg_room pg \<noteq> None)"
| "may_ask pg (Do_transfer i) =
     (isHost pg \<and> map_option id_id (pg_identity pg) \<noteq> Some i \<and> (\<exists>m \<in> set (pg_members pg). mb_id m = i \<and> mb_kind m = User_kind))"
| "may_ask pg (Do_kick i) =
     (isHost pg \<and> map_option id_id (pg_identity pg) \<noteq> Some i \<and> (\<exists>m \<in> set (pg_members pg). mb_id m = i))"

lemma room_offers:
  assumes "c \<in> set (offered (room_view num time side pg))" and "room_asked c = Some k"
  shows "may_ask pg k"
proof -
  obtain i where i: "\<not> pg_loading pg" "pg_identity pg = Some i"
    using assms(1) by (auto simp: room_view_def split: if_splits option.splits)
  have "offered (chat_panel time own pg) = []" for own
  proof -
    have "offered (map (message_item time own) ms) = []" for ms by (induction ms) (simp_all add: message_item_def)
    then show ?thesis by (simp add: chat_panel_def)
  qed
  then have "c \<in> set (offered (room_head pg)) \<or> c \<in> set (offered (host_tools pg)) \<or> c \<in> set (offered (members_panel (id_id i) pg)) \<or>
      c \<in> set (offered (room_notices pg @ side_tabs num pg))"
    using assms(1) by (auto simp: room_view_def i split: if_splits)
  then show ?thesis
  proof (elim disjE)
    assume "c \<in> set (offered (room_head pg))"
    then show ?thesis using assms(2) by (auto simp: room_head_def split: if_splits)
  next
    assume "c \<in> set (offered (host_tools pg))"
    then show ?thesis using assms(2) by (auto simp: host_tools_def ready_films_def split: if_splits)
  next
    assume "c \<in> set (offered (members_panel (id_id i) pg))"
    then show ?thesis using assms(2) by (auto simp: members_panel_def member_item_def i split: if_splits) blast+
  next
    assume "c \<in> set (offered (room_notices pg @ side_tabs num pg))"
    then show ?thesis using assms(2) by (auto simp: room_notices_def side_tabs_def split: if_splits)
  qed
qed

fun of_member :: "action_kind \<Rightarrow> bool" where
  "of_member (Do_transfer i) = True"
| "of_member (Do_kick i) = True"
| "of_member _ = False"

lemma room_offers_all:
  assumes "may_ask pg k" and "\<not> pg_loading pg" and "pg_identity pg = Some i" and "of_member k \<longrightarrow> side = Members_side"
  shows "\<exists>c \<in> set (offered (room_view num time side pg)). room_asked c = Some k"
proof -
  have head: "c \<in> set (offered (room_head pg)) \<Longrightarrow> room_asked c = Some k \<Longrightarrow> ?thesis" for c
    using assms(2,3) by (auto simp: room_view_def)
  have member: "?thesis" if "side = Members_side" "m \<in> set (pg_members pg)" "c \<in> set (offers (member_item (isHost pg) (id_id i) m))"
    "room_asked c = Some k" for m c
    using assms(2,3) that by (auto simp: room_view_def members_panel_def intro!: bexI [of _ c])
  show ?thesis
  proof (cases k)
    case (Do_media x)
    then have "Select_film x \<in> set (offered (host_tools pg))" using assms(1) by (auto simp: host_tools_def ready_films_def)
    then show ?thesis using assms(2,3) Do_media by (auto simp: room_view_def intro!: bexI [of _ "Select_film x"])
  next
    case (Do_transfer x)
    then obtain m where "m \<in> set (pg_members pg)" "mb_id m = x" "mb_kind m = User_kind" using assms(1) by auto
    then show ?thesis using member [of m "Transfer_click x"] assms Do_transfer by (auto simp: member_item_def)
  next
    case (Do_kick x)
    then obtain m where "m \<in> set (pg_members pg)" "mb_id m = x" using assms(1) by auto
    then show ?thesis using member [of m "Kick_click x"] assms Do_kick by (auto simp: member_item_def)
  next
    case Do_invite
    then show ?thesis using head [of Invite_click] assms(1) by (simp add: room_head_def)
  next
    case Do_reopen
    then show ?thesis using head [of Reopen_click] assms(1) by (simp add: room_head_def)
  next
    case Do_close
    then show ?thesis using head [of Close_click] assms(1) by (simp add: room_head_def)
  next
    case Do_leave
    then show ?thesis using head [of Leave_click] assms(1) by (simp add: room_head_def)
  qed
qed

text \<open>
  C21. The room offers everyone what is theirs and nothing else: once the identity is known, an action is
  offered exactly if its owner may take it. The host may invite, choose a ready film, close the room, reopen
  a closed one, hand the room over to another user and remove another member; everybody else may leave;
  nobody is offered to remove themselves, and no guest is offered to become the host.
\<close>

theorem room_offers_exactly:
  assumes "\<not> pg_loading pg" and "pg_identity pg = Some i"
  shows "(\<exists>c \<in> set (offered (room_view num time side pg)). room_asked c = Some k) =
         (may_ask pg k \<and> (of_member k \<longrightarrow> side = Members_side))"
proof
  assume "\<exists>c \<in> set (offered (room_view num time side pg)). room_asked c = Some k"
  then obtain c where c: "c \<in> set (offered (room_view num time side pg))" "room_asked c = Some k" by blast
  have "side = Members_side" if "of_member k"
  proof (rule ccontr)
    assume "side \<noteq> Members_side"
    then have "side = Chat_side" by (cases side) simp_all
    moreover have "offered (map (message_item time own) ms) = []" for own ms by (induction ms) (simp_all add: message_item_def)
    ultimately show False using c that assms
      by (cases k) (auto simp: room_view_def chat_panel_def room_head_def room_notices_def host_tools_def side_tabs_def split: if_splits)
  qed
  then show "may_ask pg k \<and> (of_member k \<longrightarrow> side = Members_side)" using room_offers [OF c] by blast
qed (use room_offers_all assms in blast)

section \<open>Using the page\<close>

text \<open>The page, the panel that is selected, and the confirmations that are open.\<close>

record Screen =
  sc_page :: RoomView
  sc_side :: side_panel
  sc_dialogs :: "action_kind list"

definition room_do :: "view_event \<Rightarrow> Screen \<Rightarrow> Screen" where
  "room_do ev s = s\<lparr>sc_page := view_step ev (sc_page s)\<rparr>"

fun room_click_step :: "room_click \<Rightarrow> Screen \<Rightarrow> Screen" where
  "room_click_step Back_home s = s\<lparr>sc_page := request_out [Nav ''/''] (sc_page s)\<rparr>"
| "room_click_step Reopen_click s = room_do Reopen s"
| "room_click_step Invite_click s = room_do Create_invite s"
| "room_click_step Close_click s = s\<lparr>sc_dialogs := sc_dialogs s @ [Do_close]\<rparr>"
| "room_click_step Leave_click s = s\<lparr>sc_dialogs := sc_dialogs s @ [Do_leave]\<rparr>"
| "room_click_step Hide_invite_click s = room_do Hide_invite s"
| "room_click_step Hide_error_click s = room_do Hide_error s"
| "room_click_step (Select_film i) s = room_do (Change_media i) s"
| "room_click_step (Show_tab p) s = s\<lparr>sc_side := p\<rparr>"
| "room_click_step (Transfer_click i) s = room_do (Transfer i) s"
| "room_click_step (Kick_click i) s = room_do (Kick i) s"

text \<open>The actions among the requests, and those an event asks for.\<close>

definition actions :: "RoomView \<Rightarrow> action_kind set" where
  "actions pg = {k. \<exists>q. Request q \<in> set (pg_out pg) \<and> kind_of_request q = Some k}"

fun event_kind :: "view_event \<Rightarrow> action_kind option" where
  "event_kind Create_invite = Some Do_invite"
| "event_kind Reopen = Some Do_reopen"
| "event_kind (Change_media i) = Some (Do_media i)"
| "event_kind (Close yes) = Some Do_close"
| "event_kind (Leave yes) = Some Do_leave"
| "event_kind (Transfer i) = Some (Do_transfer i)"
| "event_kind (Kick i) = Some (Do_kick i)"
| "event_kind _ = None"

inductive room_env :: "Screen \<Rightarrow> Screen \<Rightarrow> bool" where
  room_event: "event_kind ev = None \<Longrightarrow> room_env s (room_do ev s)"
| room_confirm_close: "Do_close \<in> set (sc_dialogs s) \<Longrightarrow>
     room_env s (room_do (Close yes) (s\<lparr>sc_dialogs := remove1 Do_close (sc_dialogs s)\<rparr>))"
| room_confirm_leave: "Do_leave \<in> set (sc_dialogs s) \<Longrightarrow>
     room_env s (room_do (Leave yes) (s\<lparr>sc_dialogs := remove1 Do_leave (sc_dialogs s)\<rparr>))"

definition room_clicked :: "Screen \<Rightarrow> room_click \<Rightarrow> Screen \<Rightarrow> bool" where
  "room_clicked s c s' \<longleftrightarrow> s' = room_click_step c s"

definition room_init :: "Screen \<Rightarrow> bool" where
  "room_init s \<longleftrightarrow> view_init (sc_page s) \<and> sc_dialogs s = []"

definition screen_view :: "(rat \<Rightarrow> string) \<Rightarrow> (rat \<Rightarrow> string) \<Rightarrow> Screen \<Rightarrow> room_click ui list" where
  "screen_view num time s = room_view num time (sc_side s) (sc_page s)"

definition room_asks :: "Screen \<Rightarrow> action_kind set" where
  "room_asks s = actions (sc_page s) \<union> set (sc_dialogs s)"

definition no_new :: "RoomView \<Rightarrow> RoomView \<Rightarrow> bool" where
  "no_new a b \<longleftrightarrow> actions b \<subseteq> actions a"

lemma actions_request: "actions (request_out cs pg) = actions pg \<union> {k. \<exists>q. Request q \<in> set cs \<and> kind_of_request q = Some k}"
  by (auto simp: actions_def)

lemma actions_same: "pg_out b = pg_out a \<Longrightarrow> actions b = actions a"
  by (simp add: actions_def)

lemma no_new_effects:
  "no_new pg (login_effect r pg)" "no_new pg (connection_effect r pg)" "no_new pg (host_effect r pg)"
  "no_new pg (suspend_effect r pg)" "no_new pg (load_effect r pg)" "no_new pg (media_effect r pg)"
  "no_new pg (socket_effect r pg)" "no_new pg (socket_cleanup pg)"
  by (auto simp: no_new_def actions_def login_effect_def connection_effect_def host_effect_def suspend_effect_def load_effect_def
      media_effect_def socket_effect_def socket_cleanup_def Let_def split: option.splits if_splits)

lemma no_new_trans: "no_new a b \<Longrightarrow> no_new b c \<Longrightarrow> no_new a c"
  by (auto simp: no_new_def)

lemma no_new_when: "no_new a pg \<Longrightarrow> no_new pg (body pg) \<Longrightarrow> no_new a (when_changed f r body pg)"
  by (auto simp: when_changed_def intro: no_new_trans)

lemma no_new_commit: "no_new r (commit r)"
proof -
  have deps: "no_new r pg \<Longrightarrow> no_new r (pg\<lparr>rv_deps := d\<rparr>)" for pg d by (simp add: no_new_def actions_def)
  have self: "no_new r r" by (simp add: no_new_def)
  show ?thesis unfolding commit_def Let_def by (intro deps no_new_when no_new_effects self)
qed

lemma ticket_out: "pg_out (ticket_step ev pg) = pg_out (pg :: RoomView)"
  by (cases ev) (auto simp: ticket_effect_def ticket_answer_def ticket_timer_def described_def
      onMediaError_def Let_def split: option.splits sum.splits)

lemma no_new_message: "no_new pg (page_step ev (pg :: RoomView))"
proof (cases ev)
  case (Live now m)
  then show ?thesis by (cases m) (auto simp: no_new_def actions_def Let_def split: prod.splits)
qed (simp add: no_new_def actions_def)

lemma actions_step: "actions (view_step ev pg) \<subseteq> actions pg \<union> set_option (event_kind ev)"
proof (cases ev)
  case (Message m)
  then show ?thesis using no_new_message [of pg m] by (cases m) (auto simp: no_new_def)
next
  case (Ticket_event t)
  then show ?thesis using actions_same [OF ticket_out [of t pg]] by (cases t) auto
next
  case Commit
  then show ?thesis using no_new_commit [of pg] by (auto simp: no_new_def)
next
  case Unmount
  then show ?thesis using no_new_effects(8) [of pg] by (auto simp: no_new_def actions_def unmount_def)
qed (auto simp: actions_def createInvite_def reopenRoom_def changeMedia_def closeRoom_def leaveRoom_def with_room_def
      room_loaded_def invite_answer_def reopen_answer_def close_answer_def leave_answer_def failed_def transferHost_def kickMember_def
      split: option.splits sum.splits if_splits)

lemma room_do_asks: "room_asks (room_do ev s) \<subseteq> room_asks s \<union> set_option (event_kind ev)"
  using actions_step [of ev "sc_page s"] by (auto simp: room_asks_def room_do_def)

lemma room_do_quiet: "event_kind ev = None \<Longrightarrow> room_asks (room_do ev s) \<subseteq> room_asks s"
  using room_do_asks [of ev s] by simp

lemma room_confirm_asks:
  assumes "k \<in> set (sc_dialogs s)" and "event_kind ev = Some k"
  shows "room_asks (room_do ev (s\<lparr>sc_dialogs := remove1 k (sc_dialogs s)\<rparr>)) \<subseteq> room_asks s"
proof -
  have "room_asks (s\<lparr>sc_dialogs := remove1 k (sc_dialogs s)\<rparr>) \<subseteq> room_asks s"
    using set_remove1_subset [of k "sc_dialogs s"] by (auto simp: room_asks_def)
  moreover have "k \<in> room_asks s" using assms(1) by (simp add: room_asks_def)
  ultimately show ?thesis using room_do_asks [of ev "s\<lparr>sc_dialogs := remove1 k (sc_dialogs s)\<rparr>"] assms(2) by auto
qed

definition room_good :: "Screen \<Rightarrow> bool" where
  "room_good s \<longleftrightarrow> view_ok (sc_page s)"

lemma room_good_do: "room_good s \<Longrightarrow> room_good (room_do ev s)"
  by (simp add: room_good_def room_do_def view_ok_step del: view_step.simps)

definition room_permitted :: "Screen \<Rightarrow> room_click \<Rightarrow> bool" where
  "room_permitted s c \<longleftrightarrow> (\<forall>k. room_asked c = Some k \<longrightarrow> may_ask (sc_page s) k)"

interpretation room_ui: traced_ui "screen_view num time" room_init room_env room_clicked room_good room_permitted room_asks room_asked
  for num time
proof unfold_locales
  show "room_good s" if "room_init s" for s
    using that view_inv.inv_init by (simp add: room_init_def room_good_def)
  show "room_good s'" if "room_good s" "room_env s s'" for s s'
    using that(2)
  proof (cases rule: room_env.cases)
    case (room_confirm_close yes)
    have "room_good (s\<lparr>sc_dialogs := remove1 Do_close (sc_dialogs s)\<rparr>)" using that(1) by (simp add: room_good_def)
    then show ?thesis unfolding room_confirm_close(1) by (rule room_good_do)
  next
    case (room_confirm_leave yes)
    have "room_good (s\<lparr>sc_dialogs := remove1 Do_leave (sc_dialogs s)\<rparr>)" using that(1) by (simp add: room_good_def)
    then show ?thesis unfolding room_confirm_leave(1) by (rule room_good_do)
  qed (use that(1) in \<open>simp add: room_good_do\<close>)
  show "room_good s'" if "room_good s" "room_clicked s c s'" for s c s'
    using that by (cases c) (simp_all add: room_clicked_def room_good_do, simp_all add: room_good_def view_ok_def link_of_def)
  show "room_permitted s c" if "c \<in> set (offered (screen_view num time s))" for s c
    using that room_offers by (auto simp: room_permitted_def screen_view_def)
  show "room_asks s = {}" if "room_init s" for s
    using that by (auto simp: room_init_def view_init_def newView_def newPage_def Page.defs room_asks_def actions_def)
  show "room_asks s' \<subseteq> room_asks s" if "room_env s s'" for s s'
    using that by (cases rule: room_env.cases) (simp_all add: room_do_quiet room_confirm_asks)
  show "room_asks s' \<subseteq> room_asks s \<union> set_option (room_asked c)" if "room_clicked s c s'" for s c s'
  proof (cases c)
    case Back_home
    then show ?thesis using that by (auto simp: room_clicked_def room_asks_def actions_def)
  next
    case Reopen_click
    then show ?thesis using that room_do_asks [of Reopen s] by (simp add: room_clicked_def)
  next
    case Invite_click
    then show ?thesis using that room_do_asks [of Create_invite s] by (simp add: room_clicked_def)
  next
    case (Select_film i)
    then show ?thesis using that room_do_asks [of "Change_media i" s] by (simp add: room_clicked_def)
  next
    case (Transfer_click i)
    then show ?thesis using that room_do_asks [of "Transfer i" s] by (simp add: room_clicked_def)
  next
    case (Kick_click i)
    then show ?thesis using that room_do_asks [of "Kick i" s] by (simp add: room_clicked_def)
  qed (use that in \<open>auto simp: room_clicked_def room_asks_def room_do_def actions_def\<close>)
qed

text \<open>
  C20. What leaves the room page was its owner's to ask: however the page is used and whatever arrives
  meanwhile, every request to invite, reopen, change the film, close, leave, hand over or remove goes back to
  a click on a page on which that action was offered, so at that moment the owner was the host, or, to
  leave, was not; a confirmed close was asked for by the host; and the member handed the room was a user of
  the room other than the host.
\<close>

theorem room_requests_permitted:
  assumes "used (screen_view num time) room_init room_env room_clicked h s"
    and "Request q \<in> set (pg_out (sc_page s))" and "kind_of_request q = Some k"
  shows "\<exists>t c. (t, c) \<in> set h \<and> room_asked c = Some k \<and> may_ask (sc_page t) k"
proof -
  have "k \<in> room_asks s" using assms(2,3) by (auto simp: room_asks_def actions_def)
  from room_ui.used_asked_permitted [OF assms(1) this] show ?thesis by (auto simp: room_permitted_def)
qed

lemma used_room_events:
  "used (screen_view num time) room_init room_env room_clicked h s \<Longrightarrow> list_all (\<lambda>ev. event_kind ev = None) evs \<Longrightarrow>
   used (screen_view num time) room_init room_env room_clicked h (fold room_do evs s)"
  by (induction evs arbitrary: s) (auto intro: used_env room_event)

definition demo_screen :: Screen where
  "demo_screen = fold room_do demo_view_events \<lparr>sc_page = newView ''ab'', sc_side = Chat_side, sc_dialogs = []\<rparr>"

theorem room_offers_exactly_witness:
  "\<exists>c. c \<in> set (offered (room_view (\<lambda>_. ''8'') (\<lambda>_. ''now'') Chat_side (sc_page demo_screen))) \<and> room_asked c = Some Do_close"
proof -
  have p: "\<not> pg_loading (sc_page demo_screen)" "pg_identity (sc_page demo_screen) = Some demo_identity"
    "may_ask (sc_page demo_screen) Do_close"
    by code_simp+
  then show ?thesis using room_offers_exactly [OF p(1,2), of "\<lambda>_. ''8''" "\<lambda>_. ''now''" Chat_side Do_close] by auto
qed

theorem room_requests_permitted_witness:
  "\<exists>t c. (t, c) \<in> set [(demo_screen, Close_click)] \<and> room_asked c = Some Do_close \<and> isHost (sc_page t)"
proof -
  let ?view = "screen_view (\<lambda>_. ''8'') (\<lambda>_. ''now'')" and ?start = "\<lparr>sc_page = newView ''ab'', sc_side = Chat_side, sc_dialogs = []\<rparr>"
  have "used ?view room_init room_env room_clicked [] ?start"
    by (rule used_init) (auto simp: room_init_def view_init_def)
  then have "used ?view room_init room_env room_clicked [] demo_screen"
    unfolding demo_screen_def by (rule used_room_events) (simp add: demo_view_events_def)
  moreover have "Close_click \<in> set (offered (?view demo_screen))" by code_simp
  ultimately have "used ?view room_init room_env room_clicked ([] @ [(demo_screen, Close_click)]) (room_click_step Close_click demo_screen)"
    by (rule used_click) (simp add: room_clicked_def)
  moreover have "room_env (room_click_step Close_click demo_screen)
      (room_do (Close True) ((room_click_step Close_click demo_screen)\<lparr>sc_dialogs := remove1 Do_close (sc_dialogs (room_click_step Close_click demo_screen))\<rparr>))"
    by (rule room_confirm_close) simp
  ultimately have u: "used ?view room_init room_env room_clicked ([] @ [(demo_screen, Close_click)])
      (room_do (Close True) ((room_click_step Close_click demo_screen)\<lparr>sc_dialogs := remove1 Do_close (sc_dialogs (room_click_step Close_click demo_screen))\<rparr>))"
    by (rule used_env)
  have "Request (Post_close ''r'') \<in> set (pg_out (sc_page (room_do (Close True)
      ((room_click_step Close_click demo_screen)\<lparr>sc_dialogs := remove1 Do_close (sc_dialogs (room_click_step Close_click demo_screen))\<rparr>))))"
    by code_simp
  from room_requests_permitted [OF u this] show ?thesis by fastforce
qed

end
