(* ===== verification/Upload.thy ===== *)
theory Upload
  imports JS_Prelude "HOL-Library.Multiset"
begin

text \<open>
  The upload of a film, \<open>web/src/api/upload.ts\<close>: ask the server for an upload, put the file into the
  object store in one piece or in parts signed in batches of ten, then ask the server to complete it;
  when something failed before that, take the upload back.

  The run is a function from what the network answers to the result and the list of what was done:
  requests and progress reports. What is answered to a request may depend on everything done so far,
  so the environment's functions take that list; that a request times out or is cancelled is one of
  the answers. An answer that is not the object it is cast to is \<open>None\<close>; reading a property of it
  throws. File contents are lists, so that the pieces sent can be put together again; \<open>Blob.slice\<close> is
  the sublist. Sizes below $2^{53}$ are exact in JavaScript numbers, and so is the rounded-up quotient.
\<close>

section \<open>Data\<close>

record UploadInit =
  uploadId :: "string option"
  ui_mode :: string
  partSizeBytes :: "rat option"
  ui_url :: "string option"

record Part =
  partNumber :: rat
  pt_url :: "string option"

record 'b media_file =
  fl_name :: string
  fl_data :: "'b list"
  fl_type :: string

datatype up_error =
    Timeout_error
  | Abort_error
  | Request_error string
  | Type_failure
  | Bad_upload_id
  | Oss_status nat
  | No_address
  | Bad_part_size
  | Too_many_parts
  | Bad_part_list
  | No_etag
  | Bad_mode

datatype up_progress = Applying | Direct | Part_progress nat nat nat | Merging | Done

datatype 'b up_action =
    Progress up_progress
  | Init string nat string
  | Sign string "nat list"
  | Put string "'b list" "string option"
  | Complete string "(nat \<times> string) list"
  | Delete string

type_synonym 'b up_log = "'b up_action list"

record 'b up_env =
  init_answer :: "'b up_log \<Rightarrow> up_error + UploadInit option"
  sign_answer :: "'b up_log \<Rightarrow> up_error + Part list option"
  put_answer :: "'b up_log \<Rightarrow> up_error + bool \<times> nat \<times> string option"
  complete_answer :: "'b up_log \<Rightarrow> up_error + unit"
  up_aborted :: "'b up_log \<Rightarrow> bool"

text \<open>A JavaScript string that counts as true.\<close>

definition truthy :: "string option \<Rightarrow> bool" where
  "truthy s \<longleftrightarrow> s \<noteq> None \<and> s \<noteq> Some []"

definition file_slice :: "nat \<Rightarrow> nat \<Rightarrow> 'b media_file \<Rightarrow> 'b list" where
  "file_slice s e f = take (e - s) (drop s (fl_data f))"

definition content_type :: "'b media_file \<Rightarrow> string" where
  "content_type f = (if fl_type f = [] then ''video/mp4'' else fl_type f)"

section \<open>Steps\<close>

text \<open>\<open>put\<close>: the value is the \<open>ETag\<close> header of a successful response.\<close>

definition put :: "'b up_env \<Rightarrow> string \<Rightarrow> 'b list \<Rightarrow> string option \<Rightarrow> 'b up_log \<Rightarrow> (up_error + string option) \<times> 'b up_log" where
  "put e url body ct acts =
     (let log1 = acts @ [Put url body ct]
      in case put_answer e log1 of
           Inl err \<Rightarrow> (Inl err, log1)
         | Inr (ok, status, etag) \<Rightarrow> (if ok then Inr etag else Inl (Oss_status status), log1))"

text \<open>The loop over the signed parts of a batch.\<close>

fun put_parts ::
  "'b up_env \<Rightarrow> 'b media_file \<Rightarrow> nat \<Rightarrow> nat \<Rightarrow> Part list \<Rightarrow> (nat \<times> string) list \<Rightarrow> 'b up_log \<Rightarrow>
   (up_error + (nat \<times> string) list) \<times> 'b up_log" where
  "put_parts e f psize pcount [] parts acts = (Inr parts, acts)"
| "put_parts e f psize pcount (p # ps) parts acts =
     (let log1 = acts @ [Progress (Part_progress (length parts + 1) pcount (length parts))];
          n = nat \<lfloor>partNumber p\<rfloor>;
          (r, log2) = put e (the (pt_url p))
                        (file_slice ((n - 1) * psize) (min (length (fl_data f)) (n * psize)) f) None log1
      in case r of
           Inl err \<Rightarrow> (Inl err, log2)
         | Inr etag \<Rightarrow>
             if \<not> truthy etag then (Inl No_etag, log2)
             else put_parts e f psize pcount ps (parts @ [(n, the etag)]) log2)"

definition batch_at :: "nat \<Rightarrow> nat \<Rightarrow> nat list" where
  "batch_at pcount offset = map (\<lambda>i. offset + i + 1) [0..<min 10 (pcount - offset)]"

text \<open>The signed parts are the ones asked for, each with an address.\<close>

definition parts_match :: "nat list \<Rightarrow> Part list \<Rightarrow> bool" where
  "parts_match batch ordered \<longleftrightarrow>
     length ordered = length batch \<and>
     list_all (\<lambda>(p, n). partNumber p = of_nat n \<and> truthy (pt_url p)) (zip ordered batch)"

function batches ::
  "'b up_env \<Rightarrow> 'b media_file \<Rightarrow> string \<Rightarrow> nat \<Rightarrow> nat \<Rightarrow> nat \<Rightarrow> (nat \<times> string) list \<Rightarrow> 'b up_log \<Rightarrow>
   (up_error + (nat \<times> string) list) \<times> 'b up_log" where
  "batches e f i psize pcount offset parts acts =
     (if offset \<ge> pcount then (Inr parts, acts)
      else
        let batch = batch_at pcount offset;
            log1 = acts @ [Sign i batch]
        in case sign_answer e log1 of
             Inl err \<Rightarrow> (Inl err, log1)
           | Inr None \<Rightarrow> (Inl Type_failure, log1)
           | Inr (Some signed) \<Rightarrow>
               let ordered = sort_key partNumber signed
               in if \<not> parts_match batch ordered then (Inl Bad_part_list, log1)
                  else case put_parts e f psize pcount ordered parts log1 of
                         (Inl err, log2) \<Rightarrow> (Inl err, log2)
                       | (Inr parts2, log2) \<Rightarrow> batches e f i psize pcount (offset + 10) parts2 log2)"
  by pat_completeness auto
termination by (relation "measure (\<lambda>(e, f, i, psize, pcount, offset, parts, acts). pcount - offset)") auto

declare batches.simps [simp del]

text \<open>\<open>!size || !Number.isSafeInteger(size) || size <= 0\<close>, negated.\<close>

definition valid_part_size :: "rat option \<Rightarrow> bool" where
  "valid_part_size s \<longleftrightarrow> (case s of None \<Rightarrow> False | Some x \<Rightarrow> of_int \<lfloor>x\<rfloor> = x \<and> 0 < x \<and> x < 2 ^ 53)"

definition part_count :: "nat \<Rightarrow> nat \<Rightarrow> nat" where
  "part_count fileSize psize = nat \<lceil>of_nat fileSize / (of_nat psize :: rat)\<rceil>"

definition transfer ::
  "'b up_env \<Rightarrow> 'b media_file \<Rightarrow> string \<Rightarrow> UploadInit \<Rightarrow> 'b up_log \<Rightarrow> (up_error + (nat \<times> string) list) \<times> 'b up_log" where
  "transfer e f i init acts =
     (if ui_mode init = ''single'' then
        if \<not> truthy (ui_url init) then (Inl No_address, acts)
        else case put e (the (ui_url init)) (fl_data f) (Some (content_type f)) (acts @ [Progress Direct]) of
               (Inl err, log1) \<Rightarrow> (Inl err, log1)
             | (Inr etag, log1) \<Rightarrow> (Inr [], log1)
      else if ui_mode init = ''multipart'' then
        if \<not> valid_part_size (partSizeBytes init) then (Inl Bad_part_size, acts)
        else
          let psize = nat \<lfloor>the (partSizeBytes init)\<rfloor>;
              pcount = part_count (length (fl_data f)) psize
          in if pcount > 10000 then (Inl Too_many_parts, acts)
             else batches e f i psize pcount 0 [] acts
      else (Inl Bad_mode, acts))"

section \<open>The whole upload\<close>

text \<open>The \<open>try\<close> block: its result, the identifier it got, whether it was completing, what was done.\<close>

definition upload_body :: "'b up_env \<Rightarrow> 'b media_file \<Rightarrow> (up_error + unit) \<times> string option \<times> bool \<times> 'b up_log" where
  "upload_body e f =
     (let log1 = [Progress Applying, Init (fl_name f) (length (fl_data f)) (content_type f)]
      in case init_answer e log1 of
           Inl err \<Rightarrow> (Inl err, None, False, log1)
         | Inr None \<Rightarrow> (Inl Type_failure, None, False, log1)
         | Inr (Some init) \<Rightarrow>
             if \<not> truthy (uploadId init) then (Inl Bad_upload_id, None, False, log1)
             else
               let i = the (uploadId init)
               in case transfer e f i init log1 of
                    (Inl err, log2) \<Rightarrow> (Inl err, Some i, False, log2)
                  | (Inr parts, log2) \<Rightarrow>
                      if up_aborted e log2 then (Inl Abort_error, Some i, False, log2)
                      else
                        let log3 = log2 @ [Progress Merging, Complete i parts]
                        in case complete_answer e log3 of
                             Inl err \<Rightarrow> (Inl err, Some i, True, log3)
                           | Inr _ \<Rightarrow> (Inr (), Some i, True, log3 @ [Progress Done]))"

datatype up_detail = Cancelled | Timed_out_text | Detail up_error

datatype up_thrown = Plain up_detail | Unconfirmed up_detail

definition detail_of :: "bool \<Rightarrow> up_error \<Rightarrow> up_detail" where
  "detail_of aborted err = (if aborted then Cancelled else if err = Timeout_error then Timed_out_text else Detail err)"

text \<open>\<open>uploadMedia\<close>: the body and its \<open>catch\<close>. The deletion's own failure is swallowed.\<close>

definition uploadMedia :: "'b up_env \<Rightarrow> 'b media_file \<Rightarrow> (up_thrown + unit) \<times> 'b up_log" where
  "uploadMedia e f =
     (case upload_body e f of
        (Inr _, _, _, acts) \<Rightarrow> (Inr (), acts)
      | (Inl err, i, completing, acts) \<Rightarrow>
          let log1 = (if i \<noteq> None \<and> \<not> completing then acts @ [Delete (the i)] else acts);
              d = detail_of (up_aborted e log1) err
          in (Inl (if completing then Unconfirmed d else Plain d), log1))"

section \<open>What was sent\<close>

fun bodies :: "'b up_log \<Rightarrow> 'b list list" where
  "bodies [] = []"
| "bodies (Put u b c # acts) = b # bodies acts"
| "bodies (_ # acts) = bodies acts"

lemma bodies_append [simp]: "bodies (xs @ ys) = bodies xs @ bodies ys"
  by (induction xs rule: bodies.induct) simp_all

text \<open>The tags the object store answered to the uploads of \<open>acts\<close>, which came after \<open>pre\<close>.\<close>

fun etags_from :: "'b up_env \<Rightarrow> 'b up_log \<Rightarrow> 'b up_log \<Rightarrow> string list" where
  "etags_from e pre [] = []"
| "etags_from e pre (a # acts) =
     (case a of
        Put u b c \<Rightarrow> (case put_answer e (pre @ [a]) of Inr (True, _, Some t) \<Rightarrow> [t] | _ \<Rightarrow> [])
      | _ \<Rightarrow> []) @ etags_from e (pre @ [a]) acts"

lemma etags_from_append: "etags_from e pre (xs @ ys) = etags_from e pre xs @ etags_from e (pre @ xs) ys"
  by (induction xs arbitrary: pre) simp_all

text \<open>What the transfer does: signatures and uploads, but no start, completion or deletion.\<close>

fun is_transfer :: "'b up_action \<Rightarrow> bool" where
  "is_transfer (Init n s t) = False"
| "is_transfer (Complete i ps) = False"
| "is_transfer (Delete i) = False"
| "is_transfer _ = True"

definition piece :: "'b media_file \<Rightarrow> nat \<Rightarrow> nat \<Rightarrow> 'b list" where
  "piece f psize n = file_slice ((n - 1) * psize) (min (length (fl_data f)) (n * psize)) f"

text \<open>The relation between the acts before and after a part of the transfer, and its result.\<close>

definition sent ::
  "'b up_env \<Rightarrow> 'b media_file \<Rightarrow> nat \<Rightarrow> nat list \<Rightarrow> (nat \<times> string) list \<Rightarrow> 'b up_log \<Rightarrow>
   (up_error + (nat \<times> string) list) \<times> 'b up_log \<Rightarrow> bool" where
  "sent e f psize nums parts acts res \<longleftrightarrow>
     (\<exists>extra. snd res = acts @ extra \<and> list_all is_transfer extra \<and>
        (\<exists>k \<le> length nums. bodies extra = map (piece f psize) (take k nums)) \<and>
        (\<forall>parts'. fst res = Inr parts' \<longrightarrow>
           parts' = parts @ zip nums (etags_from e acts extra) \<and> length (etags_from e acts extra) = length nums \<and>
           bodies extra = map (piece f psize) nums))"

lemma sentI:
  "snd res = acts @ extra \<Longrightarrow> list_all is_transfer extra \<Longrightarrow>
   k \<le> length nums \<Longrightarrow> bodies extra = map (piece f psize) (take k nums) \<Longrightarrow>
   (\<And>parts'. fst res = Inr parts' \<Longrightarrow> parts' = parts @ zip nums (etags_from e acts extra) \<and>
      length (etags_from e acts extra) = length nums \<and> bodies extra = map (piece f psize) nums) \<Longrightarrow>
   sent e f psize nums parts acts res"
  unfolding sent_def by blast

text \<open>Two stretches of a transfer, one after the other.\<close>

lemma sent_append:
  assumes "sent e f psize nums parts acts (Inr parts1, log1)" and "sent e f psize nums' parts1 log1 res"
  shows "sent e f psize (nums @ nums') parts acts res"
proof -
  from assms(1) obtain x where x: "log1 = acts @ x" "list_all is_transfer x" "parts1 = parts @ zip nums (etags_from e acts x)"
    "length (etags_from e acts x) = length nums" "bodies x = map (piece f psize) nums" by (auto simp: sent_def)
  from assms(2) obtain y k where y: "snd res = log1 @ y" "list_all is_transfer y" "k \<le> length nums'"
    "bodies y = map (piece f psize) (take k nums')"
    "\<And>p. fst res = Inr p \<Longrightarrow> p = parts1 @ zip nums' (etags_from e log1 y) \<and> length (etags_from e log1 y) = length nums' \<and>
       bodies y = map (piece f psize) nums'" by (auto simp: sent_def)
  show ?thesis
  proof (rule sentI [of _ _ "x @ y" "length nums + k"])
    fix p assume "fst res = Inr p"
    from y(5) [OF this] show "p = parts @ zip (nums @ nums') (etags_from e acts (x @ y)) \<and>
        length (etags_from e acts (x @ y)) = length (nums @ nums') \<and> bodies (x @ y) = map (piece f psize) (nums @ nums')"
      using x by (simp add: etags_from_append)
  qed (use x y in simp_all)
qed

lemma sent_failed: "sent e f psize nums parts acts (Inl err, l) \<Longrightarrow> sent e f psize (nums @ nums') parts acts (Inl err, l)"
proof -
  assume "sent e f psize nums parts acts (Inl err, l)"
  then obtain x k where "l = acts @ x" "list_all is_transfer x" "k \<le> length nums" "bodies x = map (piece f psize) (take k nums)"
    by (auto simp: sent_def)
  then show ?thesis by (intro sentI [of _ _ x k]) simp_all
qed

lemma sent_put_parts:
  assumes "parts_match nums ps"
  shows "sent e f psize nums parts acts (put_parts e f psize pcount ps parts acts)"
  using assms
proof (induction ps arbitrary: nums parts acts)
  case Nil
  then show ?case by (intro sentI [of _ _ "[]" 0]) (simp_all add: parts_match_def)
next
  case (Cons p ps)
  then obtain n ns where nums: "nums = n # ns" and pn: "partNumber p = of_nat n" and rest: "parts_match ns ps"
    by (cases nums) (auto simp: parts_match_def)
  let ?a = "Progress (Part_progress (length parts + 1) pcount (length parts))"
  let ?b = "Put (the (pt_url p)) (piece f psize n) None"
  show ?case
  proof (cases "put_answer e (acts @ [?a, ?b])")
    case (Inl err)
    then show ?thesis by (intro sentI [of _ _ "[?a, ?b]" 1]) (simp_all add: nums put_def pn piece_def Let_def)
  next
    case (Inr r)
    obtain ok status etag where r: "r = (ok, status, etag)" by (cases r) auto
    show ?thesis
    proof (cases "ok \<and> truthy etag")
      case False
      then have "\<exists>err. put_parts e f psize pcount (p # ps) parts acts = (Inl err, acts @ [?a, ?b])"
        using Inr r by (cases ok) (simp_all add: put_def pn piece_def Let_def)
      then show ?thesis by (auto intro!: sentI [of _ _ "[?a, ?b]" 1] simp: nums simp del: put_parts.simps)
    next
      case True
      then obtain t where t: "etag = Some t" by (auto simp: truthy_def)
      have one: "sent e f psize [n] parts acts (Inr (parts @ [(n, t)]), acts @ [?a, ?b])"
        using Inr r t True by (intro sentI [of _ _ "[?a, ?b]" 1]) auto
      have "put_parts e f psize pcount (p # ps) parts acts = put_parts e f psize pcount ps (parts @ [(n, t)]) (acts @ [?a, ?b])"
        using Inr r t True by (simp add: put_def pn piece_def Let_def)
      with sent_append [OF one Cons.IH [OF rest]] show ?thesis by (simp add: nums)
    qed
  qed
qed

lemma batch_at_upt: "batch_at pcount offset = [offset + 1..<offset + 1 + min 10 (pcount - offset)]"
  by (rule nth_equalityI) (simp_all add: batch_at_def del: upt_Suc)

lemma batch_at_rest:
  assumes "offset < pcount"
  shows "batch_at pcount offset @ [offset + 10 + 1..<pcount + 1] = [offset + 1..<pcount + 1]"
proof (cases "10 \<le> pcount - offset")
  case True
  then show ?thesis
    using upt_add_eq_append [of "offset + 1" "offset + 11" "pcount - offset - 10"] by (simp add: batch_at_upt add.commute del: upt_Suc)
next
  case False
  with assms show ?thesis by (simp add: batch_at_upt min_def del: upt_Suc)
qed

lemma sent_batches: "sent e f psize [offset + 1..<pcount + 1] parts acts (batches e f i psize pcount offset parts acts)"
proof (induction e f i psize pcount offset parts acts rule: batches.induct)
  case (1 e f i psize pcount offset parts acts)
  let ?log1 = "acts @ [Sign i (batch_at pcount offset)]"
  show ?case
  proof (cases "offset \<ge> pcount")
    case True
    then show ?thesis by (intro sentI [of _ _ "[]" 0]) (simp_all add: batches.simps)
  next
    case False
    note unf = batches.simps [of e f i psize pcount offset parts acts]
    show ?thesis
    proof (cases "\<exists>signed. sign_answer e ?log1 = Inr (Some signed) \<and> parts_match (batch_at pcount offset) (sort_key partNumber signed)")
      case no: False
      then have "\<exists>err. batches e f i psize pcount offset parts acts = (Inl err, ?log1)"
        using False by (subst unf) (auto simp: Let_def split: sum.splits option.splits)
      then show ?thesis by (auto intro!: sentI [of _ _ "[Sign i (batch_at pcount offset)]" 0])
    next
      case yes: True
      then obtain signed where s: "sign_answer e ?log1 = Inr (Some signed)"
        "parts_match (batch_at pcount offset) (sort_key partNumber signed)" by blast
      have sign: "sent e f psize [] parts acts (Inr parts, ?log1)" by (intro sentI [of _ _ "[Sign i (batch_at pcount offset)]" 0]) simp_all
      note stretch = sent_append [OF sign sent_put_parts [OF s(2), where pcount = pcount], simplified]
      obtain r log2 where pp: "put_parts e f psize pcount (sort_key partNumber signed) parts ?log1 = (r, log2)" by fastforce
      show ?thesis
      proof (cases r)
        case (Inl err)
        then have "batches e f i psize pcount offset parts acts = (Inl err, log2)"
          using False s pp by (subst unf) (simp add: Let_def)
        with sent_failed stretch pp Inl batch_at_rest [of offset pcount] False show ?thesis by (metis not_le)
      next
        case (Inr parts2)
        then have eq: "batches e f i psize pcount offset parts acts = batches e f i psize pcount (offset + 10) parts2 log2"
          using False s pp by (subst unf) (simp add: Let_def)
        have ih: "sent e f psize [offset + 10 + 1..<pcount + 1] parts2 log2 (batches e f i psize pcount (offset + 10) parts2 log2)"
          using "1.IH" False s pp Inr by simp
        with sent_append [OF _ ih] stretch pp Inr batch_at_rest [of offset pcount] False
        show ?thesis unfolding eq by (metis not_le)
      qed
    qed
  qed
qed


lemma concat_pieces: "concat (map (piece f psize) [1..<k + 1]) = take (k * psize) (fl_data f)"
proof (induction k)
  case (Suc k)
  have "piece f psize (Suc k) = take psize (drop (k * psize) (fl_data f))"
    by (simp add: piece_def file_slice_def min_def add.commute)
  with Suc show ?case by (simp add: take_add [symmetric] add.commute)
qed simp

lemma part_count_bounds:
  assumes "0 < psize"
  shows "n \<le> part_count n psize * psize"
proof -
  have "of_nat n / (of_nat psize :: rat) \<le> of_int \<lceil>of_nat n / (of_nat psize :: rat)\<rceil>" by simp
  also have "\<dots> = of_nat (part_count n psize)" by (simp add: part_count_def)
  finally have "(of_nat n :: rat) \<le> of_nat (part_count n psize * psize)" using assms by (simp add: field_simps)
  then show ?thesis by (simp only: of_nat_le_iff)
qed

lemma valid_part_size_nat: "valid_part_size s \<Longrightarrow> 0 < nat \<lfloor>the s\<rfloor>"
  by (auto simp: valid_part_size_def split: option.splits)

lemma transfer_facts:
  obtains extra where "snd (transfer e f i init acts) = acts @ extra" and "list_all is_transfer extra"
    and "\<exists>n. concat (bodies extra) = take n (fl_data f)" and "length (bodies extra) \<le> 10000"
    and "\<And>parts. fst (transfer e f i init acts) = Inr parts \<Longrightarrow>
           concat (bodies extra) = fl_data f \<and> map fst parts = [1..<length parts + 1] \<and>
           (ui_mode init = ''multipart'' \<longrightarrow> map snd parts = etags_from e acts extra \<and> length parts = length (bodies extra))"
proof -
  let ?t = "transfer e f i init acts"
  consider (stop) err where "?t = (Inl err, acts)"
    | (single) a where "a = [Progress Direct, Put (the (ui_url init)) (fl_data f) (Some (content_type f))]" "snd ?t = acts @ a"
        "\<And>p. fst ?t = Inr p \<Longrightarrow> p = []" "ui_mode init = ''single''"
    | (multi) ps c where "?t = batches e f i ps c 0 [] acts" "c \<le> 10000" "length (fl_data f) \<le> c * ps" "ui_mode init = ''multipart''"
  proof (cases "ui_mode init = ''single''")
    case True
    show ?thesis
    proof (cases "truthy (ui_url init)")
      case yes: True
      show ?thesis using True yes by (intro that(2) [OF refl]) (auto simp: transfer_def put_def Let_def split: sum.splits)
    qed (use True that(1) in \<open>simp add: transfer_def\<close>)
  next
    case False
    show ?thesis
    proof (cases "ui_mode init = ''multipart'' \<and> valid_part_size (partSizeBytes init)")
      case True
      define ps c where "ps = nat \<lfloor>the (partSizeBytes init)\<rfloor>" and "c = part_count (length (fl_data f)) ps"
      have enough: "length (fl_data f) \<le> c * ps"
        using True valid_part_size_nat part_count_bounds unfolding ps_def c_def by blast
      have t: "?t = (if c > 10000 then (Inl Too_many_parts, acts) else batches e f i ps c 0 [] acts)"
        using True by (simp add: transfer_def ps_def c_def Let_def)
      show ?thesis
      proof (cases "c > 10000")
        case True
        with t that(1) show ?thesis by simp
      next
        case False
        with t True enough show ?thesis by (intro that(3) [of ps c]) simp_all
      qed
    next
      case bad: False
      then have "\<exists>err. ?t = (Inl err, acts)" using False by (cases "ui_mode init = ''multipart''") (simp_all add: transfer_def)
      then show ?thesis using that(1) by blast
    qed
  qed
  then show thesis
  proof cases
    case stop
    then show ?thesis by (intro that [of "[]"]) (auto intro: exI [of _ 0])
  next
    case single
    then show ?thesis by (intro that [of a]) (auto intro: exI [of _ "length (fl_data f)"])
  next
    case multi
    let ?nums = "[1..<c + 1]"
    from sent_batches [of e f ps 0 c "[]" acts i] multi(1) obtain extra k where x: "snd ?t = acts @ extra" "list_all is_transfer extra"
      "k \<le> length ?nums" "bodies extra = map (piece f ps) (take k ?nums)"
      "\<And>p. fst ?t = Inr p \<Longrightarrow> p = zip ?nums (etags_from e acts extra) \<and> length (etags_from e acts extra) = length ?nums \<and>
         bodies extra = map (piece f ps) ?nums"
      by (auto simp: sent_def simp del: upt_Suc batches.simps)
    have "take k ?nums = [1..<k + 1]" using x(3) by (simp add: take_upt del: upt_Suc)
    then have pre: "concat (bodies extra) = take (k * ps) (fl_data f)" using x(4) concat_pieces by (simp del: upt_Suc)
    show ?thesis
    proof (rule that [OF x(1,2)])
      show "\<exists>n. concat (bodies extra) = take n (fl_data f)" using pre by blast
      show "length (bodies extra) \<le> 10000" using x(3,4) multi(2) by (simp del: upt_Suc)
      fix p assume "fst ?t = Inr p"
      from x(5) [OF this] show "concat (bodies extra) = fl_data f \<and> map fst p = [1..<length p + 1] \<and>
         (ui_mode init = ''multipart'' \<longrightarrow> map snd p = etags_from e acts extra \<and> length p = length (bodies extra))"
        using multi(3) concat_pieces [where f = f and psize = ps and k = c] by (simp del: upt_Suc)
    qed
  qed
qed

text \<open>What a transfer that came to its end has done, in each of the two modes.\<close>

lemma transfer_done:
  assumes t: "transfer e f i init acts = (Inr parts, acts @ extra)"
    and "ps = nat \<lfloor>the (partSizeBytes init)\<rfloor>" and "c = part_count (length (fl_data f)) ps"
  shows "ui_mode init = ''single'' \<and> parts = [] \<and> bodies extra = [fl_data f] \<or>
         ui_mode init = ''multipart'' \<and> c \<le> 10000 \<and> bodies extra = map (piece f ps) [1..<c + 1] \<and>
           parts = zip [1..<c + 1] (etags_from e acts extra) \<and> length (etags_from e acts extra) = c"
proof (cases "ui_mode init = ''single''")
  case True
  with t show ?thesis by (auto simp: transfer_def put_def Let_def split: if_splits sum.splits)
next
  case False
  with t assms(2,3) have "ui_mode init = ''multipart''" "c \<le> 10000"
    and "batches e f i ps c 0 [] acts = (Inr parts, acts @ extra)"
    by (auto simp: transfer_def Let_def split: if_splits)
  with sent_batches [of e f ps 0 c "[]" acts i] show ?thesis by (simp add: sent_def del: upt_Suc)
qed

section \<open>The outcomes of an upload\<close>

abbreviation started :: "'b media_file \<Rightarrow> 'b up_log" where
  "started f \<equiv> [Progress Applying, Init (fl_name f) (length (fl_data f)) (content_type f)]"

text \<open>
  Every upload ends in one of four ways, whatever the network does: it succeeded, and the last
  request was the completion; the completion failed, and then nothing is deleted and the error says
  that the result is unconfirmed; it failed before, and then the upload is deleted; or it never got an
  identifier, and then nothing else was done. There is one start in each and nothing but signatures
  and puts in between: no restart, at most one completion, and never a deletion after a completion.
\<close>

theorem upload_outcomes:
  "\<exists>extra. list_all is_transfer extra \<and>
     ((\<exists>i parts. uploadMedia e f = (Inr (), started f @ extra @ [Progress Merging, Complete i parts, Progress Done])) \<or>
      (\<exists>d i parts. uploadMedia e f = (Inl (Unconfirmed d), started f @ extra @ [Progress Merging, Complete i parts])) \<or>
      (\<exists>d i. uploadMedia e f = (Inl (Plain d), started f @ extra @ [Delete i])) \<or>
      (\<exists>d. uploadMedia e f = (Inl (Plain d), started f)))"
proof (cases "\<exists>init. init_answer e (started f) = Inr (Some init) \<and> truthy (uploadId init)")
  case False
  then have "\<exists>d. uploadMedia e f = (Inl (Plain d), started f)"
    by (auto simp: uploadMedia_def upload_body_def Let_def split: sum.splits option.splits)
  then show ?thesis by (intro exI [of _ "[]"]) simp
next
  case True
  then obtain init where init: "init_answer e (started f) = Inr (Some init)" "truthy (uploadId init)" by blast
  define i where "i = the (uploadId init)"
  obtain r log2 where t: "transfer e f i init (started f) = (r, log2)" by fastforce
  obtain extra where x: "log2 = started f @ extra" "list_all is_transfer extra"
    using transfer_facts [of e f i init "started f"] t by auto
  show ?thesis
    using init t x
    by (intro exI [of _ extra])
      (auto simp: uploadMedia_def upload_body_def Let_def i_def [symmetric] split: sum.splits)
qed

text \<open>
  C28. A successful upload sent the whole file, every byte once and in order, and completed it with the
  right parts, under the identifier the server gave: the bodies put into the store, joined, are the file. In one
  go there is one body and the completion has no parts. In parts, the bodies are the pieces of the size the server
  asked for, as many as the file has; and the completion lists exactly these, numbered from one without
  a gap, each with the tag the store answered to it.
\<close>

theorem upload_sends_file:
  assumes "fst (uploadMedia e f) = Inr ()"
  shows "\<exists>init i extra parts. init_answer e (started f) = Inr (Some init) \<and> uploadId init = Some i \<and>
     snd (uploadMedia e f) = started f @ extra @ [Progress Merging, Complete i parts, Progress Done] \<and>
     concat (bodies extra) = fl_data f \<and>
     (if ui_mode init = ''single'' then bodies extra = [fl_data f] \<and> parts = []
      else let psize = nat \<lfloor>the (partSizeBytes init)\<rfloor>; count = part_count (length (fl_data f)) psize
           in ui_mode init = ''multipart'' \<and> count \<le> 10000 \<and> bodies extra = map (piece f psize) [1..<count + 1] \<and>
              map fst parts = [1..<count + 1] \<and> map snd parts = etags_from e (started f) extra)"
proof -
  from assms obtain init where init: "init_answer e (started f) = Inr (Some init)" "truthy (uploadId init)"
    by (auto simp: uploadMedia_def upload_body_def Let_def split: sum.splits option.splits if_splits)
  define i where "i = the (uploadId init)"
  have i: "uploadId init = Some i" using init(2) by (auto simp: truthy_def i_def)
  obtain r log2 where t: "transfer e f i init (started f) = (r, log2)" by fastforce
  from assms init t obtain parts where r: "r = Inr parts"
    and last: "snd (uploadMedia e f) = log2 @ [Progress Merging, Complete i parts, Progress Done]"
    by (auto simp: uploadMedia_def upload_body_def Let_def i_def [symmetric] split: sum.splits if_splits)
  obtain extra where x: "log2 = started f @ extra" "concat (bodies extra) = fl_data f"
    using transfer_facts [of e f i init "started f"] t r by (auto simp del: upt_Suc)
  note two = transfer_done [OF t [unfolded r x(1)] refl refl]
  show ?thesis
    by (rule exI [of _ init], rule exI [of _ i], rule exI [of _ extra], rule exI [of _ parts])
      (use init(1) i x last two in \<open>auto simp: Let_def simp del: upt_Suc\<close>)
qed


text \<open>
  Even an upload that fails sent a proper beginning: the bodies put into the store are, joined, a
  prefix of the file, so no byte was sent twice or out of order, and there are at most ten thousand.
\<close>

theorem upload_sends_prefix:
  "(\<exists>n. concat (bodies (snd (uploadMedia e f))) = take n (fl_data f)) \<and> length (bodies (snd (uploadMedia e f))) \<le> 10000"
proof (cases "\<exists>init. init_answer e (started f) = Inr (Some init) \<and> truthy (uploadId init)")
  case False
  then have "snd (uploadMedia e f) = started f"
    by (auto simp: uploadMedia_def upload_body_def Let_def split: sum.splits option.splits)
  then show ?thesis by (auto intro: exI [of _ 0])
next
  case True
  then obtain init where init: "init_answer e (started f) = Inr (Some init)" "truthy (uploadId init)" by blast
  define i where "i = the (uploadId init)"
  obtain r log2 where t: "transfer e f i init (started f) = (r, log2)" by fastforce
  obtain extra where x: "log2 = started f @ extra" "\<exists>n. concat (bodies extra) = take n (fl_data f)" "length (bodies extra) \<le> 10000"
    by (rule transfer_facts [of e f i init "started f"]) (simp add: t)
  have "bodies (snd (uploadMedia e f)) = bodies extra"
    using init t x(1) by (auto simp: uploadMedia_def upload_body_def Let_def i_def [symmetric] split: sum.splits)
  with x show ?thesis by simp
qed

section \<open>A cooperative network\<close>

text \<open>What the server and the store promise: an upload with a usable mode, a signed address for every
  part asked for, in any order, a tag for every body, and no failure or cancellation.\<close>

definition usable :: "UploadInit \<Rightarrow> nat \<Rightarrow> bool" where
  "usable init fileSize \<longleftrightarrow> truthy (uploadId init) \<and>
     (ui_mode init = ''single'' \<and> truthy (ui_url init) \<or>
      ui_mode init = ''multipart'' \<and> valid_part_size (partSizeBytes init) \<and>
        part_count fileSize (nat \<lfloor>the (partSizeBytes init)\<rfloor>) \<le> 10000)"

definition cooperative :: "'b up_env \<Rightarrow> 'b media_file \<Rightarrow> bool" where
  "cooperative e f \<longleftrightarrow>
     (\<exists>init. init_answer e (started f) = Inr (Some init) \<and> usable init (length (fl_data f))) \<and>
     (\<forall>acts i b. \<exists>ps. sign_answer e (acts @ [Sign i b]) = Inr (Some ps) \<and>
        mset (map partNumber ps) = mset (map of_nat b) \<and> list_all (\<lambda>p. truthy (pt_url p)) ps) \<and>
     (\<forall>acts u b c. \<exists>status t. put_answer e (acts @ [Put u b c]) = Inr (True, status, Some t) \<and> t \<noteq> []) \<and>
     (\<forall>acts i ps. complete_answer e (acts @ [Complete i ps]) = Inr ()) \<and>
     (\<forall>acts. \<not> up_aborted e acts)"

lemma parts_match_sorted:
  assumes "mset (map partNumber ps) = mset (map of_nat b)" and "sorted b" and "list_all (\<lambda>p. truthy (pt_url p)) ps"
  shows "parts_match b (sort_key partNumber ps)"
proof -
  let ?s = "sort_key partNumber ps"
  have "sorted (map (of_nat :: nat \<Rightarrow> rat) b)" using assms(2) by (simp add: sorted_map)
  moreover have "mset (map partNumber ?s) = mset (map of_nat b)" using assms(1) by (metis mset_map mset_sort)
  ultimately have eq: "map partNumber ?s = map of_nat b"
    by (metis properties_for_sort sorted_sort_key sorted_sort_id)
  then have len: "length ?s = length b" by (metis length_map)
  have "partNumber (?s ! k) = of_nat (b ! k) \<and> truthy (pt_url (?s ! k))" if "k < length b" for k
  proof -
    have "?s ! k \<in> set ps" using that len by (metis nth_mem set_sort)
    then have "truthy (pt_url (?s ! k))" using assms(3) by (simp add: list_all_iff)
    moreover have "map partNumber ?s ! k = map of_nat b ! k" using eq by simp
    ultimately show ?thesis using that len by simp
  qed
  then show ?thesis using len by (auto simp: parts_match_def list_all_length)
qed

lemma put_parts_succeeds:
  assumes "\<And>acts u b c. \<exists>status t. put_answer e (acts @ [Put u b c]) = Inr (True, status, Some t) \<and> t \<noteq> []"
  shows "\<exists>parts' acts'. put_parts e f psize pcount ps parts acts = (Inr parts', acts')"
proof (induction ps arbitrary: parts acts)
  case (Cons p ps)
  let ?acts = "acts @ [Progress (Part_progress (length parts + 1) pcount (length parts))]"
  let ?n = "nat \<lfloor>partNumber p\<rfloor>"
  let ?b = "Put (the (pt_url p)) (file_slice ((?n - 1) * psize) (min (length (fl_data f)) (?n * psize)) f) None"
  from assms [of ?acts "the (pt_url p)" "file_slice ((?n - 1) * psize) (min (length (fl_data f)) (?n * psize)) f" None]
  obtain st t where "put_answer e (?acts @ [?b]) = Inr (True, st, Some t)" "t \<noteq> []" by blast
  with Cons.IH [of "parts @ [(?n, t)]" "?acts @ [?b]"] show ?case by (simp add: put_def truthy_def Let_def)
qed simp

lemma batches_succeeds:
  assumes "cooperative e f"
  shows "\<exists>parts' acts'. batches e f i psize pcount offset parts acts = (Inr parts', acts')"
  using assms
proof (induction e f i psize pcount offset parts acts rule: batches.induct)
  case (1 e f i psize pcount offset parts acts)
  show ?case
  proof (cases "offset \<ge> pcount")
    case False
    let ?b = "batch_at pcount offset" and ?log1 = "acts @ [Sign i (batch_at pcount offset)]"
    from "1.prems" obtain ps where ps: "sign_answer e ?log1 = Inr (Some ps)" "mset (map partNumber ps) = mset (map of_nat ?b)"
      "list_all (\<lambda>p. truthy (pt_url p)) ps" unfolding cooperative_def by blast
    have "sorted ?b" by (simp add: batch_at_upt del: upt_Suc)
    then have match: "parts_match ?b (sort_key partNumber ps)" using parts_match_sorted ps by blast
    have "\<exists>status t. put_answer e (acts @ [Put u b c]) = Inr (True, status, Some t) \<and> t \<noteq> []" for acts u b c
      using "1.prems" unfolding cooperative_def by blast
    from put_parts_succeeds [OF this] obtain parts2 log2
      where pp: "put_parts e f psize pcount (sort_key partNumber ps) parts ?log1 = (Inr parts2, log2)" by blast
    have "batches e f i psize pcount offset parts acts = batches e f i psize pcount (offset + 10) parts2 log2"
      using False ps(1) match pp by (simp add: batches.simps [of e f i psize pcount offset] Let_def)
    moreover have "\<exists>p a. batches e f i psize pcount (offset + 10) parts2 log2 = (Inr p, a)"
      using "1.IH" False ps(1) match pp "1.prems" by simp
    ultimately show ?thesis by simp
  qed (simp add: batches.simps)
qed

text \<open>
  C29. With a cooperative network the upload succeeds, in one piece or in parts, for every file that
  fits into ten thousand parts.
\<close>

theorem upload_succeeds:
  assumes "cooperative e f"
  shows "fst (uploadMedia e f) = Inr ()"
proof -
  from assms obtain init where init: "init_answer e (started f) = Inr (Some init)" "usable init (length (fl_data f))"
    by (auto simp: cooperative_def)
  define i where "i = the (uploadId init)"
  have put: "\<exists>etag acts'. put e u b c acts = (Inr etag, acts')" for u b c acts
  proof -
    from assms obtain st t where "put_answer e (acts @ [Put u b c]) = Inr (True, st, Some t)"
      unfolding cooperative_def by blast
    then show ?thesis by (simp add: put_def)
  qed
  have "\<exists>parts log2. transfer e f i init (started f) = (Inr parts, log2)"
  proof (cases "ui_mode init = ''single''")
    case True
    with init(2) put [of "the (ui_url init)" "fl_data f" "Some (content_type f)" "started f @ [Progress Direct]"]
    show ?thesis by (auto simp: usable_def transfer_def)
  next
    case False
    with init(2) batches_succeeds [OF assms] show ?thesis by (auto simp: usable_def transfer_def Let_def)
  qed
  then obtain parts log2 where t: "transfer e f i init (started f) = (Inr parts, log2)" by blast
  have "complete_answer e ((log2 @ [Progress Merging]) @ [Complete i parts]) = Inr ()" "\<not> up_aborted e log2"
    using assms unfolding cooperative_def by blast+
  with init t show ?thesis by (simp add: uploadMedia_def upload_body_def usable_def i_def Let_def)
qed


section \<open>Examples\<close>

definition demo_file :: "nat media_file" where
  "demo_file = \<lparr>fl_name = ''a.mp4'', fl_data = [1, 2, 3, 4, 5], fl_type = []\<rparr>"

text \<open>A server that signs in reverse order, and whether its completion is answered.\<close>

definition demo_upload :: "(up_error + unit) \<Rightarrow> nat up_env" where
  "demo_upload done =
     \<lparr>init_answer = (\<lambda>_. Inr (Some \<lparr>uploadId = Some ''id'', ui_mode = ''multipart'', partSizeBytes = Some 2, ui_url = None\<rparr>)),
      sign_answer = (\<lambda>acts. case last acts of
          Sign i b \<Rightarrow> Inr (Some (rev (map (\<lambda>n. \<lparr>partNumber = of_nat n, pt_url = Some ''u''\<rparr>) b)))
        | _ \<Rightarrow> Inl Type_failure),
      put_answer = (\<lambda>_. Inr (True, 200, Some ''tag'')),
      complete_answer = (\<lambda>_. done), up_aborted = (\<lambda>_. False)\<rparr>"

lemma demo_cooperative: "cooperative (demo_upload (Inr ())) demo_file"
proof -
  have "\<lceil>5 / (2 :: rat)\<rceil> = 3" by code_simp
  then show ?thesis
    by (simp add: cooperative_def demo_upload_def demo_file_def usable_def truthy_def valid_part_size_def part_count_def
        list_all_iff comp_def multiset.map_comp)
qed

theorem upload_succeeds_witness: "fst (uploadMedia (demo_upload (Inr ())) demo_file) = Inr ()"
  by (rule upload_succeeds [OF demo_cooperative])

theorem upload_sends_file_witness:
  "\<exists>extra i parts. snd (uploadMedia (demo_upload (Inr ())) demo_file) =
      started demo_file @ extra @ [Progress Merging, Complete i parts, Progress Done] \<and> concat (bodies extra) = [1, 2, 3, 4, 5] \<and>
      map fst parts = [1, 2, 3]"
proof -
  have ok: "fst (uploadMedia (demo_upload (Inr ())) demo_file) = Inr ()" by code_simp
  have i: "init_answer (demo_upload (Inr ())) acts =
      Inr (Some \<lparr>uploadId = Some ''id'', ui_mode = ''multipart'', partSizeBytes = Some 2, ui_url = None\<rparr>)" for acts
    by (simp add: demo_upload_def)
  have c: "part_count (length (fl_data demo_file)) (nat \<lfloor>the (Some (2 :: rat))\<rfloor>) = 3" by code_simp
  have u: "[1..<3 + 1] = [1, 2, 3 :: nat]" by code_simp
  obtain init j extra parts where x: "init_answer (demo_upload (Inr ())) (started demo_file) = Inr (Some init)"
    "snd (uploadMedia (demo_upload (Inr ())) demo_file) = started demo_file @ extra @ [Progress Merging, Complete j parts, Progress Done]"
    "concat (bodies extra) = fl_data demo_file"
    "ui_mode init \<noteq> ''single'' \<longrightarrow> map fst parts = [1..<part_count (length (fl_data demo_file)) (nat \<lfloor>the (partSizeBytes init)\<rfloor>) + 1]"
    using upload_sends_file [OF ok] unfolding Let_def by (metis (no_types))
  have "init = \<lparr>uploadId = Some ''id'', ui_mode = ''multipart'', partSizeBytes = Some 2, ui_url = None\<rparr>" using x(1) i by simp
  with x(4) have "map fst parts = [1, 2, 3]" by (simp only: UploadInit.select_convs c u) simp
  moreover have "fl_data demo_file = [1, 2, 3, 4, 5]" by (simp add: demo_file_def)
  ultimately show ?thesis using x(2,3) by metis
qed

end
