(* ===== verification/ApiClient.thy ===== *)
theory ApiClient
  imports JS_Prelude "HOL-Library.AList"
begin

text \<open>
  The HTTP client, \<open>web/src/api/client.ts\<close>: reading a cookie, and one same-origin request with the
  anti-forgery token, the JSON content type and the common response envelope. \<open>fetch\<close> is a parameter:
  its answer may depend on all requests made so far, so it takes their list. Header names are in
  lower case, as the \<open>Headers\<close> object keeps them.
\<close>

section \<open>Strings\<close>

text \<open>\<open>String.prototype.split\<close> by a separator that is not empty, \<open>Array.prototype.join\<close>,
  \<open>String.prototype.startsWith\<close>.\<close>

fun split_acc :: "string \<Rightarrow> string \<Rightarrow> string \<Rightarrow> string list" where
  "split_acc sep acc [] = [rev acc]"
| "split_acc sep acc (c # cs) =
     (if take (length sep) (c # cs) = sep then rev acc # split_acc sep [] (drop (length sep - 1) cs)
      else split_acc sep (c # acc) cs)"

definition split :: "string \<Rightarrow> string \<Rightarrow> string list" where
  "split sep s = split_acc sep [] s"

fun join :: "string \<Rightarrow> string list \<Rightarrow> string" where
  "join sep [] = []"
| "join sep [x] = x"
| "join sep (x # xs) = x @ sep @ join sep xs"

definition startsWith :: "string \<Rightarrow> string \<Rightarrow> bool" where
  "startsWith p s \<longleftrightarrow> take (length p) s = p"

definition readCookie :: "string \<Rightarrow> string \<Rightarrow> string option" where
  "readCookie cookie name =
     map_option (\<lambda>v. join ''='' (drop 1 (split ''='' v)))
       (List.find (startsWith (name @ ''='')) (split ''; '' cookie))"

text \<open>\<open>decodeURIComponent\<close> on UTF-8 text: escapes below 128 stand for themselves, longer sequences must
  be well-formed UTF-8; anything else throws (\<^term>\<open>None\<close>).\<close>

definition hexval :: "char \<Rightarrow> nat option" where
  "hexval c =
     (let n = of_char c :: nat
      in if 48 \<le> n \<and> n \<le> 57 then Some (n - 48)
         else if 65 \<le> n \<and> n \<le> 70 then Some (n - 55)
         else if 97 \<le> n \<and> n \<le> 102 then Some (n - 87)
         else None)"

fun read_escape :: "string \<Rightarrow> (nat \<times> string) option" where
  "read_escape (p # h # l # rest) =
     (if p \<noteq> CHR ''%'' then None
      else case (hexval h, hexval l) of (Some a, Some b) \<Rightarrow> Some (16 * a + b, rest) | _ \<Rightarrow> None)"
| "read_escape _ = None"

fun read_escapes :: "nat \<Rightarrow> string \<Rightarrow> (nat list \<times> string) option" where
  "read_escapes 0 s = Some ([], s)"
| "read_escapes (Suc n) s =
     (case read_escape s of
        None \<Rightarrow> None
      | Some (v, rest) \<Rightarrow> map_option (\<lambda>(vs, r). (v # vs, r)) (read_escapes n rest))"

definition utf8_tail :: "nat \<Rightarrow> nat" where
  "utf8_tail v = (if v < 128 then 0 else if v < 224 then 1 else if v < 240 then 2 else 3)"

definition utf8_ok :: "nat \<Rightarrow> nat list \<Rightarrow> bool" where
  "utf8_ok v vs \<longleftrightarrow> list_all (\<lambda>x. 128 \<le> x \<and> x < 192) vs \<and>
     (v < 128 \<or> 194 \<le> v \<and> v < 245) \<and>
     (v = 224 \<longrightarrow> 160 \<le> hd vs) \<and> (v = 237 \<longrightarrow> hd vs < 160) \<and>
     (v = 240 \<longrightarrow> 144 \<le> hd vs) \<and> (v = 244 \<longrightarrow> hd vs < 144)"

lemma read_escape_length: "read_escape s = Some (v, r) \<Longrightarrow> length r < length s"
  by (cases s rule: read_escape.cases) (auto split: if_splits option.splits)

lemma read_escapes_length: "read_escapes n s = Some (vs, r) \<Longrightarrow> length r \<le> length s"
  by (induction n arbitrary: s vs) (fastforce dest: read_escape_length split: option.splits)+

function decodeURIComponent :: "string \<Rightarrow> string option" where
  "decodeURIComponent [] = Some []"
| "decodeURIComponent (c # cs) =
     (if c \<noteq> CHR ''%'' then map_option ((#) c) (decodeURIComponent cs)
      else
        case read_escape (c # cs) of
          None \<Rightarrow> None
        | Some (v, rest) \<Rightarrow>
            (case read_escapes (utf8_tail v) rest of
               None \<Rightarrow> None
             | Some (vs, r) \<Rightarrow>
                 if utf8_ok v vs then map_option (\<lambda>t. map char_of (v # vs) @ t) (decodeURIComponent r) else None))"
  by pat_completeness auto
termination
proof (relation "measure length")
  show "(r, c # cs) \<in> measure length"
    if "read_escape (c # cs) = Some q" and "(v, rest) = q" and "read_escapes (utf8_tail v) rest = Some x" and "(vs, r) = x"
    for c cs q v rest x vs r
  proof -
    have "length rest < length (c # cs)" using that(1,2) read_escape_length by metis
    moreover have "length r \<le> length rest" using that(3,4) read_escapes_length by metis
    ultimately show ?thesis by simp
  qed
qed auto

section \<open>Requests\<close>

record fetch_request =
  rq_path :: string
  rq_method :: "string option"
  rq_body :: "string option"
  rq_headers :: "(string \<times> string) list"

text \<open>A response: \<open>ok\<close>, the status, and the body as JSON (\<^term>\<open>None\<close> if it cannot be read or parsed).\<close>

record fetch_response =
  rs_ok :: bool
  rs_status :: nat
  rs_json :: "json option"

record api_env =
  cookie :: string
  fetch :: "fetch_request list \<Rightarrow> string + fetch_response"
  aborted :: "fetch_request list \<Rightarrow> bool"
  to_string :: "json \<Rightarrow> string"

record RequestInit =
  ri_method :: "string option"
  ri_body :: "string option"
  ri_headers :: "(string \<times> string) list"

text \<open>What is thrown: \<open>APIError\<close> with its code, its message (\<^term>\<open>None\<close> is the fixed text) and its
  status; the rejection of \<open>fetch\<close>; a body that is not JSON; a property of \<open>null\<close> or \<open>undefined\<close>; a
  malformed escape.\<close>

datatype api_error =
    APIError json "json option" nat
  | Fetch_failed string
  | Json_failed
  | Type_failure
  | Uri_failure

definition set_header :: "string \<Rightarrow> string \<Rightarrow> (string \<times> string) list \<Rightarrow> (string \<times> string) list" where
  "set_header n v hs = AList.update n v hs"

definition has_header :: "string \<Rightarrow> (string \<times> string) list \<Rightarrow> bool" where
  "has_header n hs \<longleftrightarrow> map_of hs n \<noteq> None"

text \<open>Reading a property: \<^term>\<open>None\<close> throws, otherwise the property or \<open>undefined\<close>.\<close>

definition get_prop :: "string \<Rightarrow> json option \<Rightarrow> json option option" where
  "get_prop n v = (case v of None \<Rightarrow> None | Some JNull \<Rightarrow> None | Some j \<Rightarrow> Some (jget n j))"

text \<open>\<open>a?.b ?? d\<close>: absent and \<open>null\<close> are replaced.\<close>

definition opt_prop :: "string \<Rightarrow> json option \<Rightarrow> json option" where
  "opt_prop n v = (case get_prop n v of Some (Some JNull) \<Rightarrow> None | Some x \<Rightarrow> x | None \<Rightarrow> None)"

definition js_to_string :: "api_env \<Rightarrow> json option \<Rightarrow> string" where
  "js_to_string e v = (case v of None \<Rightarrow> ''undefined'' | Some (JStr s) \<Rightarrow> s | Some j \<Rightarrow> to_string e j)"

definition ascii_upper :: "string \<Rightarrow> string" where
  "ascii_upper s = map (\<lambda>c. if 97 \<le> (of_char c :: nat) \<and> (of_char c :: nat) \<le> 122
                             then char_of ((of_char c :: nat) - 32) else c) s"

definition api_method :: "RequestInit \<Rightarrow> string" where
  "api_method opts = ascii_upper (case ri_method opts of None \<Rightarrow> ''GET'' | Some m \<Rightarrow> m)"

definition content_headers :: "RequestInit \<Rightarrow> (string \<times> string) list" where
  "content_headers opts =
     (if ri_body opts \<noteq> None \<and> ri_body opts \<noteq> Some [] \<and> \<not> has_header ''content-type'' (ri_headers opts)
      then set_header ''content-type'' ''application/json'' (ri_headers opts) else ri_headers opts)"

definition csrf_request :: fetch_request where
  "csrf_request = \<lparr>rq_path = ''/api/v1/auth/csrf'', rq_method = None, rq_body = None, rq_headers = []\<rparr>"

text \<open>The token: from the cookie, or asked for; the requests made for it.\<close>

definition csrf_token :: "api_env \<Rightarrow> (api_error + string) \<times> fetch_request list" where
  "csrf_token e =
     (case readCookie (cookie e) ''wt_csrf'' of
        Some (c # cs) \<Rightarrow> (Inr (c # cs), [])
      | _ \<Rightarrow>
          (case fetch e [csrf_request] of
             Inl err \<Rightarrow> (Inl (Fetch_failed err), [csrf_request])
           | Inr r \<Rightarrow>
               (case rs_json r of
                  None \<Rightarrow> (Inl Json_failed, [csrf_request])
                | Some j \<Rightarrow>
                    (case Option.bind (get_prop ''data'' (Some j)) (get_prop ''csrfToken'') of
                       None \<Rightarrow> (Inl Type_failure, [csrf_request])
                     | Some v \<Rightarrow> (Inr (js_to_string e v), [csrf_request])))))"

text \<open>The headers of the request, or what was thrown on the way; and the requests made.\<close>

definition api_headers :: "api_env \<Rightarrow> RequestInit \<Rightarrow> (api_error + (string \<times> string) list) \<times> fetch_request list" where
  "api_headers e opts =
     (if api_method opts \<in> {''GET'', ''HEAD''} then (Inr (content_headers opts), [])
      else
        case csrf_token e of
          (Inl err, l) \<Rightarrow> (Inl err, l)
        | (Inr t, l) \<Rightarrow>
            (case decodeURIComponent t of
               None \<Rightarrow> (Inl Uri_failure, l)
             | Some d \<Rightarrow> (Inr (set_header ''x-csrf-token'' d (content_headers opts)), l)))"

text \<open>What the response gives.\<close>

definition unwrap :: "bool \<Rightarrow> fetch_response \<Rightarrow> api_error + json option" where
  "unwrap was_aborted r =
     (case (case rs_json r of Some j \<Rightarrow> Inr j | None \<Rightarrow> if was_aborted \<or> rs_ok r then Inl Json_failed else Inr (JObj [])) of
        Inl err \<Rightarrow> Inl err
      | Inr j \<Rightarrow>
          if \<not> rs_ok r then
            (case get_prop ''error'' (Some j) of
               None \<Rightarrow> Inl Type_failure
             | Some er \<Rightarrow>
                 Inl (APIError (case opt_prop ''code'' er of None \<Rightarrow> JStr ''REQUEST_FAILED'' | Some c \<Rightarrow> c)
                        (opt_prop ''message'' er) (rs_status r)))
          else (case get_prop ''data'' (Some j) of None \<Rightarrow> Inl Type_failure | Some d \<Rightarrow> Inr d))"

definition api :: "api_env \<Rightarrow> string \<Rightarrow> RequestInit \<Rightarrow> (api_error + json option) \<times> fetch_request list" where
  "api e path opts =
     (case api_headers e opts of
        (Inl err, l) \<Rightarrow> (Inl err, l)
      | (Inr hs, l) \<Rightarrow>
          let l' = l @ [\<lparr>rq_path = path, rq_method = ri_method opts, rq_body = ri_body opts, rq_headers = hs\<rparr>]
          in case fetch e l' of
               Inl err \<Rightarrow> (Inl (Fetch_failed err), l')
             | Inr r \<Rightarrow> (unwrap (aborted e l') r, l'))"

section \<open>Splitting and joining\<close>

lemma split_acc_sep:
  assumes "c \<notin> set x"
  shows "split_acc (c # sep) acc (x @ (c # sep) @ rest) = (rev acc @ x) # split_acc (c # sep) [] rest"
  using assms by (induction x arbitrary: acc) auto

lemma split_acc_last: "c \<notin> set x \<Longrightarrow> split_acc (c # sep) acc x = [rev acc @ x]"
  by (induction x arbitrary: acc) auto

lemma split_acc_not_Nil: "split_acc sep acc s \<noteq> []"
  by (induction sep acc s rule: split_acc.induct) auto

text \<open>Joining what was split gives the string back.\<close>

lemma join_Cons: "xs \<noteq> [] \<Longrightarrow> join sep (x # xs) = x @ sep @ join sep xs"
  by (cases xs) simp_all

lemma join_split_acc: "join (c # sep) (split_acc (c # sep) acc s) = rev acc @ s"
proof (induction "c # sep" acc s rule: split_acc.induct)
  case (2 acc d cs)
  show ?case
  proof (cases "take (length (c # sep)) (d # cs) = c # sep")
    case True
    then have "d # cs = c # sep @ drop (length sep) cs" by auto (metis append_take_drop_id)
    moreover have "join (c # sep) (split_acc (c # sep) acc (d # cs)) = rev acc @ (c # sep) @ drop (length sep) cs"
      using True 2(1) by (simp add: join_Cons split_acc_not_Nil)
    ultimately show ?thesis by simp
  next
    case False
    then show ?thesis using 2(2) by auto
  qed
qed simp

lemma join_split: "join (c # sep) (split (c # sep) s) = s"
  by (simp add: split_def join_split_acc)

text \<open>And splitting what was joined, when the separator's first character is in none of the pieces.\<close>

lemma split_join: "xs \<noteq> [] \<Longrightarrow> \<forall>x \<in> set xs. c \<notin> set x \<Longrightarrow> split (c # sep) (join (c # sep) xs) = xs"
proof (induction xs)
  case (Cons x xs)
  show ?case
  proof (cases "xs = []")
    case True
    then show ?thesis using Cons.prems by (simp add: split_def split_acc_last)
  next
    case False
    then have "split (c # sep) (join (c # sep) (x # xs)) = x # split (c # sep) (join (c # sep) xs)"
      using Cons.prems split_acc_sep [of c x sep "[]" "join (c # sep) xs"] by (simp add: join_Cons split_def)
    with Cons False show ?thesis by simp
  qed
qed simp

section \<open>Cookies\<close>

definition cookie_pair :: "string \<times> string \<Rightarrow> string" where
  "cookie_pair x = fst x @ ''='' @ snd x"

lemma starts_pair:
  assumes "CHR ''='' \<notin> set name" and "CHR ''='' \<notin> set n"
  shows "startsWith (name @ ''='') (cookie_pair (n, v)) = (n = name)"
proof
  show "n = name" if "startsWith (name @ ''='') (cookie_pair (n, v))"
  proof -
    define rest where "rest = drop (length (name @ ''='')) (cookie_pair (n, v))"
    have "take (length (name @ ''='')) (cookie_pair (n, v)) @ rest = cookie_pair (n, v)"
      unfolding rest_def by (rule append_take_drop_id)
    then have "(name @ ''='') @ rest = cookie_pair (n, v)" using that by (simp only: startsWith_def)
    then have "n @ CHR ''='' # v = name @ CHR ''='' # rest" by (simp add: cookie_pair_def)
    then have "takeWhile (\<lambda>c. c \<noteq> CHR ''='') (n @ CHR ''='' # v) = takeWhile (\<lambda>c. c \<noteq> CHR ''='') (name @ CHR ''='' # rest)"
      by (rule arg_cong)
    moreover have "takeWhile (\<lambda>c. c \<noteq> CHR ''='') (s @ CHR ''='' # t) = s" if "CHR ''='' \<notin> set s" for s t
      using that by (induction s) auto
    ultimately show ?thesis using assms by simp
  qed
qed (simp add: startsWith_def cookie_pair_def)

lemma pair_value: "CHR ''='' \<notin> set n \<Longrightarrow> join ''='' (drop 1 (split ''='' (cookie_pair (n, v)))) = v"
  using split_acc_sep [of "CHR ''=''" n "[]" "[]" v] join_split_acc [of "CHR ''=''" "[]" "[]" v]
  by (simp add: cookie_pair_def split_def)

lemma find_pair:
  assumes "CHR ''='' \<notin> set name" and "\<forall>x \<in> set ps. CHR ''='' \<notin> set (fst x)"
  shows "map_option (\<lambda>v. join ''='' (drop 1 (split ''='' v))) (List.find (startsWith (name @ ''='')) (map cookie_pair ps)) = map_of ps name"
  using assms(2)
proof (induction ps)
  case (Cons x ps)
  then show ?case using starts_pair [OF assms(1)] pair_value by (cases x) simp
qed simp

text \<open>
  Reading a cookie inverts writing them: when the browser lists its cookies as name, equals sign and
  value, separated by a semicolon and a space, the value read for a name is the first one listed for
  it, whole, even if it contains further equals signs; and nothing is read for a name that is not there.
\<close>

theorem readCookie_lookup:
  assumes "\<forall>x \<in> set ps. CHR '';'' \<notin> set (fst x) \<union> set (snd x) \<and> CHR ''='' \<notin> set (fst x)"
    and "CHR ''='' \<notin> set name"
  shows "readCookie (join ''; '' (map cookie_pair ps)) name = map_of ps name"
proof (cases "ps = []")
  case True
  then show ?thesis by (simp add: readCookie_def split_def startsWith_def)
next
  case False
  have "split ''; '' (join ''; '' (map cookie_pair ps)) = map cookie_pair ps"
    using assms(1) False by (intro split_join) (auto simp: cookie_pair_def)
  with find_pair [OF assms(2)] assms(1) show ?thesis by (simp add: readCookie_def)
qed

theorem readCookie_lookup_witness:
  "readCookie (join ''; '' (map cookie_pair [(''wt_sid'', ''1''), (''wt_csrf'', ''a=b='')])) ''wt_csrf'' = Some ''a=b=''"
proof -
  have "readCookie (join ''; '' (map cookie_pair [(''wt_sid'', ''1''), (''wt_csrf'', ''a=b='')])) ''wt_csrf''
      = map_of [(''wt_sid'', ''1''), (''wt_csrf'', ''a=b='')] ''wt_csrf''"
    by (rule readCookie_lookup) simp_all
  then show ?thesis by simp
qed

section \<open>Requests\<close>

lemma map_of_set_header [simp]: "map_of (set_header n v hs) = (map_of hs)(n \<mapsto> v)"
  by (simp add: set_header_def update_conv')

text \<open>
  No writing request leaves without the token: every request made on behalf of a call is the one
  that asks for the token, or belongs to a method that only reads, or carries, decoded, the token the
  cookie or the server gave.
\<close>

theorem api_writes_carry_token:
  assumes "q \<in> set (snd (api e path opts))"
  shows "q = csrf_request \<or> api_method opts \<in> {''GET'', ''HEAD''} \<or>
         (\<exists>t d. fst (csrf_token e) = Inr t \<and> decodeURIComponent t = Some d \<and>
                map_of (rq_headers q) ''x-csrf-token'' = Some d)"
proof (cases "api_method opts \<in> {''GET'', ''HEAD''}")
  case False
  have asked: "snd (csrf_token e) \<in> {[], [csrf_request]}"
    by (simp add: csrf_token_def split: option.splits list.splits sum.splits)
  with False assms show ?thesis
    by (auto simp: api_def api_headers_def Let_def split: prod.splits sum.splits option.splits)
qed simp

definition demo_api :: "string \<Rightarrow> api_env" where
  "demo_api c = \<lparr>cookie = c,
     fetch = (\<lambda>l. Inr \<lparr>rs_ok = True, rs_status = 200, rs_json = Some (JObj [(''data'', JObj [(''csrfToken'', JStr ''k'')])])\<rparr>),
     aborted = (\<lambda>_. False), to_string = (\<lambda>_. [])\<rparr>"

definition demo_post :: RequestInit where
  "demo_post = \<lparr>ri_method = Some ''post'', ri_body = Some ''{}'', ri_headers = []\<rparr>"

lemma demo_api_requests:
  "snd (api (demo_api ''wt_csrf=a%2Bb'') ''/x'' demo_post) =
     [\<lparr>rq_path = ''/x'', rq_method = Some ''post'', rq_body = Some ''{}'',
       rq_headers = [(''content-type'', ''application/json''), (''x-csrf-token'', ''a+b'')]\<rparr>]"
  by code_simp

theorem api_writes_carry_token_witness:
  "\<exists>q d. snd (api (demo_api ''wt_csrf=a%2Bb'') ''/x'' demo_post) = [q] \<and> decodeURIComponent ''a%2Bb'' = Some d \<and>
     map_of (rq_headers q) ''x-csrf-token'' = Some d"
proof -
  let ?q = "\<lparr>rq_path = ''/x'', rq_method = Some ''post'', rq_body = Some ''{}'',
       rq_headers = [(''content-type'', ''application/json''), (''x-csrf-token'', ''a+b'')]\<rparr>"
  have "?q \<in> set (snd (api (demo_api ''wt_csrf=a%2Bb'') ''/x'' demo_post))" by (simp add: demo_api_requests)
  moreover have "?q \<noteq> csrf_request" by (simp add: csrf_request_def)
  moreover have "api_method demo_post \<notin> {''GET'', ''HEAD''}" "fst (csrf_token (demo_api ''wt_csrf=a%2Bb'')) = Inr ''a%2Bb''"
    by code_simp+
  ultimately show ?thesis using api_writes_carry_token [of ?q] demo_api_requests by fastforce
qed

text \<open>
  Data comes from good responses only: when the request was answered, the call returns exactly the
  \<open>data\<close> of a response that is ok and whose body is JSON; a response that is not ok is always thrown, and
  so is an ok response whose body could not be read, which may not be taken for a success.
\<close>

theorem api_returns_data:
  assumes "api_headers e opts = (Inr hs, l)"
    and "fetch e (l @ [\<lparr>rq_path = path, rq_method = ri_method opts, rq_body = ri_body opts, rq_headers = hs\<rparr>]) = Inr r"
  shows "fst (api e path opts) = Inr d \<longleftrightarrow> rs_ok r \<and> (\<exists>j. rs_json r = Some j \<and> j \<noteq> JNull \<and> d = jget ''data'' j)"
  using assms
  by (auto simp: api_def unwrap_def get_prop_def Let_def split: option.splits json.splits)

theorem api_returns_data_witness:
  "fst (api (demo_api []) ''/x'' \<lparr>ri_method = None, ri_body = None, ri_headers = []\<rparr>) = Inr (Some (JObj [(''csrfToken'', JStr ''k'')]))"
proof -
  let ?o = "\<lparr>ri_method = None, ri_body = None, ri_headers = []\<rparr>"
  have "api_headers (demo_api []) ?o = (Inr [], [])" by code_simp
  from api_returns_data [OF this, of "''/x''"] show ?thesis by (simp add: demo_api_def)
qed

end
