(* ===== verification/VideoPlayer.thy ===== *)
theory VideoPlayer
  imports SyncController_Timers Types
begin

text \<open>
  The player: \<open>web/src/player/PlayerAdapter.ts\<close>, which routes what the user does with the player's
  controls to the room while the synchronizer reaches the element directly; the effects of
  \<open>web/src/components/VideoPlayer.tsx\<close> that create and dispose of the element and hand the room's
  state to the synchronizer, with the placement of the two portal hosts and the status pill; and the
  full screen toggle. The set-up of the Artplayer library is theory \<open>VideoPlayer_Controls\<close>.
\<close>

section \<open>Whether an element is attached\<close>

text \<open>Only attaching and destroying change whether the controller has an element.\<close>

named_theorems element_simps

definition no_element :: "Controller \<Rightarrow> bool" where
  "no_element c \<longleftrightarrow> video c = None"

lemma no_element_update [element_simps]:
  "no_element (c\<lparr>pendingSeek := m\<rparr>) = no_element c" "no_element (c\<lparr>applyingRemoteState := b\<rparr>) = no_element c"
  "no_element (c\<lparr>bufferSuspected := b\<rparr>) = no_element c" "no_element (c\<lparr>memberBufferingReported := b\<rparr>) = no_element c"
  "no_element (c\<lparr>hostBufferingReported := b\<rparr>) = no_element c" "no_element (c\<lparr>confirmedBuffering := b\<rparr>) = no_element c"
  "no_element (c\<lparr>ignoreBufferUntil := r\<rparr>) = no_element c" "no_element (c\<lparr>recoveryUntil := r\<rparr>) = no_element c"
  "no_element (c\<lparr>softCorrectionSince := m\<rparr>) = no_element c" "no_element (c\<lparr>autoplayBlocked := b\<rparr>) = no_element c"
  "no_element (c\<lparr>drift := d\<rparr>) = no_element c" "no_element (c\<lparr>timers := ts\<rparr>) = no_element c"
  "no_element (c\<lparr>promises := ps\<rparr>) = no_element c" "no_element (c\<lparr>currentStatus := cs\<rparr>) = no_element c"
  "no_element (c\<lparr>microtask := b\<rparr>) = no_element c" "no_element (c\<lparr>log := l\<rparr>) = no_element c"
  "no_element (c\<lparr>playTimer := h\<rparr>) = no_element c" "no_element (c\<lparr>recoveryTimer := h\<rparr>) = no_element c"
  "no_element (c\<lparr>bufferConfirmTimer := h\<rparr>) = no_element c" "no_element (c\<lparr>tickTimer := h\<rparr>) = no_element c"
  "no_element (c\<lparr>heartbeatTimer := h\<rparr>) = no_element c" "no_element (c\<lparr>detached := dt\<rparr>) = no_element c"
  "no_element (c\<lparr>state := st\<rparr>) = no_element c" "no_element (c\<lparr>lastRevision := n\<rparr>) = no_element c"
  "no_element (c\<lparr>isHost := b\<rparr>) = no_element c" "no_element (c\<lparr>video := ov\<rparr>) \<longleftrightarrow> ov = None"
  by (simp_all add: no_element_def)

lemma no_element_basic [element_simps]:
  "no_element (emit x c) = no_element c" "no_element (video_pause c) = no_element c"
  "no_element (set_rate r c) = no_element c" "no_element (ws_send t p a pr c) = no_element c"
  "no_element (emitStatus s c) = no_element c" "no_element (tryPlay c) = no_element c"
  "no_element (play_if_paused c) = no_element c" "no_element (cancelScheduledPlay c) = no_element c"
  by (simp_all add: no_element_def emit_def video_pause_def set_rate_def ws_send_def emitStatus_def tryPlay_def
      play_if_paused_def cancelScheduledPlay_def split: option.splits)

lemma no_element_seek [element_simps]:
  "no_element (perform_seek e x m c) = no_element c" "no_element (seek e ms c) = no_element c"
  "no_element (retrySeek e c) = no_element c"
proof -
  show perf: "no_element (perform_seek e x m c) = no_element c" for x m c
    by (simp add: perform_seek_def element_simps split: option.splits) (simp add: no_element_def)
  show sk: "no_element (seek e ms c) = no_element c" for ms
    by (simp add: seek_def perf Let_def element_simps split: option.splits jsnum.splits)
  show "no_element (retrySeek e c) = no_element c"
    by (simp add: retrySeek_def sk split: option.splits)
qed

lemma no_element_apply [element_simps]:
  "no_element (schedulePlay e t c) = no_element c" "no_element (scheduleRecovery e c) = no_element c"
  "no_element (apply_align e v st f m j c) = no_element c" "no_element (apply_stopped e v st c) = no_element c"
  "no_element (apply_playing e st a b c) = no_element c"
  by (simp_all add: schedulePlay_def scheduleRecovery_def apply_align_def apply_stopped_def apply_playing_def
      Let_def element_simps split: prod.splits option.splits)

lemma no_element_apply_state [element_simps]: "no_element (apply_state e p f c) = no_element c"
  by (rule apply_state_cases [where c = c and e = e and p = p and f = f]) (simp_all add: element_simps)

lemma no_element_work [element_simps]:
  "no_element (applyCorrection e a c) = no_element c" "no_element (tick e c) = no_element c"
  "no_element (heartbeat c) = no_element c" "no_element (updateHeartbeat e c) = no_element c"
  "no_element (loadedMetadata e c) = no_element c" "no_element (waiting e c) = no_element c"
  "no_element (canPlay e c) = no_element c" "no_element (nativePause c) = no_element c"
  "no_element (ended c) = no_element c" "no_element (play_fires c) = no_element c"
  "no_element (bufferConfirm_fires e c) = no_element c" "no_element (recovery_fires e c) = no_element c"
proof -
  show ac: "no_element (applyCorrection e a c) = no_element c" for a c
    by (simp add: applyCorrection_def Let_def element_simps split: option.splits)
  show tk: "no_element (tick e c) = no_element c" for c
    by (simp add: tick_def Let_def ac element_simps split: option.splits prod.splits)
  show "no_element (heartbeat c) = no_element c" "no_element (updateHeartbeat e c) = no_element c"
    "no_element (loadedMetadata e c) = no_element c" "no_element (waiting e c) = no_element c"
    "no_element (canPlay e c) = no_element c" "no_element (nativePause c) = no_element c"
    "no_element (ended c) = no_element c" "no_element (play_fires c) = no_element c"
    by (simp_all add: heartbeat_def updateHeartbeat_def loadedMetadata_def waiting_def canPlay_def
        nativePause_def ended_def play_fires_def tk Let_def element_simps split: option.splits prod.splits)
  show "no_element (bufferConfirm_fires e c) = no_element c"
    by (simp add: bufferConfirm_fires_def Let_def element_simps split: option.splits)
  show "no_element (recovery_fires e c) = no_element c"
    by (simp add: recovery_fires_def tk Let_def element_simps split: option.splits)
qed

lemma no_element_dispatch [element_simps]: "no_element (dispatch e t c) = no_element c"
proof -
  have "no_element (run_listener e l c) = no_element c" for l c by (cases l) (simp_all add: element_simps)
  then have "no_element (fold (run_listener e) ls c) = no_element c" for ls
    by (induction ls arbitrary: c) simp_all
  then show ?thesis by (simp add: dispatch_def split: option.splits)
qed

lemma no_element_user [element_simps]:
  "no_element (onUserPlay c) = no_element c" "no_element (onUserPause c) = no_element c"
  "no_element (onUserSeek e ms c) = no_element c" "no_element (onUserRateChange r c) = no_element c"
  "no_element (resumeLocal c) = no_element c" "no_element (realign e c) = no_element c"
  "no_element (suspend c) = no_element c" "no_element (run_microtask c) = no_element c"
  "no_element (setHost e b c) = no_element c" "no_element (setRoomState e st f c) = no_element c"
  by (simp_all add: onUserPlay_def onUserPause_def onUserSeek_def onUserRateChange_def resumeLocal_def setRoomState_def
      realign_def suspend_def run_microtask_def setHost_def Let_def element_simps split: option.splits prod.splits)

lemma no_element_callbacks [element_simps]:
  "no_element (settle p ok c) = no_element c" "no_element (run_timer e k c) = no_element c"
  by (cases p; cases ok; simp add: element_simps) (cases k; simp add: element_simps)

lemma no_element_step:
  "no_element (step e ev c) =
     (case ev of Attach v \<Rightarrow> False | Destroy \<Rightarrow> True | _ \<Rightarrow> no_element c)"
proof (cases ev)
  case (Attach v)
  then show ?thesis by (simp add: step_def attach_def Let_def element_simps split: prod.splits)
next
  case Destroy
  then show ?thesis by (simp add: step_def destroy_def Let_def element_simps)
next
  case (Media v)
  then show ?thesis by (simp add: step_def element_simps split: option.splits) (simp add: no_element_def)
qed (simp_all add: step_def element_simps split: option.splits)

section \<open>The adapter\<close>

text \<open>A property of the element: the prototype's, or the adapter's own.\<close>

datatype routing = Native | Routed

datatype ui_op = Ui_play | Ui_pause | Ui_seek rat | Ui_rate rat

text \<open>\<open>ad_native\<close> are the writes that reached the element without the controller.\<close>

record Adapter =
  ad_play :: routing
  ad_pause :: routing
  ad_currentTime :: routing
  ad_playbackRate :: routing
  ad_ctl :: Controller
  ad_native :: "ui_op list"

definition connectPlayer :: "env \<Rightarrow> Video \<Rightarrow> 'a Adapter_scheme \<Rightarrow> 'a Adapter_scheme" where
  "connectPlayer e v a =
     (let a1 = a\<lparr>ad_play := Routed, ad_pause := Routed, ad_currentTime := Routed, ad_playbackRate := Routed\<rparr>
      in a1\<lparr>ad_ctl := step e (Attach v) (ad_ctl a1)\<rparr>)"

text \<open>The function \<open>connectPlayer\<close> returns.\<close>

definition disconnectPlayer :: "env \<Rightarrow> 'a Adapter_scheme \<Rightarrow> 'a Adapter_scheme" where
  "disconnectPlayer e a =
     (let a1 = a\<lparr>ad_ctl := step e Destroy (ad_ctl a)\<rparr>
      in a1\<lparr>ad_currentTime := Native, ad_playbackRate := Native, ad_play := Native, ad_pause := Native\<rparr>)"

text \<open>A write to the element as the player's controls do it.\<close>

fun routing_of :: "ui_op \<Rightarrow> 'a Adapter_scheme \<Rightarrow> routing" where
  "routing_of Ui_play a = ad_play a"
| "routing_of Ui_pause a = ad_pause a"
| "routing_of (Ui_seek s) a = ad_currentTime a"
| "routing_of (Ui_rate r) a = ad_playbackRate a"

fun room_event :: "ui_op \<Rightarrow> ctl_event" where
  "room_event Ui_play = UserPlay"
| "room_event Ui_pause = UserPause"
| "room_event (Ui_seek seconds) = UserSeek (Num (seconds * 1000))"
| "room_event (Ui_rate r) = UserRate r"

definition ui_write :: "env \<Rightarrow> ui_op \<Rightarrow> 'a Adapter_scheme \<Rightarrow> 'a Adapter_scheme" where
  "ui_write e op a =
     (if routing_of op a = Routed then a\<lparr>ad_ctl := step e (room_event op) (ad_ctl a)\<rparr>
      else a\<lparr>ad_native := ad_native a @ [op]\<rparr>)"

section \<open>The component\<close>

datatype place = Nowhere | In_placeholder | In_player

text \<open>The dependencies of the last commit and the state of the component; room states are compared by
  reference.\<close>

record Player = Adapter +
  pl_src :: "string option"
  pl_hasChat :: bool
  pl_state :: "(nat \<times> PlaybackState) option"
  pl_mounted :: bool
  pl_created :: bool
  pl_broadcastHost :: place
  pl_chatHost :: place

definition has_src :: "string option \<Rightarrow> bool" where
  "has_src s \<longleftrightarrow> s \<noteq> None \<and> s \<noteq> Some []"

definition create_player :: "env \<Rightarrow> Video \<Rightarrow> string option \<Rightarrow> bool \<Rightarrow> Player \<Rightarrow> Player" where
  "create_player e v s chat p =
     (if \<not> has_src s then p\<lparr>pl_broadcastHost := In_placeholder\<rparr>
      else
        let p1 = p\<lparr>pl_broadcastHost := In_player, pl_chatHost := (if chat then In_player else pl_chatHost p), pl_created := True\<rparr>
        in connectPlayer e v p1)"

definition dispose_player :: "env \<Rightarrow> Player \<Rightarrow> Player" where
  "dispose_player e p =
     (if \<not> pl_created p then p
      else disconnectPlayer e (p\<lparr>pl_broadcastHost := Nowhere, pl_chatHost := Nowhere, pl_created := False\<rparr>))"

text \<open>A commit with the properties of the new render; \<open>v\<close> is the element a new player would have. The two
  effects run in this order; each looks at its own dependencies. Their calls of the synchronizer are in
  one task of the event loop; that the model ends each call with the pending microtask makes no
  difference, since the flag it resets is read only by events of the element.\<close>

definition create_effect :: "env \<Rightarrow> Video \<Rightarrow> string option \<Rightarrow> bool \<Rightarrow> Player \<Rightarrow> Player" where
  "create_effect e v s chat p =
     (if \<not> pl_mounted p \<or> s \<noteq> pl_src p \<or> chat \<noteq> pl_hasChat p
      then create_player e v s chat (dispose_player e p) else p)"

definition state_effect :: "env \<Rightarrow> string option \<Rightarrow> (nat \<times> PlaybackState) option \<Rightarrow> Player \<Rightarrow> Player \<Rightarrow> Player" where
  "state_effect e s st old p =
     (if \<not> pl_mounted old \<or> map_option fst st \<noteq> map_option fst (pl_state old) \<or> s \<noteq> pl_src old
      then case st of None \<Rightarrow> p | Some (_, x) \<Rightarrow> p\<lparr>ad_ctl := step e (SetRoomState x False) (ad_ctl p)\<rparr>
      else p)"

text \<open>The room page hands one controller to the player for the life of both, so the dependency on it never changes.\<close>

definition player_commit ::
  "env \<Rightarrow> Video \<Rightarrow> string option \<Rightarrow> bool \<Rightarrow> (nat \<times> PlaybackState) option \<Rightarrow> Player \<Rightarrow> Player" where
  "player_commit e v s chat st p =
     (state_effect e s st p (create_effect e v s chat p))
       \<lparr>pl_src := s, pl_hasChat := chat, pl_state := st, pl_mounted := True\<rparr>"

definition player_unmount :: "env \<Rightarrow> Player \<Rightarrow> Player" where
  "player_unmount e p = (dispose_player e p)\<lparr>pl_mounted := False\<rparr>"

text \<open>The pill over the player: whether it is there, and whether it can be clicked.\<close>

definition status_pill :: "SyncStatus \<Rightarrow> bool \<Rightarrow> bool option" where
  "status_pill status visible =
     (if status \<noteq> Autoplay_blocked \<and> \<not> visible then None else Some (status = Autoplay_blocked))"

section \<open>The player with its synchronizer\<close>

text \<open>The synchronizer's other events come from timers, promises, the element, the room page and the
  pill; attaching and destroying are the component's own.\<close>

datatype player_event =
    Commit_player Video "string option" bool "(nat \<times> PlaybackState) option"
  | Unmount_player
  | Ui ui_op
  | Ctl ctl_event

fun player_step :: "env \<Rightarrow> player_event \<Rightarrow> Player \<Rightarrow> Player" where
  "player_step e (Commit_player v s chat st) p = player_commit e v s chat st p"
| "player_step e Unmount_player p = player_unmount e p"
| "player_step e (Ui op) p = ui_write e op p"
| "player_step e (Ctl ev) p = p\<lparr>ad_ctl := step e ev (ad_ctl p)\<rparr>"

fun own_event :: "player_event \<Rightarrow> bool" where
  "own_event (Ctl (Attach v)) = False"
| "own_event (Ctl Destroy) = False"
| "own_event ev = True"

definition newPlayer :: "bool \<Rightarrow> Player" where
  "newPlayer host = \<lparr>ad_play = Native, ad_pause = Native, ad_currentTime = Native, ad_playbackRate = Native,
     ad_ctl = newController host, ad_native = [], pl_src = None, pl_hasChat = False, pl_state = None, pl_mounted = False,
     pl_created = False, pl_broadcastHost = Nowhere, pl_chatHost = Nowhere\<rparr>"

inductive player_trans :: "Player \<Rightarrow> env \<times> player_event \<Rightarrow> Player \<Rightarrow> bool" where
  player_trans: "own_event ev \<Longrightarrow> player_trans p (e, ev) (player_step e ev p)"

inductive_cases player_transE: "player_trans p l p'"

definition player_init :: "Player \<Rightarrow> bool" where
  "player_init p \<longleftrightarrow> (\<exists>host. p = newPlayer host)"

abbreviation player_reachable :: "Player \<Rightarrow> bool" where
  "player_reachable \<equiv> reachable player_init player_trans"

text \<open>The element is attached exactly while the player exists, and then the four properties are the
  adapter's; the synchronizer's state is one its own step relation reaches.\<close>

definition player_ok :: "Player \<Rightarrow> bool" where
  "player_ok p \<longleftrightarrow>
     ctl_reachable (ad_ctl p) \<and> pl_created p = (video (ad_ctl p) \<noteq> None) \<and>
     (\<forall>op. routing_of op p = (if pl_created p then Routed else Native)) \<and>
     (pl_created p \<longrightarrow> pl_broadcastHost p = In_player)"

lemma all_ops: "(\<forall>op. routing_of op p = x) \<longleftrightarrow> ad_play p = x \<and> ad_pause p = x \<and> ad_currentTime p = x \<and> ad_playbackRate p = x"
  by (metis routing_of.simps ui_op.exhaust)

lemma player_ok_ctl:
  assumes "player_ok p" and "\<forall>v. ev \<noteq> Attach v" and "ev \<noteq> Destroy"
  shows "player_ok (p\<lparr>ad_ctl := step e ev (ad_ctl p)\<rparr>)"
proof -
  have "ctl_reachable (step e ev (ad_ctl p))"
    using assms(1,2) by (auto simp: player_ok_def intro: reachable_step ctl_step.step_other)
  moreover have "no_element (step e ev (ad_ctl p)) = no_element (ad_ctl p)"
    using assms(2,3) by (simp add: no_element_step split: ctl_event.splits)
  ultimately show ?thesis using assms(1) by (auto simp: player_ok_def all_ops no_element_def)
qed

lemma player_ok_dispose:
  assumes "player_ok p"
  shows "player_ok (dispose_player e p)" "\<not> pl_created (dispose_player e p)"
proof -
  have "ctl_reachable (step e Destroy (ad_ctl p))"
    using assms by (auto simp: player_ok_def intro: reachable_step ctl_step.step_other)
  moreover have "no_element (step e Destroy (ad_ctl p))" by (simp add: no_element_step)
  ultimately show "player_ok (dispose_player e p)"
    using assms by (auto simp: dispose_player_def disconnectPlayer_def player_ok_def all_ops no_element_def Let_def)
  show "\<not> pl_created (dispose_player e p)"
    by (simp add: dispose_player_def disconnectPlayer_def Let_def)
qed

lemma player_ok_create:
  assumes "player_ok p" and "\<not> pl_created p"
  shows "player_ok (create_player e v s chat p)" "pl_created (create_player e v s chat p) = has_src s"
proof -
  have "ctl_reachable (step e (Attach v) (ad_ctl p))"
    using assms by (auto simp: player_ok_def intro: reachable_step ctl_step.step_attach)
  moreover have "\<not> no_element (step e (Attach v) (ad_ctl p))" by (simp add: no_element_step)
  ultimately show "player_ok (create_player e v s chat p)" "pl_created (create_player e v s chat p) = has_src s"
    using assms by (auto simp: create_player_def connectPlayer_def player_ok_def all_ops no_element_def Let_def)
qed

lemma player_ok_deps:
  "player_ok p \<Longrightarrow> player_ok (p\<lparr>pl_src := s, pl_hasChat := chat, pl_state := st, pl_mounted := b\<rparr>)"
  "player_ok p \<Longrightarrow> player_ok (p\<lparr>pl_mounted := b\<rparr>)"
  by (auto simp: player_ok_def all_ops)

lemma player_ok_commit:
  assumes "player_ok p"
  shows "player_ok (player_commit e v s chat st p)"
proof -
  define p1 where "p1 = create_effect e v s chat p"
  have p1: "player_ok p1" using assms player_ok_dispose player_ok_create by (simp add: p1_def create_effect_def)
  then have "player_ok (p1\<lparr>ad_ctl := step e (SetRoomState x False) (ad_ctl p1)\<rparr>)" for x by (rule player_ok_ctl) simp_all
  with p1 have "player_ok (state_effect e s st p p1)" by (simp add: state_effect_def split: option.splits)
  then show ?thesis by (simp add: player_commit_def p1_def player_ok_deps)
qed

interpretation player_inv: invariant_system player_init player_trans player_ok
proof unfold_locales
  show "player_init p \<Longrightarrow> player_ok p" for p
  proof -
    assume "player_init p"
    then obtain host where p: "p = newPlayer host" by (auto simp: player_init_def)
    have "ctl_reachable (newController host)" by (rule reachable_init) (auto simp: ctl_init_def)
    then show "player_ok p" by (simp add: p newPlayer_def player_ok_def all_ops) (simp add: newController_def)
  qed
  show "player_ok p \<Longrightarrow> player_trans p l p' \<Longrightarrow> player_ok p'" for p l p'
  proof (erule player_transE)
    fix ev e
    assume ok: "player_ok p" and p': "p' = player_step e ev p" and own: "own_event ev"
    show "player_ok p'"
    proof (cases ev)
      case Unmount_player
      then show ?thesis using player_ok_dispose [OF ok] by (simp add: p' player_unmount_def player_ok_deps)
    next
      case (Ui op)
      have "player_ok (p\<lparr>ad_native := l\<rparr>)" for l using ok by (auto simp: player_ok_def all_ops)
      moreover have "player_ok (p\<lparr>ad_ctl := step e (room_event op) (ad_ctl p)\<rparr>)"
        by (cases op) (simp_all add: player_ok_ctl ok)
      ultimately show ?thesis by (simp add: p' Ui ui_write_def)
    next
      case (Ctl x)
      then show ?thesis using own by (cases x) (simp_all add: p' player_ok_ctl ok)
    qed (simp add: p' player_ok_commit ok)
  qed
qed

text \<open>
  C30. The component keeps its side of the synchronizer's contract: whatever is rendered, clicked or
  delivered, and in whatever order, the synchronizer only takes steps of its own relation (it is never
  attached twice), it has an element exactly while the player exists, and then every one of the four
  properties the controls write is routed to it. So its invariants hold inside the player.
\<close>

theorem player_refines_controller:
  assumes "player_reachable p"
  shows "ctl_reachable (ad_ctl p) \<and> pl_created p = (video (ad_ctl p) \<noteq> None) \<and>
         (\<forall>op. routing_of op p = (if pl_created p then Routed else Native))"
  using player_inv.inv_reachable [OF assms] by (simp add: player_ok_def)

definition demo_player :: Player where
  "demo_player = player_step (demo_env 0) (Commit_player demo_video (Some ''u'') False None) (newPlayer False)"

lemma demo_player_reachable: "player_reachable demo_player"
proof -
  have "player_reachable (newPlayer False)" by (rule reachable_init) (auto simp: player_init_def)
  then show ?thesis unfolding demo_player_def by (rule reachable_step) (rule player_trans, simp)
qed

theorem player_refines_controller_witness: "video (ad_ctl demo_player) \<noteq> None \<and> ctl_reachable (ad_ctl demo_player)"
proof -
  have "pl_created demo_player" by code_simp
  with player_refines_controller [OF demo_player_reachable] show ?thesis by simp
qed


section \<open>What the controls do\<close>

text \<open>The commands sent to the room in a task.\<close>

fun commands :: "effect list \<Rightarrow> string list" where
  "commands [] = []"
| "commands (Send t p a # l) = t # commands l"
| "commands (_ # l) = commands l"

lemma commands_append [simp]: "commands (xs @ ys) = commands xs @ commands ys"
  by (induction xs rule: commands.induct) simp_all

fun command_of :: "ui_op \<Rightarrow> string" where
  "command_of Ui_play = ''cmd.playback.play''"
| "command_of Ui_pause = ''cmd.playback.pause''"
| "command_of (Ui_seek s) = ''cmd.playback.seek''"
| "command_of (Ui_rate r) = ''cmd.playback.rate''"

lemma commands_basic:
  "commands (log (video_pause c)) = commands (log c)" "commands (log (set_rate r c)) = commands (log c)"
  "commands (log (cancelScheduledPlay c)) = commands (log c)"
  "commands (log (ws_send t p a pr c)) = commands (log c) @ [t]"
  "commands (log (run_microtask c)) = commands (log c)"
  by (simp_all add: video_pause_def set_rate_def cancelScheduledPlay_def ws_send_def emit_def run_microtask_def
      split: option.splits)

lemma commands_seek: "commands (log (seek e ms c)) = commands (log c)"
proof -
  have "commands (log (perform_seek e x m c)) = commands (log c)" for x m c
    by (simp add: perform_seek_def emit_def split: option.splits)
  then show ?thesis by (simp add: seek_def Let_def split: option.splits jsnum.splits)
qed

text \<open>
  The controls command the room and nothing else: while the player exists, a write by the user never
  reaches the element past the synchronizer; on the host each write sends exactly one command, the one
  that belongs to it; and for a member it does nothing at all, so members cannot leave the common
  timeline with the player's own controls.
\<close>

theorem controls_command_room:
  assumes "player_reachable p" and "pl_created p"
  shows "ad_native (player_step e (Ui op) p) = ad_native p \<and>
     commands (log (ad_ctl (player_step e (Ui op) p))) = (if isHost (ad_ctl p) then [command_of op] else []) \<and>
     (\<not> isHost (ad_ctl p) \<longrightarrow> ad_ctl (player_step e (Ui op) p) = run_microtask ((ad_ctl p)\<lparr>log := []\<rparr>))"
proof -
  from player_inv.inv_reachable [OF assms(1)] assms(2) have ok: "routing_of op p = Routed" "video (ad_ctl p) \<noteq> None"
    by (auto simp: player_ok_def)
  let ?c = "(ad_ctl p)\<lparr>log := []\<rparr>"
  have st: "ad_ctl (player_step e (Ui op) p) = run_microtask (handle e (room_event op) ?c)"
    using ok(1) by (simp add: ui_write_def step_def)
  have "commands (log (handle e (room_event op) ?c)) = (if isHost ?c then [command_of op] else [])"
    using ok(2) by (cases op) (auto simp: onUserPlay_def onUserPause_def onUserSeek_def onUserRateChange_def Let_def
        commands_basic commands_seek split: option.splits)
  moreover have "\<not> isHost ?c \<Longrightarrow> handle e (room_event op) ?c = ?c"
    using ok(2) by (cases op) (auto simp: onUserPlay_def onUserPause_def onUserSeek_def onUserRateChange_def split: option.splits)
  moreover have "ad_native (player_step e (Ui op) p) = ad_native p" using ok(1) by (simp add: ui_write_def)
  ultimately show ?thesis unfolding st by (auto simp: commands_basic simp del: player_step.simps)
qed

theorem controls_command_room_witness:
  "commands (log (ad_ctl (player_step (demo_env 5) (Ui (Ui_seek 60)) demo_player))) = [] \<and>
   ad_native (player_step (demo_env 5) (Ui (Ui_seek 60)) demo_player) = []"
proof -
  have "pl_created demo_player" "\<not> isHost (ad_ctl demo_player)" "ad_native demo_player = []" by code_simp+
  with controls_command_room [OF demo_player_reachable] show ?thesis by (simp del: player_step.simps add: commands_basic)
qed

text \<open>
  Disposing of the player undoes connecting it: after unmounting a reachable player, the four
  properties are the element's own again, no timer of the synchronizer is alive, and it has let go of
  the element with its listeners removed.
\<close>

theorem unmount_releases:
  assumes "player_reachable p" and "pl_created p"
  shows "let p' = player_step e Unmount_player p in
     (\<forall>op. routing_of op p' = Native) \<and> video (ad_ctl p') = None \<and> live (timers (ad_ctl p')) = [] \<and>
     (\<forall>v. video (ad_ctl p) = Some v \<longrightarrow> detach_listeners v \<in> set (detached (ad_ctl p')))"
proof -
  have ok: "player_ok p" using player_inv.inv_reachable [OF assms(1)] .
  let ?c = "(ad_ctl p)\<lparr>log := []\<rparr>"
  have "timers_ok (ad_ctl p)" using ok by (auto simp: player_ok_def intro: ctl_timers.inv_reachable)
  then have "timers_ok ?c" by (rule timers_ok_frame) simp
  then have "live (timers (destroy ?c)) = []" by (rule destroy_timers)
  moreover have c': "ad_ctl (player_step e Unmount_player p) = run_microtask (destroy ?c)"
    using assms(2) by (simp add: player_unmount_def dispose_player_def disconnectPlayer_def Let_def step_def)
  moreover have "player_ok (player_step e Unmount_player p)" "\<not> pl_created (player_step e Unmount_player p)"
    using player_ok_dispose [OF ok] by (simp_all add: player_unmount_def player_ok_deps)
  moreover have "detach_listeners v \<in> set (detached (run_microtask (destroy ?c)))" if "video (ad_ctl p) = Some v" for v
    using that by (simp add: run_microtask_def destroy_def Let_def cancelScheduledPlay_def)
  ultimately show ?thesis
    by (auto simp: Let_def player_ok_def run_microtask_def simp del: player_step.simps)
qed

theorem unmount_releases_witness:
  "live (timers (ad_ctl (player_step (demo_env 9) Unmount_player demo_player))) = []"
proof -
  have "pl_created demo_player" by code_simp
  with unmount_releases [OF demo_player_reachable, of "demo_env 9"] show ?thesis by (simp add: Let_def del: player_step.simps)
qed

section \<open>Full screen\<close>

text \<open>A method of the browser: missing, working, or failing by an exception or a rejection.\<close>

datatype fs_method = Missing | Works | Throws

datatype fs_call = Exit | Webkit_exit | Player_request | Webkit_player_request | Video_enter | Video_request

record fullscreen =
  fullscreenElement :: bool
  webkitFullscreenElement :: bool
  fullscreenEnabled :: "bool option"
  exitFullscreen :: fs_method
  webkitExitFullscreen :: fs_method
  requestFullscreen :: fs_method
  webkitRequestFullscreen :: fs_method
  has_video :: bool
  webkitEnterFullscreen :: fs_method
  video_requestFullscreen :: fs_method

definition fallback_video :: "fullscreen \<Rightarrow> fs_call list" where
  "fallback_video d =
     (if \<not> has_video d then []
      else if webkitEnterFullscreen d \<noteq> Missing then [Video_enter]
      else if video_requestFullscreen d \<noteq> Missing then [Video_request]
      else [])"

definition fallback_webkit :: "fullscreen \<Rightarrow> fs_call list" where
  "fallback_webkit d =
     (case webkitRequestFullscreen d of
        Missing \<Rightarrow> fallback_video d
      | Works \<Rightarrow> [Webkit_player_request]
      | Throws \<Rightarrow> Webkit_player_request # fallback_video d)"

text \<open>The calls made, in order.\<close>

definition togglePlayerFullscreen :: "fullscreen \<Rightarrow> fs_call list" where
  "togglePlayerFullscreen d =
     (if fullscreenElement d \<or> webkitFullscreenElement d then
        (if exitFullscreen d \<noteq> Missing then [Exit]
         else if webkitExitFullscreen d \<noteq> Missing then [Webkit_exit]
         else [])
      else if fullscreenEnabled d \<noteq> Some False \<and> requestFullscreen d \<noteq> Missing then
        (case requestFullscreen d of
           Throws \<Rightarrow> Player_request # fallback_webkit d
         | _ \<Rightarrow> [Player_request])
      else fallback_webkit d)"

text \<open>The reference: try the methods that exist, in the order of preference, until one works.\<close>

fun attempt :: "(fs_call \<times> fs_method) list \<Rightarrow> fs_call list" where
  "attempt [] = []"
| "attempt ((c, m) # ms) = (if m = Missing then attempt ms else c # (if m = Throws then attempt ms else []))"

definition ways_in :: "fullscreen \<Rightarrow> (fs_call \<times> fs_method) list" where
  "ways_in d =
     (if fullscreenEnabled d = Some False then [] else [(Player_request, requestFullscreen d)]) @
     [(Webkit_player_request, webkitRequestFullscreen d)] @
     (if \<not> has_video d then []
      else if webkitEnterFullscreen d \<noteq> Missing then [(Video_enter, webkitEnterFullscreen d)]
      else [(Video_request, video_requestFullscreen d)])"

text \<open>
  The full screen toggle is the search for the first method that works: outside full screen it tries
  the element, the prefixed element and the video, skipping what is missing and stopping at the first
  success; inside full screen it only ever leaves.
\<close>

theorem fullscreen_tries_in_order:
  "togglePlayerFullscreen d =
     (if fullscreenElement d \<or> webkitFullscreenElement d
      then take 1 (map fst (filter (\<lambda>x. snd x \<noteq> Missing) [(Exit, exitFullscreen d), (Webkit_exit, webkitExitFullscreen d)]))
      else attempt (ways_in d))"
  by (cases "requestFullscreen d"; cases "webkitRequestFullscreen d")
    (auto simp: togglePlayerFullscreen_def ways_in_def fallback_webkit_def fallback_video_def)

text \<open>
  A blocked start can always be unblocked by hand: the pill that resumes playback is shown whenever
  the browser refused to start, whatever the user's preference, and it can be clicked only then.
\<close>

theorem pill_shown_when_blocked:
  "(status_pill s visible = Some True) = (s = Autoplay_blocked) \<and>
   (status_pill s visible = None) = (\<not> visible \<and> s \<noteq> Autoplay_blocked)"
  by (auto simp: status_pill_def)

end
