(* ===== verification/VideoPlayer_Controls.thy ===== *)
theory VideoPlayer_Controls
  imports VideoPlayer
begin

text \<open>
  The controls of the player (\<open>web/src/components/VideoPlayer.tsx\<close>): the options the library is started with,
  the controls and listeners that are added to it, and the two effects that keep the member's mark and the
  status pill in step with the room. The Artplayer library is another program: what the component asks of
  it is a list of calls, and the one thing the component reads back, whether a layer of a name is there, is
  a parameter with the library's documented laws (\<open>layer_laws\<close>). Fixed texts are written in English.
\<close>

section \<open>Calls of the library\<close>

datatype control_click = Toggle_sync_status | Toggle_fullscreen

record art_control =
  ac_name :: string
  ac_position :: string
  ac_html :: string
  ac_tooltip :: string
  ac_click :: control_click

record art_options =
  ao_url :: string
  ao_lang :: string
  ao_autoplay :: bool
  ao_autoPlayback :: bool
  ao_mutex :: bool
  ao_hotkey :: bool
  ao_gesture :: bool
  ao_setting :: bool
  ao_playbackRate :: bool
  ao_pip :: bool
  ao_fullscreen :: bool
  ao_fullscreenWeb :: bool
  ao_playsInline :: bool
  ao_controls :: "art_control list"

record pill =
  pill_class :: string
  pill_text :: string
  pill_disabled :: bool

datatype art_call =
    New_art art_options
  | Class_add string
  | Class_toggle string bool
  | Append_broadcast_host
  | Add_chat_control string string nat
  | Proxy string
  | Remove_control string
  | Control_attribute string string string
  | Listen_keydown string
  | On string
  | Show_controls
  | Add_layer string pill
  | Remove_layer string
  | Destroy_art

definition player_options :: "string \<Rightarrow> art_options" where
  "player_options src =
     \<lparr>ao_url = src, ao_lang = ''zh-cn'', ao_autoplay = False, ao_autoPlayback = False, ao_mutex = False,
      ao_hotkey = True, ao_gesture = True, ao_setting = True, ao_playbackRate = True, ao_pip = True,
      ao_fullscreen = True, ao_fullscreenWeb = False, ao_playsInline = True,
      ao_controls =
        [\<lparr>ac_name = ''room-sync'', ac_position = ''right'', ac_html = ''Sync'',
           ac_tooltip = ''Show or hide the synchronisation status'', ac_click = Toggle_sync_status\<rparr>,
         \<lparr>ac_name = ''room-fullscreen'', ac_position = ''right'', ac_html = ''Full screen'',
           ac_tooltip = ''Full screen'', ac_click = Toggle_fullscreen\<rparr>]\<rparr>"

text \<open>What the effect that creates the player asks for, in its order.\<close>

definition chat_calls :: "art_call list" where
  "chat_calls = [Class_add ''room-has-chat'', Add_chat_control ''room-chat'' ''right'' 1, Proxy ''focusin'', Proxy ''focusout'']"

definition keyboard_calls :: "string \<Rightarrow> art_call list" where
  "keyboard_calls name = [Control_attribute name ''role'' ''button'', Control_attribute name ''tabindex'' ''0'', Listen_keydown name]"

definition create_calls :: "string \<Rightarrow> bool \<Rightarrow> art_call list" where
  "create_calls src hasChat =
     [New_art (player_options src), Class_add ''room-player'', Append_broadcast_host] @
     (if hasChat then chat_calls else []) @
     [Remove_control ''fullscreen''] @
     concat (map keyboard_calls [''room-sync'', ''room-fullscreen'']) @
     [On ''video:error'', On ''control'']"

text \<open>A key on one of the two controls: whether it is handled, which prevents its default and clicks.\<close>

definition control_key :: "string \<Rightarrow> bool" where
  "control_key key \<longleftrightarrow> key = ''Enter'' \<or> key = '' ''"

text \<open>The library shows or hides its toolbar; the toolbar stays while the chat has the focus.\<close>

definition on_control :: "bool \<Rightarrow> bool \<Rightarrow> art_call list" where
  "on_control visible chatFocused =
     (if \<not> visible \<and> chatFocused then [Show_controls] else [Class_toggle ''room-controls-hidden'' (\<not> visible)])"

text \<open>The focus leaves an element of the chat for \<open>inChat\<close>, an element of the chat, or another one.\<close>

definition on_focusout :: "bool \<Rightarrow> art_call list" where
  "on_focusout inChat = (if \<not> inChat then [Show_controls] else [])"

section \<open>The pill\<close>

fun status_class :: "SyncStatus \<Rightarrow> string" where
  "status_class Synced = ''synced''"
| "status_class Correcting = ''correcting''"
| "status_class Local_buffering = ''local-buffering''"
| "status_class Host_buffering = ''host-buffering''"
| "status_class Autoplay_blocked = ''autoplay-blocked''"

definition statusText :: "SyncStatus \<Rightarrow> string" where
  "statusText s =
     (if s = Synced then ''In step''
      else if s = Correcting then ''Correcting smoothly''
      else if s = Local_buffering then ''Network is buffering, corrections are paused''
      else if s = Host_buffering then ''The host is buffering, waiting to go on together''
      else ''The browser blocked automatic playback, click to go on'')"

definition pill_of :: "SyncStatus \<Rightarrow> pill" where
  "pill_of s = \<lparr>pill_class = ''sync-pill '' @ status_class s, pill_text = statusText s, pill_disabled = (s \<noteq> Autoplay_blocked)\<rparr>"

text \<open>The effect of the pill, over the layers the library has.\<close>

definition pill_calls :: "bool \<Rightarrow> SyncStatus \<Rightarrow> bool \<Rightarrow> art_call list" where
  "pill_calls present s visible =
     [Control_attribute ''room-sync'' ''aria-pressed'' (if visible then ''true'' else ''false'')] @
     (if present then [Remove_layer ''room-status''] else []) @
     (if s \<noteq> Autoplay_blocked \<and> \<not> visible then [] else [Add_layer ''room-status'' (pill_of s)])"

section \<open>The component with its controls\<close>

text \<open>The player, the calls made so far, and the dependencies of the last commit.\<close>

record Skin =
  sk_player :: Player
  sk_art :: "art_call list"
  sk_host :: bool
  sk_status :: SyncStatus
  sk_visible :: bool

type_synonym layer = "art_call list \<Rightarrow> string \<Rightarrow> pill option"

definition url_of :: "string option \<Rightarrow> string" where
  "url_of s = (case s of None \<Rightarrow> [] | Some u \<Rightarrow> u)"

definition art_out :: "art_call list \<Rightarrow> Skin \<Rightarrow> Skin" where
  "art_out cs s = s\<lparr>sk_art := sk_art s @ cs\<rparr>"

text \<open>Cleaning up a player and creating the next one.\<close>

definition create_art :: "string option \<Rightarrow> bool \<Rightarrow> Player \<Rightarrow> art_call list" where
  "create_art src hasChat p =
     (if \<not> pl_mounted p \<or> src \<noteq> pl_src p \<or> hasChat \<noteq> pl_hasChat p
      then (if pl_created p then [Destroy_art] else []) @ (if has_src src then create_calls (url_of src) hasChat else [])
      else [])"

definition skin_commit ::
  "layer \<Rightarrow> env \<Rightarrow> Video \<Rightarrow> string option \<Rightarrow> bool \<Rightarrow> (nat \<times> PlaybackState) option \<Rightarrow> bool \<Rightarrow> SyncStatus \<Rightarrow> bool \<Rightarrow> Skin \<Rightarrow> Skin" where
  "skin_commit layer e v src hasChat st host status visible s =
     (let p = sk_player s; p' = player_commit e v src hasChat st p;
          s1 = (art_out (create_art src hasChat p) s)\<lparr>sk_player := p'\<rparr>;
          s2 = (if (\<not> pl_mounted p \<or> host \<noteq> sk_host s \<or> src \<noteq> pl_src p) \<and> pl_created p'
                then art_out [Class_toggle ''room-member'' (\<not> host)] s1 else s1);
          s3 = (if (\<not> pl_mounted p \<or> status \<noteq> sk_status s \<or> visible \<noteq> sk_visible s \<or> src \<noteq> pl_src p) \<and> pl_created p'
                then art_out (pill_calls (layer (sk_art s2) ''room-status'' \<noteq> None) status visible) s2 else s2)
      in s3\<lparr>sk_host := host, sk_status := status, sk_visible := visible\<rparr>)"

definition skin_unmount :: "env \<Rightarrow> Skin \<Rightarrow> Skin" where
  "skin_unmount e s =
     (art_out (if pl_created (sk_player s) then [Destroy_art] else []) s)\<lparr>sk_player := player_unmount e (sk_player s)\<rparr>"

datatype skin_event =
    Skin_commit Video "string option" "(nat \<times> PlaybackState) option" bool SyncStatus bool
  | Skin_unmount
  | Skin_ui ui_op
  | Skin_ctl ctl_event
  | Toolbar bool bool
  | Focus_in
  | Focus_out bool

text \<open>The room gives the player a chat in every render or in none: \<open>hasChat\<close> is fixed.\<close>

fun skin_step :: "layer \<Rightarrow> bool \<Rightarrow> env \<Rightarrow> skin_event \<Rightarrow> Skin \<Rightarrow> Skin" where
  "skin_step layer chat e (Skin_commit v src st host status visible) s = skin_commit layer e v src chat st host status visible s"
| "skin_step layer chat e Skin_unmount s = skin_unmount e s"
| "skin_step layer chat e (Skin_ui op) s = s\<lparr>sk_player := player_step e (Ui op) (sk_player s)\<rparr>"
| "skin_step layer chat e (Skin_ctl ev) s = s\<lparr>sk_player := player_step e (Ctl ev) (sk_player s)\<rparr>"
| "skin_step layer chat e (Toolbar visible focused) s =
     (if pl_created (sk_player s) then art_out (on_control visible focused) s else s)"
| "skin_step layer chat e Focus_in s = (if pl_created (sk_player s) then art_out [Show_controls] s else s)"
| "skin_step layer chat e (Focus_out inChat) s = (if pl_created (sk_player s) then art_out (on_focusout inChat) s else s)"

definition newSkin :: "bool \<Rightarrow> Skin" where
  "newSkin host = \<lparr>sk_player = newPlayer host, sk_art = [], sk_host = host, sk_status = Synced, sk_visible = False\<rparr>"

fun skin_own :: "skin_event \<Rightarrow> bool" where
  "skin_own (Skin_ctl ev) = own_event (Ctl ev)"
| "skin_own _ = True"

inductive skin_trans :: "layer \<Rightarrow> bool \<Rightarrow> Skin \<Rightarrow> env \<times> skin_event \<Rightarrow> Skin \<Rightarrow> bool" for layer and chat where
  skin_trans: "skin_own ev \<Longrightarrow> skin_trans layer chat s (e, ev) (skin_step layer chat e ev s)"

inductive_cases skin_transE: "skin_trans layer chat s l s'"

definition skin_init :: "Skin \<Rightarrow> bool" where
  "skin_init s \<longleftrightarrow> (\<exists>host. s = newSkin host)"

section \<open>What is on the screen\<close>

text \<open>The library's layers: a new player has none, adding and removing go by name, and nothing else that the
  component calls touches them.\<close>

definition layer_laws :: "layer \<Rightarrow> bool" where
  "layer_laws layer \<longleftrightarrow>
     (\<forall>cs n. (\<forall>opts. layer (cs @ [New_art opts]) n = None) \<and>
       (\<forall>m p. layer (cs @ [Add_layer m p]) n = (if m = n then Some p else layer cs n)) \<and>
       (\<forall>m. layer (cs @ [Remove_layer m]) n = (if m = n then None else layer cs n))) \<and>
     (\<forall>cs c n. \<not> (\<exists>opts m p. c = New_art opts \<or> c = Add_layer m p \<or> c = Remove_layer m \<or> c = Destroy_art) \<longrightarrow>
        layer (cs @ [c]) n = layer cs n)"

text \<open>Whether the player's root is marked as a member's.\<close>

fun member_mark :: "bool \<Rightarrow> art_call \<Rightarrow> bool" where
  "member_mark b (New_art opts) = False"
| "member_mark b (Class_toggle n on) = (if n = ''room-member'' then on else b)"
| "member_mark b _ = b"

definition marked_member :: "art_call list \<Rightarrow> bool" where
  "marked_member cs = foldl member_mark False cs"

fun plain_call :: "art_call \<Rightarrow> bool" where
  "plain_call (New_art opts) = False"
| "plain_call (Add_layer n p) = False"
| "plain_call (Remove_layer n) = False"
| "plain_call Destroy_art = False"
| "plain_call (Class_toggle n b) = (n \<noteq> ''room-member'')"
| "plain_call _ = True"

definition wanted_pill :: "SyncStatus \<Rightarrow> bool \<Rightarrow> pill option" where
  "wanted_pill status visible = map_option (\<lambda>enabled. pill_of status) (status_pill status visible)"

definition skin_ok :: "layer \<Rightarrow> bool \<Rightarrow> Skin \<Rightarrow> bool" where
  "skin_ok layer chat s \<longleftrightarrow>
     player_reachable (sk_player s) \<and>
     (pl_created (sk_player s) \<longrightarrow> pl_mounted (sk_player s)) \<and>
     (pl_mounted (sk_player s) \<longrightarrow> pl_hasChat (sk_player s) = chat \<and> pl_created (sk_player s) = has_src (pl_src (sk_player s))) \<and>
     (pl_created (sk_player s) \<longrightarrow>
        layer (sk_art s) ''room-status'' = wanted_pill (sk_status s) (sk_visible s) \<and> marked_member (sk_art s) = (\<not> sk_host s))"

lemma layer_simps:
  assumes "layer_laws layer"
  shows "layer (cs @ [New_art opts]) n = None" "layer (cs @ [Add_layer m p]) n = (if m = n then Some p else layer cs n)"
    "layer (cs @ [Remove_layer m]) n = (if m = n then None else layer cs n)" "layer (cs @ [Class_toggle k b]) n = layer cs n"
    "layer (cs @ [Control_attribute a b' c']) n = layer cs n"
  using assms by (simp_all add: layer_laws_def)

lemma layer_plain: "layer_laws layer \<Longrightarrow> list_all plain_call xs \<Longrightarrow> layer (cs @ xs) n = layer cs n"
proof (induction xs rule: rev_induct)
  case (snoc x xs)
  moreover have "layer (cs' @ [x]) n = layer cs' n" for cs'
    using snoc.prems unfolding layer_laws_def by (cases x) auto
  ultimately show ?case by (simp flip: append_assoc)
qed simp

lemma marked_plain: "list_all plain_call xs \<Longrightarrow> marked_member (cs @ xs) = marked_member cs"
proof (induction xs rule: rev_induct)
  case (snoc x xs)
  then show ?case by (cases x) (simp_all add: marked_member_def)
qed simp

lemma plain_calls:
  "list_all plain_call (tl (create_calls src chat))" "list_all plain_call (on_control b f)" "list_all plain_call (on_focusout b)"
  by (simp_all add: create_calls_def chat_calls_def keyboard_calls_def on_control_def on_focusout_def)

lemma layer_pill:
  assumes "layer_laws layer"
  shows "layer (cs @ pill_calls (layer cs ''room-status'' \<noteq> None) status visible) ''room-status'' = wanted_pill status visible"
proof -
  let ?a = "Control_attribute ''room-sync'' ''aria-pressed'' (if visible then ''true'' else ''false'')"
  have a: "layer (cs @ [?a]) n = layer cs n" for n using layer_simps [OF assms] by simp
  have r: "layer (cs @ [?a, Remove_layer m]) n = (if m = n then None else layer cs n)" for m n
    using layer_simps(3) [OF assms, of "cs @ [?a]"] a by simp
  have "layer (cs @ [?a, Add_layer m p]) n = (if m = n then Some p else layer cs n)"
    "layer (cs @ [?a, Remove_layer k, Add_layer m p]) m = Some p" for k m p n
    using layer_simps(2) [OF assms, of "cs @ [?a]"] layer_simps(2) [OF assms, of "cs @ [?a, Remove_layer k]"] a by simp_all
  then show ?thesis using a r
    by (simp only: pill_calls_def) (auto simp: wanted_pill_def status_pill_def)
qed

lemma marked_pill: "marked_member (cs @ pill_calls b status visible) = marked_member cs"
  by (simp add: marked_member_def pill_calls_def)

lemma player_commit_fields:
  "pl_mounted (player_commit e v src chat st p)" "pl_src (player_commit e v src chat st p) = src"
  "pl_hasChat (player_commit e v src chat st p) = chat"
  "pl_created (player_commit e v src chat st p) =
     (if \<not> pl_mounted p \<or> src \<noteq> pl_src p \<or> chat \<noteq> pl_hasChat p then has_src src else pl_created p)"
  by (simp_all add: player_commit_def state_effect_def create_effect_def create_player_def dispose_player_def
      connectPlayer_def disconnectPlayer_def Let_def split: option.splits)

lemma player_commit_reachable:
  assumes "player_reachable p"
  shows "player_reachable (player_commit e v src chat st p)" "player_reachable (player_unmount e p)"
proof -
  have "player_trans p (e, Commit_player v src chat st) (player_step e (Commit_player v src chat st) p)" by (rule player_trans) simp
  then show "player_reachable (player_commit e v src chat st p)" using reachable_step [OF assms] by simp
  have "player_trans p (e, Unmount_player) (player_step e Unmount_player p)" by (rule player_trans) simp
  then show "player_reachable (player_unmount e p)" using reachable_step [OF assms] by simp
qed

lemma layer_create:
  assumes "layer_laws layer" and "has_src src" and "\<not> pl_mounted p \<or> src \<noteq> pl_src p \<or> chat \<noteq> pl_hasChat p"
  shows "layer (cs @ create_art src chat p) n = None" "\<not> marked_member (cs @ create_art src chat p)"
proof -
  obtain d where d: "create_art src chat p = d @ New_art (player_options (url_of src)) # tl (create_calls (url_of src) chat)"
    using assms(2,3) by (auto simp: create_art_def create_calls_def)
  have "layer (cs @ create_art src chat p) n = layer ((cs @ d) @ [New_art (player_options (url_of src))]) n"
    using layer_plain [OF assms(1) plain_calls(1), of "(cs @ d) @ [New_art (player_options (url_of src))]"] by (simp add: d)
  then show "layer (cs @ create_art src chat p) n = None" by (simp only: layer_simps(1) [OF assms(1)])
  have "marked_member (cs @ create_art src chat p) = marked_member ((cs @ d) @ [New_art (player_options (url_of src))])"
    using marked_plain [OF plain_calls(1), of "(cs @ d) @ [New_art (player_options (url_of src))]"] by (simp add: d)
  then show "\<not> marked_member (cs @ create_art src chat p)" by (simp add: marked_member_def)
qed

lemma skin_ok_commit:
  assumes laws: "layer_laws layer" and ok: "skin_ok layer chat s"
  shows "skin_ok layer chat (skin_commit layer e v src chat st host status visible s)"
proof -
  let ?p = "sk_player s" and ?p' = "player_commit e v src chat st (sk_player s)"
  let ?cs = "sk_art s @ create_art src chat ?p"
  let ?fresh = "\<not> pl_mounted ?p \<or> src \<noteq> pl_src ?p"
  have created: "pl_created ?p' = has_src src"
    using ok by (auto simp: player_commit_fields skin_ok_def)
  define cs2 where "cs2 = (if ?fresh \<or> host \<noteq> sk_host s then ?cs @ [Class_toggle ''room-member'' (\<not> host)] else ?cs)"
  define cs3 where "cs3 = (if ?fresh \<or> status \<noteq> sk_status s \<or> visible \<noteq> sk_visible s
     then cs2 @ pill_calls (layer cs2 ''room-status'' \<noteq> None) status visible else cs2)"
  have art: "sk_art (skin_commit layer e v src chat st host status visible s) = cs3" if "has_src src"
  proof -
    define p' where "p' = ?p'"
    have "pl_created p'" using that created by (simp add: p'_def)
    then show ?thesis unfolding skin_commit_def Let_def art_out_def p'_def [symmetric] cs3_def cs2_def
      by (cases ?fresh; cases "host = sk_host s"; cases "status = sk_status s \<and> visible = sk_visible s") auto
  qed
  have same: "?cs = sk_art s" if "\<not> ?fresh" using that ok by (auto simp: create_art_def skin_ok_def)
  have old: "pl_created ?p" if "\<not> ?fresh" "has_src src" using that ok by (auto simp: skin_ok_def)
  have layer2: "layer cs2 ''room-status'' = layer ?cs ''room-status''"
    by (simp add: cs2_def layer_simps(4) [OF laws, of ?cs, simplified])
  have "layer cs3 ''room-status'' = wanted_pill status visible" if "has_src src"
  proof (cases "?fresh \<or> status \<noteq> sk_status s \<or> visible \<noteq> sk_visible s")
    case True
    then show ?thesis using layer_pill [OF laws] by (simp only: cs3_def if_True)
  next
    case False
    then show ?thesis using layer2 same old that ok by (auto simp: cs3_def skin_ok_def)
  qed
  moreover have "marked_member cs3 = (\<not> host)" if "has_src src"
  proof -
    have "marked_member cs3 = marked_member cs2" by (simp add: cs3_def marked_pill)
    moreover have "marked_member cs2 = (\<not> host)"
    proof (cases "?fresh \<or> host \<noteq> sk_host s")
      case True
      then show ?thesis by (simp only: cs2_def if_True) (simp add: marked_member_def)
    next
      case False
      then show ?thesis using same old that ok by (simp add: cs2_def skin_ok_def)
    qed
    ultimately show ?thesis by simp
  qed
  moreover have "sk_player (skin_commit layer e v src chat st host status visible s) = ?p'"
    "sk_host (skin_commit layer e v src chat st host status visible s) = host"
    "sk_status (skin_commit layer e v src chat st host status visible s) = status"
    "sk_visible (skin_commit layer e v src chat st host status visible s) = visible"
    by (simp_all add: skin_commit_def art_out_def Let_def)
  ultimately show ?thesis using ok created art
    by (auto simp: skin_ok_def player_commit_fields player_commit_reachable)
qed

lemma skin_ok_plain:
  assumes "layer_laws layer" and "skin_ok layer chat s" and "list_all plain_call cs"
  shows "skin_ok layer chat (art_out cs s)"
  using assms(2) layer_plain [OF assms(1,3)] marked_plain [OF assms(3)] by (simp add: skin_ok_def art_out_def)

lemma skin_ok_player:
  assumes "skin_ok layer chat s" and "own_event ev" and "\<forall>v src c st. ev \<noteq> Commit_player v src c st" and "ev \<noteq> Unmount_player"
  shows "skin_ok layer chat (s\<lparr>sk_player := player_step e ev (sk_player s)\<rparr>)"
proof -
  have "player_reachable (player_step e ev (sk_player s))"
    using assms(1,2) by (auto simp: skin_ok_def intro: reachable_step player_trans)
  then show ?thesis using assms by (cases ev) (auto simp: skin_ok_def ui_write_def)
qed

interpretation skin_inv: invariant_system skin_init "skin_trans layer chat" "\<lambda>s. layer_laws layer \<longrightarrow> skin_ok layer chat s"
  for layer chat
proof unfold_locales
  show "layer_laws layer \<longrightarrow> skin_ok layer chat s" if "skin_init s" for s
  proof -
    have "player_reachable (newPlayer host)" for host by (rule reachable_init) (auto simp: player_init_def)
    then show ?thesis using that by (auto simp: skin_init_def newSkin_def skin_ok_def) (auto simp: newPlayer_def)
  qed
  show "layer_laws layer \<longrightarrow> skin_ok layer chat s'" if that_ok: "layer_laws layer \<longrightarrow> skin_ok layer chat s" and tr: "skin_trans layer chat s l s'" for s l s'
  proof -
    obtain ev e where 1: "skin_own ev" "s' = skin_step layer chat e ev s" using tr by (auto elim: skin_transE)
    show ?thesis
    proof
      assume laws: "layer_laws layer"
      with that_ok have ok: "skin_ok layer chat s" by simp
      show "skin_ok layer chat s'"
      proof (cases ev)
        case Skin_unmount
        have "\<not> pl_created (player_unmount e (sk_player s))"
          by (simp add: player_unmount_def dispose_player_def disconnectPlayer_def Let_def)
        then show ?thesis using ok 1 Skin_unmount
          by (simp add: skin_unmount_def skin_ok_def art_out_def player_commit_reachable) (simp add: player_unmount_def)
      qed (use ok 1 laws in \<open>simp_all add: skin_ok_commit skin_ok_player skin_ok_plain plain_calls del: player_step.simps\<close>)
    qed
  qed
qed

text \<open>
  The player always shows the room's synchronisation as it is: whatever was rendered, clicked and
  delivered, while a player exists its status pill is the one of the last status and preference, with its
  text, there exactly if playback is blocked or the user wants to see it, and clickable exactly if it is
  blocked; and the player is marked as a member's exactly if the user is not the host. A new film, another
  host or another status never leaves an old pill or mark behind.
\<close>

theorem pill_follows:
  assumes "layer_laws layer" and "reachable skin_init (skin_trans layer chat) s" and "pl_created (sk_player s)"
  shows "layer (sk_art s) ''room-status'' =
           (if sk_status s = Autoplay_blocked \<or> sk_visible s
            then Some \<lparr>pill_class = ''sync-pill '' @ status_class (sk_status s), pill_text = statusText (sk_status s),
                       pill_disabled = (sk_status s \<noteq> Autoplay_blocked)\<rparr>
            else None) \<and>
         marked_member (sk_art s) = (\<not> sk_host s)"
  using skin_inv.inv_reachable [OF assms(2)] assms(1,3)
  by (auto simp: skin_ok_def wanted_pill_def status_pill_def pill_of_def)

text \<open>The library with its layers as a table of names.\<close>

fun layer_table :: "(string \<rightharpoonup> pill) \<Rightarrow> art_call \<Rightarrow> (string \<rightharpoonup> pill)" where
  "layer_table t (New_art opts) = Map.empty"
| "layer_table t (Add_layer n p) = t(n \<mapsto> p)"
| "layer_table t (Remove_layer n) = t(n := None)"
| "layer_table t _ = t"

definition table_layer :: layer where
  "table_layer cs = foldl layer_table Map.empty cs"

lemma table_layer_laws: "layer_laws table_layer"
proof -
  have "table_layer (cs @ [c]) n = table_layer cs n"
    if "\<not> (\<exists>opts m p. c = New_art opts \<or> c = Add_layer m p \<or> c = Remove_layer m \<or> c = Destroy_art)" for cs c n
    using that by (cases c) (auto simp: table_layer_def)
  then show ?thesis by (auto simp: layer_laws_def) (auto simp: table_layer_def)
qed

definition demo_skin :: Skin where
  "demo_skin = skin_step table_layer True (demo_env 1) (Skin_commit demo_video (Some ''u'') None False Autoplay_blocked False)
     (skin_step table_layer True (demo_env 0) (Skin_commit demo_video (Some ''u'') None False Synced False) (newSkin False))"

theorem pill_follows_witness:
  "map_option pill_disabled (table_layer (sk_art demo_skin) ''room-status'') = Some False \<and> marked_member (sk_art demo_skin)"
proof -
  let ?tr = "skin_trans table_layer True"
  have "reachable skin_init ?tr (newSkin False)" by (rule reachable_init) (auto simp: skin_init_def)
  moreover have step: "?tr s (e, Skin_commit v src st h x b) (skin_step table_layer True e (Skin_commit v src st h x b) s)"
    for s e v src st h x b by (rule skin_trans) simp
  ultimately have r: "reachable skin_init ?tr demo_skin"
    unfolding demo_skin_def by (blast intro: reachable_step)
  have c: "pl_created (sk_player demo_skin)" "sk_status demo_skin = Autoplay_blocked" "\<not> sk_host demo_skin" by code_simp+
  show ?thesis using pill_follows [OF table_layer_laws r c(1)] c(2,3) by simp
qed

end
