(* ===== verification/AdminPage.thy ===== *)
theory AdminPage
  imports Types
begin

text \<open>
  The administration page, \<open>web/src/pages/AdminPage.tsx\<close>: the effect that loads the statistics and a
  page of the selected resources, the correction of a page number beyond the end, confirmed actions on
  a resource, the upload and the editor. A run of the load effect is an instance with a number; its
  abort controller is aborted when a later instance starts or the effect is cleaned up. Answers arrive
  in any order. The markup is not modelled; debouncing the search is an event of its own.
\<close>

section \<open>Data\<close>

record User =
  us_id :: string
  us_username :: string
  us_nickname :: string
  us_role :: user_role
  us_disabled :: bool
  us_createdAtMs :: rat
  roomCount :: "rat option"
  mediaCount :: "rat option"

record ManagedRoom = Room +
  mr_ownerName :: string

record ManagedMedia = Media +
  mm_ownerName :: string
  ownerUserId :: string
  mm_createdAtMs :: rat

datatype Resource = Res_user User | Res_room ManagedRoom | Res_media ManagedMedia

record PageData =
  items :: "Resource list"
  pd_total :: nat
  pd_page :: nat
  perPage :: nat

record Stats =
  st_users :: nat
  st_disabledUsers :: nat
  st_rooms :: nat
  st_openRooms :: nat
  st_media :: nat
  st_storageBytes :: nat

datatype Section = Overview | Users | Rooms | Medias

record Editor =
  ed_kind :: Section
  ed_item :: "Resource option"

definition sections :: "(string \<times> Section) list" where
  "sections = [(''overview'', Overview), (''users'', Users), (''rooms'', Rooms), (''media'', Medias)]"

definition section_of :: "string option \<Rightarrow> Section" where
  "section_of param =
     (case Option.bind param (map_of sections) of None \<Rightarrow> Overview | Some s \<Rightarrow> s)"

fun kind_of :: "Resource \<Rightarrow> Section" where
  "kind_of (Res_user u) = Users"
| "kind_of (Res_room r) = Rooms"
| "kind_of (Res_media m) = Medias"

fun item_id :: "Resource \<Rightarrow> string" where
  "item_id (Res_user u) = us_id u"
| "item_id (Res_room r) = rm_id r"
| "item_id (Res_media m) = md_id m"

text \<open>What a load is for; the two requests of a load, each of an instance.\<close>

record query =
  q_section :: Section
  q_search :: string
  q_page :: nat

datatype load_request = Ask_stats nat query | Ask_page nat query

datatype success = No_success | Action_done | Upload_done | Saved

datatype admin_request =
    Act string string
  | Upload_file
  | Save Section "string option"
  | Refresh_self

text \<open>\<open>am_deps\<close> are the dependencies of the last commit (of the load effect, and the section of the
  reset effect); \<open>am_dataFor\<close> records which query the data shown answers.\<close>

record Admin =
  am_allowed :: bool
  am_section :: Section
  am_queryText :: string
  am_search :: string
  am_page :: nat
  am_revision :: nat
  am_stats :: "Stats option"
  am_data :: PageData
  am_busy :: bool
  am_acting :: bool
  am_error :: "string option"
  am_loadError :: "string option"
  am_success :: success
  am_editor :: "Editor option"
  am_editorError :: "string option"
  am_upload :: bool
  am_uploadProgress :: string
  am_deps :: "(bool \<times> query \<times> nat) option"
  am_instance :: nat
  am_asked :: "load_request list"
  am_dataFor :: "query option"
  am_out :: "admin_request list"

definition newAdmin :: Admin where
  "newAdmin = \<lparr>am_allowed = False, am_section = Overview, am_queryText = [], am_search = [], am_page = 1, am_revision = 0,
     am_stats = None, am_data = \<lparr>items = [], pd_total = 0, pd_page = 1, perPage = 20\<rparr>, am_busy = False, am_acting = False,
     am_error = None, am_loadError = None, am_success = No_success, am_editor = None, am_editorError = None, am_upload = False,
     am_uploadProgress = [], am_deps = None, am_instance = 0, am_asked = [], am_dataFor = None, am_out = []\<rparr>"

section \<open>Loading\<close>

definition query_of :: "Admin \<Rightarrow> query" where
  "query_of a = \<lparr>q_section = am_section a, q_search = am_search a, q_page = am_page a\<rparr>"

definition deps_of_admin :: "Admin \<Rightarrow> bool \<times> query \<times> nat" where
  "deps_of_admin a = (am_allowed a, query_of a, am_revision a)"

definition reload :: "Admin \<Rightarrow> Admin" where
  "reload a = a\<lparr>am_revision := Suc (am_revision a)\<rparr>"

text \<open>The effect on the section.\<close>

definition section_effect :: "Admin \<Rightarrow> Admin" where
  "section_effect a = a\<lparr>am_page := 1, am_queryText := [], am_error := None, am_success := No_success\<rparr>"

text \<open>The load effect with its cleanup: the instance before is aborted; \<open>r\<close> is the render.\<close>

definition admin_load_effect :: "Admin \<Rightarrow> Admin \<Rightarrow> Admin" where
  "admin_load_effect r a =
     (let a1 = a\<lparr>am_instance := Suc (am_instance a)\<rparr>
      in if \<not> am_allowed r then a1
         else a1\<lparr>am_busy := True, am_loadError := None,
                 am_asked := am_asked a1 @ [Ask_stats (am_instance a1) (query_of r)]\<rparr>)"

definition admin_commit :: "Admin \<Rightarrow> Admin" where
  "admin_commit r =
     (let a1 = (if map_option (\<lambda>d. q_section (fst (snd d))) (am_deps r) \<noteq> Some (am_section r) then section_effect r else r);
          a2 = (if am_deps r \<noteq> Some (deps_of_admin r) then admin_load_effect r a1 else a1)
      in a2\<lparr>am_deps := Some (deps_of_admin r)\<rparr>)"

text \<open>The end of a load: \<open>catch\<close> and \<open>finally\<close>, which do nothing once aborted.\<close>

definition load_failed :: "nat \<Rightarrow> string \<Rightarrow> Admin \<Rightarrow> Admin" where
  "load_failed i msg a = (if i = am_instance a then a\<lparr>am_loadError := Some msg, am_busy := False\<rparr> else a)"

definition load_done :: "nat \<Rightarrow> Admin \<Rightarrow> Admin" where
  "load_done i a = (if i = am_instance a then a\<lparr>am_busy := False\<rparr> else a)"

definition stats_answer :: "nat \<Rightarrow> query \<Rightarrow> string + Stats \<Rightarrow> Admin \<Rightarrow> Admin" where
  "stats_answer i q answer a =
     (if Ask_stats i q \<notin> set (am_asked a) then a
      else
        let a0 = a\<lparr>am_asked := remove1 (Ask_stats i q) (am_asked a)\<rparr> in
        case answer of
          Inl msg \<Rightarrow> load_failed i msg a0
        | Inr s \<Rightarrow>
            if i \<noteq> am_instance a0 then a0
            else
              let a1 = a0\<lparr>am_stats := Some s\<rparr>
              in if q_section q \<noteq> Overview then a1\<lparr>am_asked := am_asked a1 @ [Ask_page i q]\<rparr> else load_done i a1)"

definition last_page :: "PageData \<Rightarrow> nat" where
  "last_page d = nat \<lceil>of_nat (pd_total d) / (of_nat (perPage d) :: rat)\<rceil>"

definition page_answer :: "nat \<Rightarrow> query \<Rightarrow> string + PageData \<Rightarrow> Admin \<Rightarrow> Admin" where
  "page_answer i q answer a =
     (if Ask_page i q \<notin> set (am_asked a) then a
      else
        let a0 = a\<lparr>am_asked := remove1 (Ask_page i q) (am_asked a)\<rparr> in
        case answer of
          Inl msg \<Rightarrow> load_failed i msg a0
        | Inr d \<Rightarrow>
            let a1 = (if i \<noteq> am_instance a0 then a0
                      else if items d = [] \<and> q_page q > 1 \<and> pd_total d > 0 then a0\<lparr>am_page := last_page d\<rparr>
                      else a0\<lparr>am_data := d, am_dataFor := Some q\<rparr>)
            in load_done i a1)"

section \<open>Actions\<close>

text \<open>A confirmed action on a resource; \<open>acting\<close> is the value of the render the button was in.\<close>

definition action :: "bool \<Rightarrow> bool \<Rightarrow> string \<Rightarrow> string \<Rightarrow> Admin \<Rightarrow> Admin" where
  "action acting confirmed path meth a =
     (if acting \<or> \<not> confirmed then a
      else a\<lparr>am_acting := True, am_error := None, am_success := No_success, am_out := am_out a @ [Act path meth]\<rparr>)"

definition action_answer :: "string option \<Rightarrow> Admin \<Rightarrow> Admin" where
  "action_answer answer a =
     (let a1 = (case answer of None \<Rightarrow> a\<lparr>am_success := Action_done\<rparr> | Some msg \<Rightarrow> a\<lparr>am_error := Some msg\<rparr>)
      in reload (a1\<lparr>am_acting := False\<rparr>))"

definition beginUpload :: "bool \<Rightarrow> Admin \<Rightarrow> Admin" where
  "beginUpload file a =
     (if \<not> file \<or> am_upload a then a
      else a\<lparr>am_upload := True, am_error := None, am_success := No_success, am_out := am_out a @ [Upload_file]\<rparr>)"

definition upload_settled :: "string option \<Rightarrow> Admin \<Rightarrow> Admin" where
  "upload_settled answer a =
     (if \<not> am_upload a then a
      else
        let a1 = (case answer of None \<Rightarrow> a\<lparr>am_success := Upload_done\<rparr> | Some msg \<Rightarrow> a\<lparr>am_error := Some msg\<rparr>)
        in reload (a1\<lparr>am_upload := False, am_uploadProgress := []\<rparr>))"

text \<open>The buttons of a row: what they would request for an item shown in a section.\<close>

fun section_path :: "Section \<Rightarrow> string" where
  "section_path Overview = ''overview''"
| "section_path Users = ''users''"
| "section_path Rooms = ''rooms''"
| "section_path Medias = ''media''"

definition delete_path :: "Section \<Rightarrow> Resource \<Rightarrow> string" where
  "delete_path s item = ''/api/v1/admin/'' @ section_path s @ ''/'' @ item_id item"

text \<open>The editor: submitting, and what saving does (\<open>onSaved\<close>; the flag is whether the administrator's
  own account was edited, which refreshes the identity).\<close>

definition submit :: "bool \<Rightarrow> Admin \<Rightarrow> Admin" where
  "submit busy a =
     (case am_editor a of
        None \<Rightarrow> a
      | Some ed \<Rightarrow>
          if busy then a
          else a\<lparr>am_acting := True, am_editorError := None, am_out := am_out a @ [Save (ed_kind ed) (map_option item_id (ed_item ed))]\<rparr>)"

definition submit_answer :: "bool \<Rightarrow> string option \<Rightarrow> Admin \<Rightarrow> Admin" where
  "submit_answer own answer a =
     (let a1 = (case answer of
                  None \<Rightarrow> reload (a\<lparr>am_editor := None, am_success := Saved,
                                   am_out := am_out a @ (if own then [Refresh_self] else [])\<rparr>)
                | Some msg \<Rightarrow> a\<lparr>am_editorError := Some msg\<rparr>)
      in a1\<lparr>am_acting := False\<rparr>)"

section \<open>The life of the page\<close>

datatype admin_event =
    Admin_commit
  | Permit bool
  | Select_section Section
  | Nav_click Section
  | Type_query string
  | Debounced
  | Turn_page nat
  | Refresh_click
  | Stats_answer nat query "string + Stats"
  | Page_answer nat query "string + PageData"
  | Action_click bool bool string string
  | Action_answer "string option"
  | Pick_file bool
  | Upload_settled "string option"
  | Edit "Editor option"
  | Submit bool
  | Submit_answer bool "string option"
  | Upload_progress string
  | Dismiss

fun admin_step :: "admin_event \<Rightarrow> Admin \<Rightarrow> Admin" where
  "admin_step Admin_commit a = admin_commit a"
| "admin_step (Permit b) a = a\<lparr>am_allowed := b\<rparr>"
| "admin_step (Select_section s) a = a\<lparr>am_section := s\<rparr>"
| "admin_step (Nav_click s) a = a\<lparr>am_page := 1, am_section := s\<rparr>"
| "admin_step (Type_query t) a = a\<lparr>am_queryText := t, am_page := 1\<rparr>"
| "admin_step Debounced a = a\<lparr>am_search := am_queryText a\<rparr>"
| "admin_step (Turn_page n) a = a\<lparr>am_page := n\<rparr>"
| "admin_step Refresh_click a = reload a"
| "admin_step (Stats_answer i q r) a = stats_answer i q r a"
| "admin_step (Page_answer i q r) a = page_answer i q r a"
| "admin_step (Action_click acting b p m) a = action acting b p m a"
| "admin_step (Action_answer r) a = action_answer r a"
| "admin_step (Pick_file b) a = beginUpload b a"
| "admin_step (Upload_settled r) a = upload_settled r a"
| "admin_step (Edit ed) a = a\<lparr>am_editor := ed, am_editorError := None\<rparr>"
| "admin_step (Submit b) a = submit b a"
| "admin_step (Submit_answer own r) a = submit_answer own r a"
| "admin_step (Upload_progress t) a = a\<lparr>am_uploadProgress := t\<rparr>"
| "admin_step Dismiss a = a\<lparr>am_success := No_success\<rparr>"


text \<open>React renders and commits until the effects change nothing more, before the next event is handled;
  the effects here change state at most once, so two commits are enough.\<close>

definition commits :: "Admin \<Rightarrow> Admin" where
  "commits a = admin_commit (admin_commit a)"

text \<open>The server's pages: one that is empty although there are resources lies beyond the end.\<close>

fun honest_answer :: "admin_event \<Rightarrow> bool" where
  "honest_answer (Page_answer i q (Inr d)) = (items d = [] \<longrightarrow> pd_total d \<le> (q_page q - 1) * perPage d)"
| "honest_answer ev = True"

inductive admin_trans :: "Admin \<Rightarrow> admin_event \<Rightarrow> Admin \<Rightarrow> bool" where
  admin_trans: "honest_answer ev \<Longrightarrow> admin_trans a ev (commits (admin_step ev a))"

inductive_cases admin_transE: "admin_trans a ev a'"

definition admin_init :: "Admin \<Rightarrow> bool" where
  "admin_init a \<longleftrightarrow> a = commits newAdmin"

abbreviation admin_reachable :: "Admin \<Rightarrow> bool" where
  "admin_reachable \<equiv> reachable admin_init admin_trans"

section \<open>What is shown is what was asked for\<close>

fun instance_of :: "load_request \<Rightarrow> nat" where
  "instance_of (Ask_stats i q) = i"
| "instance_of (Ask_page i q) = i"

definition under_way :: "Admin \<Rightarrow> load_request list" where
  "under_way a = filter (\<lambda>x. instance_of x = am_instance a) (am_asked a)"

definition numbered :: "Admin \<Rightarrow> bool" where
  "numbered a \<longleftrightarrow> (\<forall>x \<in> set (am_asked a). instance_of x \<le> am_instance a)"

definition loaded :: "Admin \<Rightarrow> bool" where
  "loaded a \<longleftrightarrow> \<not> am_busy a \<and> (am_loadError a \<noteq> None \<or> am_section a = Overview \<or> am_dataFor a = Some (query_of a))"

definition load_ok :: "Admin \<Rightarrow> bool" where
  "load_ok a \<longleftrightarrow>
     (if \<not> am_allowed a then under_way a = []
      else under_way a = [] \<and> loaded a \<or>
           am_busy a \<and> (under_way a = [Ask_stats (am_instance a) (query_of a)] \<or>
             under_way a = [Ask_page (am_instance a) (query_of a)] \<and> am_section a \<noteq> Overview))"

definition admin_ok :: "Admin \<Rightarrow> bool" where
  "admin_ok a \<longleftrightarrow> am_deps a = Some (deps_of_admin a) \<and> numbered a \<and> load_ok a"

lemmas admin_defs = admin_ok_def load_ok_def loaded_def numbered_def under_way_def query_of_def deps_of_admin_def

lemma commit_same: "am_deps a = Some (deps_of_admin a) \<Longrightarrow> admin_commit a = a"
  by (simp add: admin_commit_def deps_of_admin_def query_of_def)

lemma numbered_fresh: "numbered a \<Longrightarrow> filter (\<lambda>x. instance_of x = Suc (am_instance a)) (am_asked a) = []"
  by (auto simp: numbered_def filter_empty_conv)

text \<open>After a change of the dependencies a fresh instance is under way.\<close>

lemma commit_fields:
  assumes "am_deps a \<noteq> Some (deps_of_admin a)"
  shows "am_deps (admin_commit a) = Some (deps_of_admin a)" "am_instance (admin_commit a) = Suc (am_instance a)"
    "am_asked (admin_commit a) = am_asked a @ (if am_allowed a then [Ask_stats (Suc (am_instance a)) (query_of a)] else [])"
    "am_allowed a \<Longrightarrow> am_busy (admin_commit a)" "am_allowed (admin_commit a) = am_allowed a"
    "am_section (admin_commit a) = am_section a" "am_search (admin_commit a) = am_search a"
proof -
  define a1 where "a1 = (if map_option (\<lambda>d. q_section (fst (snd d))) (am_deps a) \<noteq> Some (am_section a) then section_effect a else a)"
  then have a1: "a1 = a \<or> a1 = section_effect a" by (rule ssubst) simp
  have c: "admin_commit a = (admin_load_effect a a1)\<lparr>am_deps := Some (deps_of_admin a)\<rparr>"
    using assms unfolding admin_commit_def Let_def a1_def by simp
  have f: "am_instance a1 = am_instance a" "am_asked a1 = am_asked a" "am_allowed a1 = am_allowed a"
    "am_section a1 = am_section a" "am_search a1 = am_search a"
    using a1 by (auto simp: section_effect_def)
  show "am_deps (admin_commit a) = Some (deps_of_admin a)" "am_instance (admin_commit a) = Suc (am_instance a)"
    "am_asked (admin_commit a) = am_asked a @ (if am_allowed a then [Ask_stats (Suc (am_instance a)) (query_of a)] else [])"
    "am_allowed a \<Longrightarrow> am_busy (admin_commit a)" "am_allowed (admin_commit a) = am_allowed a"
    "am_section (admin_commit a) = am_section a" "am_search (admin_commit a) = am_search a"
    by (simp_all add: c admin_load_effect_def f Let_def)
qed

lemma commit_changed_ok:
  assumes "numbered a" and "am_deps a \<noteq> Some (deps_of_admin a)"
  shows "numbered (admin_commit a)" and "am_deps (admin_commit a) = Some (deps_of_admin (admin_commit a)) \<Longrightarrow> admin_ok (admin_commit a)"
proof -
  note f = commit_fields [OF assms(2)]
  show num: "numbered (admin_commit a)"
    using assms(1) by (auto simp: numbered_def f)
  assume committed: "am_deps (admin_commit a) = Some (deps_of_admin (admin_commit a))"
  then have q: "query_of (admin_commit a) = query_of a" by (simp add: f deps_of_admin_def)
  have "load_ok (admin_commit a)"
    using numbered_fresh [OF assms(1)] f(4) by (simp add: load_ok_def under_way_def f q)
  then show "admin_ok (admin_commit a)" using num committed by (simp add: admin_ok_def)
qed

lemma commits_ok:
  assumes "numbered a" and "am_deps a \<noteq> Some (deps_of_admin a)"
  shows "admin_ok (commits a)"
proof -
  let ?b = "admin_commit a"
  note b = commit_changed_ok [OF assms]
  show ?thesis
  proof (cases "am_deps ?b = Some (deps_of_admin ?b)")
    case True
    then show ?thesis using b(2) commit_same by (simp add: commits_def)
  next
    case False
    have "map_option (\<lambda>d. q_section (fst (snd d))) (am_deps ?b) = Some (am_section ?b)"
      using commit_fields [OF assms(2)] by (simp add: deps_of_admin_def query_of_def)
    then have "am_deps (admin_commit ?b) = Some (deps_of_admin (admin_commit ?b))"
      by (simp add: admin_commit_def admin_load_effect_def deps_of_admin_def query_of_def Let_def)
    then show ?thesis using commit_changed_ok(2) [OF b(1) False] by (simp add: commits_def)
  qed
qed


lemma last_page_bounds:
  assumes "0 < pd_total d" and "pd_total d \<le> (n - 1) * perPage d"
  shows "0 < last_page d" and "last_page d < n" and "(last_page d - 1) * perPage d < pd_total d"
proof -
  have pp: "0 < perPage d" using assms by (cases "perPage d") auto
  let ?x = "of_nat (pd_total d) / (of_nat (perPage d) :: rat)"
  have pos: "0 < ?x" using assms(1) pp by simp
  then have l: "of_nat (last_page d) = (of_int \<lceil>?x\<rceil> :: rat)" by (simp add: last_page_def)
  show z: "0 < last_page d" using pos by (simp add: last_page_def)
  have "?x \<le> of_nat (n - 1)" using assms(2) pp by (simp add: divide_le_eq) (metis of_nat_le_iff of_nat_mult)
  then have "\<lceil>?x\<rceil> \<le> int (n - 1)" by (simp add: ceiling_le_iff)
  then have "last_page d \<le> n - 1" by (simp add: last_page_def)
  moreover have "0 < n" using assms by (cases n) auto
  ultimately show "last_page d < n" by linarith
  have "(of_int \<lceil>?x\<rceil> :: rat) < ?x + 1" by linarith
  then have "of_nat (last_page d) - 1 < ?x" using l by simp
  then have "(of_nat (last_page d) - 1) * of_nat (perPage d) < (of_nat (pd_total d) :: rat)" using pp by (simp add: less_divide_eq)
  then have "(of_nat ((last_page d - 1) * perPage d) :: rat) < of_nat (pd_total d)" using z by (simp add: of_nat_diff)
  then show "(last_page d - 1) * perPage d < pd_total d" by (simp only: of_nat_less_iff)
qed

lemmas last_page_before = last_page_bounds(2)

text \<open>Steps that leave the load alone.\<close>

definition same_load :: "Admin \<Rightarrow> Admin \<Rightarrow> bool" where
  "same_load a b \<longleftrightarrow> am_deps b = am_deps a \<and> am_asked b = am_asked a \<and> am_instance b = am_instance a \<and>
     am_busy b = am_busy a \<and> am_loadError b = am_loadError a \<and> am_dataFor b = am_dataFor a"

lemma same_load_ok:
  assumes "admin_ok a" and "same_load a b"
  shows "admin_ok (commits b)"
proof (cases "am_deps b = Some (deps_of_admin b)")
  case True
  then have "deps_of_admin b = deps_of_admin a" using assms by (simp add: same_load_def admin_ok_def)
  then have "admin_ok b" using assms True by (cases "am_allowed a") (auto simp: same_load_def admin_defs)
  then show ?thesis using commit_same True by (simp add: commits_def)
next
  case False
  moreover have "numbered b" using assms by (simp add: same_load_def admin_ok_def numbered_def)
  ultimately show ?thesis by (intro commits_ok)
qed

text \<open>An answer to a request of an instance that is over changes nothing but the list.\<close>

lemma late_answer_ok:
  assumes "admin_ok a" and "instance_of x \<noteq> am_instance a"
  shows "admin_ok (a\<lparr>am_asked := remove1 x (am_asked a)\<rparr>)"
proof -
  have "filter (\<lambda>y. instance_of y = am_instance a) (remove1 x (am_asked a)) = filter (\<lambda>y. instance_of y = am_instance a) (am_asked a)"
    using assms(2) by (simp add: filter_remove1 remove1_idem)
  moreover have "numbered (a\<lparr>am_asked := remove1 x (am_asked a)\<rparr>)"
    using assms(1) notin_set_remove1 by (fastforce simp: admin_ok_def numbered_def)
  ultimately show ?thesis using assms(1)
    by (cases "am_allowed a") (auto simp: admin_ok_def load_ok_def loaded_def under_way_def query_of_def deps_of_admin_def)
qed

text \<open>The request of the current instance that is answered was the only one.\<close>

lemma current_answer:
  assumes "admin_ok a" and "x \<in> set (am_asked a)" and "instance_of x = am_instance a"
  shows "filter (\<lambda>y. instance_of y = am_instance a) (remove1 x (am_asked a)) = []" and "am_allowed a" and "am_busy a"
    and "x = Ask_stats (am_instance a) (query_of a) \<or> x = Ask_page (am_instance a) (query_of a) \<and> am_section a \<noteq> Overview"
    and "numbered (a\<lparr>am_asked := remove1 x (am_asked a)\<rparr>)"
proof -
  have x: "x \<in> set (under_way a)" using assms(2,3) by (simp add: under_way_def)
  then have w: "am_allowed a \<and> am_busy a \<and> under_way a = [x] \<and>
    (x = Ask_stats (am_instance a) (query_of a) \<or> x = Ask_page (am_instance a) (query_of a) \<and> am_section a \<noteq> Overview)"
    using assms(1) by (auto simp: admin_ok_def load_ok_def split: if_splits)
  then show "am_allowed a" "am_busy a"
    "x = Ask_stats (am_instance a) (query_of a) \<or> x = Ask_page (am_instance a) (query_of a) \<and> am_section a \<noteq> Overview"
    by blast+
  show "filter (\<lambda>y. instance_of y = am_instance a) (remove1 x (am_asked a)) = []"
    using w by (simp add: filter_remove1 [symmetric] under_way_def) (simp add: filter_remove1)
  show "numbered (a\<lparr>am_asked := remove1 x (am_asked a)\<rparr>)"
    using assms(1) notin_set_remove1 by (fastforce simp: admin_ok_def numbered_def)
qed

lemma commits_same: "admin_ok a \<Longrightarrow> commits a = a"
  by (simp add: commits_def commit_same admin_ok_def)

lemma stats_answer_ok:
  assumes "admin_ok a"
  shows "admin_ok (commits (stats_answer i q r a))"
proof (cases "Ask_stats i q \<in> set (am_asked a)")
  case True
  show ?thesis
  proof (cases "i = am_instance a")
    case False
    then have "stats_answer i q r a = a\<lparr>am_asked := remove1 (Ask_stats i q) (am_asked a)\<rparr>"
      using True by (simp add: stats_answer_def load_failed_def Let_def split: sum.splits)
    then show ?thesis using late_answer_ok [OF assms, of "Ask_stats i q"] False commits_same by simp
  next
    case now: True
    note c = current_answer [OF assms True]
    have q: "q = query_of a" using c(4) now by simp
    have "admin_ok (stats_answer i q r a)"
      using c(1,2,3,5) now True assms
      by (auto simp: stats_answer_def load_failed_def load_done_def Let_def admin_defs q split: sum.splits)
    then show ?thesis using commits_same by simp
  qed
qed (simp add: stats_answer_def assms commits_same)

lemma page_answer_ok:
  assumes "admin_ok a" and "honest_answer (Page_answer i q r)"
  shows "admin_ok (commits (page_answer i q r a))"
proof (cases "Ask_page i q \<in> set (am_asked a)")
  case True
  show ?thesis
  proof (cases "i = am_instance a")
    case False
    then have "page_answer i q r a = a\<lparr>am_asked := remove1 (Ask_page i q) (am_asked a)\<rparr>"
      using True by (simp add: page_answer_def load_failed_def load_done_def Let_def split: sum.splits)
    then show ?thesis using late_answer_ok [OF assms(1), of "Ask_page i q"] False commits_same by simp
  next
    case now: True
    note c = current_answer [OF assms(1) True]
    have q: "q = query_of a" using c(4) now by simp
    show ?thesis
    proof (cases "\<exists>d. r = Inr d \<and> items d = [] \<and> q_page q > 1 \<and> pd_total d > 0")
      case True
      then obtain d where d: "r = Inr d" "items d = []" "q_page q > 1" "pd_total d > 0" by blast
      let ?b = "a\<lparr>am_asked := remove1 (Ask_page i q) (am_asked a), am_page := last_page d, am_busy := False\<rparr>"
      have b: "page_answer i q r a = ?b"
        using \<open>Ask_page i q \<in> set (am_asked a)\<close> now d by (simp add: page_answer_def load_done_def Let_def)
      have "last_page d < q_page q" using last_page_before assms(2) d by simp
      then have "am_deps ?b \<noteq> Some (deps_of_admin ?b)"
        using assms(1) q by (auto simp: admin_defs)
      moreover have "numbered ?b" using c(5) now by (simp add: numbered_def)
      ultimately show ?thesis unfolding b by (intro commits_ok)
    next
      case False
      have "admin_ok (page_answer i q r a)"
        using c(1,2,3,5) now False assms(1) \<open>Ask_page i q \<in> set (am_asked a)\<close>
        by (auto simp: page_answer_def load_failed_def load_done_def Let_def admin_defs q split: sum.splits)
      then show ?thesis using commits_same by simp
    qed
  qed
qed (simp add: page_answer_def assms(1) commits_same)


lemma admin_ok_step:
  assumes "admin_ok a" and "honest_answer ev"
  shows "admin_ok (commits (admin_step ev a))"
proof -
  consider "\<exists>i q r. ev = Stats_answer i q r" | "\<exists>i q r. ev = Page_answer i q r" | "ev = Admin_commit" | "same_load a (admin_step ev a)"
    by (cases ev) (auto simp: same_load_def reload_def action_def action_answer_def beginUpload_def upload_settled_def
        submit_def submit_answer_def Let_def split: option.splits)
  then show ?thesis
  proof cases
    case 1
    then show ?thesis using stats_answer_ok assms(1) by auto
  next
    case 2
    then show ?thesis using page_answer_ok assms by (auto simp del: honest_answer.simps)
  next
    case 3
    then show ?thesis using assms(1) commits_same commit_same by (simp add: admin_ok_def)
  next
    case 4
    then show ?thesis using same_load_ok assms(1) by blast
  qed
qed

interpretation admin_inv: invariant_system admin_init admin_trans admin_ok
proof unfold_locales
  show "admin_init a \<Longrightarrow> admin_ok a" for a
    using commits_ok [of newAdmin] by (simp add: admin_init_def) (simp add: newAdmin_def numbered_def)
  show "admin_ok a \<Longrightarrow> admin_trans a ev a' \<Longrightarrow> admin_ok a'" for a ev a'
    by (erule admin_transE) (simp add: admin_ok_step del: admin_step.simps)
qed

lemma shown_answers:
  assumes "admin_reachable a" and "am_allowed a" and "\<not> am_busy a" and "am_loadError a = None" and "am_section a \<noteq> Overview"
  shows "am_dataFor a = Some (query_of a)"
proof -
  have "load_ok a" using admin_inv.inv_reachable [OF assms(1)] by (simp add: admin_ok_def)
  then show ?thesis using assms(2-5) by (fastforce simp: load_ok_def loaded_def)
qed


fun admin_run :: "admin_event list \<Rightarrow> Admin \<Rightarrow> Admin" where
  "admin_run [] a = a"
| "admin_run (ev # evs) a = admin_run evs (commits (admin_step ev a))"

lemma admin_run_reachable: "admin_reachable a \<Longrightarrow> list_all honest_answer evs \<Longrightarrow> admin_reachable (admin_run evs a)"
  by (induction evs a rule: admin_run.induct) (auto intro: reachable_step admin_trans simp del: honest_answer.simps admin_step.simps)

definition demo_stats :: Stats where
  "demo_stats = \<lparr>st_users = 1, st_disabledUsers = 0, st_rooms = 1, st_openRooms = 1, st_media = 0, st_storageBytes = 0\<rparr>"

definition demo_rooms :: PageData where
  "demo_rooms = \<lparr>items = [Res_room \<lparr>rm_id = ''r'', rm_code = ''AB'', rm_title = ''t'', hostUserId = ''u'', rm_mediaId = None,
     rm_status = OPEN_ROOM, maxMembers = 8, rm_createdAtMs = 0, mr_ownerName = ''Una''\<rparr>], pd_total = 1, pd_page = 1, perPage = 20\<rparr>"

definition rooms_query :: query where
  "rooms_query = \<lparr>q_section = Rooms, q_search = [], q_page = 1\<rparr>"

text \<open>The rooms are opened and loaded; an answer of the load before comes late.\<close>

definition demo_admin_events :: "admin_event list" where
  "demo_admin_events = [Permit True, Nav_click Rooms, Stats_answer 2 \<lparr>q_section = Overview, q_search = [], q_page = 1\<rparr> (Inr demo_stats),
     Stats_answer 3 rooms_query (Inr demo_stats), Page_answer 3 rooms_query (Inr demo_rooms)]"

definition demo_admin :: Admin where
  "demo_admin = admin_run demo_admin_events (commits newAdmin)"

lemma demo_admin_reachable: "admin_reachable demo_admin"
  unfolding demo_admin_def
  by (intro admin_run_reachable reachable_init) (auto simp: admin_init_def demo_admin_events_def demo_rooms_def)

lemma demo_admin_facts:
  "am_allowed demo_admin" "\<not> am_busy demo_admin" "am_loadError demo_admin = None" "am_section demo_admin = Rooms"
  "am_data demo_admin = demo_rooms" "query_of demo_admin = rooms_query" "am_dataFor demo_admin = Some rooms_query"
  by code_simp+


text \<open>
  C34. A page number beyond the end is corrected, and in one step: when the server's page is empty although
  there are resources, the page turned to exists, lies before the one asked for, and is not empty.
\<close>

theorem page_correction:
  assumes "Ask_page (am_instance a) q \<in> set (am_asked a)" and "items d = []" and "1 < q_page q" and "0 < pd_total d"
    and "pd_total d \<le> (q_page q - 1) * perPage d"
  shows "let n = am_page (page_answer (am_instance a) q (Inr d) a)
         in 0 < n \<and> n < q_page q \<and> (n - 1) * perPage d < pd_total d \<and> am_data (page_answer (am_instance a) q (Inr d) a) = am_data a"
  using assms(1-4) last_page_bounds [OF assms(4,5)]
  by (simp add: page_answer_def load_done_def Let_def)

theorem page_correction_witness:
  "am_page (page_answer 1 \<lparr>q_section = Users, q_search = [], q_page = 3\<rparr> (Inr \<lparr>items = [], pd_total = 40, pd_page = 3, perPage = 20\<rparr>)
     (newAdmin\<lparr>am_instance := 1, am_asked := [Ask_page 1 \<lparr>q_section = Users, q_search = [], q_page = 3\<rparr>]\<rparr>)) = 2"
proof -
  let ?q = "\<lparr>q_section = Users, q_search = [], q_page = 3\<rparr>" and ?d = "\<lparr>items = [], pd_total = 40, pd_page = 3, perPage = 20\<rparr>"
  let ?a = "newAdmin\<lparr>am_instance := 1, am_asked := [Ask_page 1 ?q]\<rparr>"
  have "am_page (page_answer (am_instance ?a) ?q (Inr ?d) ?a) < 3 \<and> (40 :: nat) > (am_page (page_answer (am_instance ?a) ?q (Inr ?d) ?a) - 1) * 20"
    using page_correction [of ?a ?q ?d] by (simp add: Let_def)
  moreover have "am_page (page_answer 1 ?q (Inr ?d) ?a) > 1" by code_simp
  ultimately show ?thesis by simp
qed

section \<open>Rows of another section\<close>

text \<open>
  C35. After a load that failed the rows of another section stay, with the buttons of the new one: from a
  permitted page that is shown without loading, selecting another section of resources whose load then
  fails ends the loading with the old items still there; the delete button of such a row addresses the
  new kind of resource with the identifier of an old one.
\<close>

theorem stale_rows:
  assumes "admin_reachable a" and "am_allowed a" and "s \<noteq> am_section a"
  shows "let b = commits (admin_step (Nav_click s) a);
             c = commits (admin_step (Stats_answer (am_instance b) (query_of b) (Inl msg)) b)
         in \<not> am_busy c \<and> am_section c = s \<and> items (am_data c) = items (am_data a)"
proof -
  define b where "b = commits (admin_step (Nav_click s) a)"
  define c where "c = commits (admin_step (Stats_answer (am_instance b) (query_of b) (Inl msg)) b)"
  let ?a = "admin_step (Nav_click s) a"
  have ok: "admin_ok a" using admin_inv.inv_reachable [OF assms(1)] .
  have ok_b: "admin_ok b" unfolding b_def by (rule admin_ok_step [OF ok]) simp
  have deps: "am_deps ?a \<noteq> Some (deps_of_admin ?a)"
    using ok assms(3) by (auto simp: admin_ok_def deps_of_admin_def query_of_def)
  note f1 = commit_fields [OF deps]
  have page: "am_page (admin_commit ?a) = 1" by (simp add: admin_commit_def section_effect_def admin_load_effect_def Let_def)
  have "deps_of_admin (admin_commit ?a) = deps_of_admin ?a"
    using f1 by (simp add: deps_of_admin_def query_of_def page) (simp add: admin_commit_def section_effect_def admin_load_effect_def Let_def)
  then have b: "b = admin_commit ?a" using f1(1) by (simp add: b_def commits_def commit_same)
  have data: "am_data b = am_data a" "am_section b = s" "am_allowed b"
    using assms(2) by (simp_all add: b admin_commit_def section_effect_def admin_load_effect_def Let_def)
  have "query_of b = query_of ?a" using f1(6,7) page by (simp add: b query_of_def)
  then have asked: "Ask_stats (am_instance b) (query_of b) \<in> set (am_asked b)"
    using assms(2) f1(2,3,5) by (simp add: b)
  have "admin_step (Stats_answer (am_instance b) (query_of b) (Inl msg)) b =
      b\<lparr>am_asked := remove1 (Ask_stats (am_instance b) (query_of b)) (am_asked b), am_loadError := Some msg, am_busy := False\<rparr>"
    using asked by (simp add: stats_answer_def load_failed_def Let_def)
  moreover have "am_deps b = Some (deps_of_admin b)" using ok_b by (simp add: admin_ok_def)
  ultimately have "c = b\<lparr>am_asked := remove1 (Ask_stats (am_instance b) (query_of b)) (am_asked b), am_loadError := Some msg, am_busy := False\<rparr>"
    by (simp add: c_def commits_def commit_same deps_of_admin_def query_of_def)
  with data show ?thesis unfolding Let_def b_def [symmetric] c_def [symmetric] by simp
qed

theorem stale_rows_witness:
  "let b = commits (admin_step (Nav_click Users) demo_admin);
       c = commits (admin_step (Stats_answer (am_instance b) (query_of b) (Inl ''timeout'')) b)
   in am_section c = Users \<and> map (delete_path (am_section c)) (items (am_data c)) = [''/api/v1/admin/users/r'']"
proof -
  have "items (am_data demo_admin) = items demo_rooms" by (simp add: demo_admin_facts)
  moreover have "map (delete_path Users) (items demo_rooms) = [''/api/v1/admin/users/r'']" by code_simp
  ultimately show ?thesis
    using stale_rows [OF demo_admin_reachable demo_admin_facts(1), of Users "''timeout''"] demo_admin_facts(4)
    by (simp add: Let_def del: admin_step.simps)
qed

text \<open>
  One upload at a time: choosing a file while one is being uploaded starts nothing, and every upload
  that ended, however it did, allows the next one and reloads the list.
\<close>

theorem upload_exclusive:
  "(am_upload a \<longrightarrow> beginUpload f a = a) \<and>
   (am_upload a \<longrightarrow> \<not> am_upload (upload_settled r a) \<and> am_revision (upload_settled r a) = Suc (am_revision a) \<and>
      am_out (beginUpload True (upload_settled r a)) = am_out a @ [Upload_file])"
  by (auto simp: beginUpload_def upload_settled_def reload_def Let_def split: option.splits)

theorem upload_exclusive_witness:
  "am_out (beginUpload True (beginUpload True newAdmin)) = [Upload_file]"
  using upload_exclusive [of "beginUpload True newAdmin" True None] by (simp add: beginUpload_def newAdmin_def)

end
