(* ===== verification/AdminView.thy ===== *)
theory AdminView
  imports AdminPage UI Format
begin

text \<open>
  What the administration page shows and offers, the part of \<open>web/src/pages/AdminPage.tsx\<close> behind
  \<open>return\<close>, and the editor \<open>ResourceEditor\<close>. The source treats every row as the kind of resource its
  section lists, by a cast without a check: a property of another kind is \<open>undefined\<close>, which the accessors
  below give as \<^term>\<open>None\<close>. How the runtime writes dates and numbers is a parameter. A button that
  is only \<open>loading\<close> counts as one that can be clicked, since that it cannot is up to the component library.
\<close>

section \<open>Properties of a row\<close>

record runtime =
  rt_date :: "rat \<Rightarrow> string"
  rt_number :: "rat \<Rightarrow> string"

fun as_username :: "Resource \<Rightarrow> string option" where
  "as_username (Res_user u) = Some (us_username u)"
| "as_username _ = None"

fun as_nickname :: "Resource \<Rightarrow> string option" where
  "as_nickname (Res_user u) = Some (us_nickname u)"
| "as_nickname _ = None"

fun as_role :: "Resource \<Rightarrow> user_role option" where
  "as_role (Res_user u) = Some (us_role u)"
| "as_role _ = None"

fun as_disabled :: "Resource \<Rightarrow> bool" where
  "as_disabled (Res_user u) = us_disabled u"
| "as_disabled _ = False"

fun as_counts :: "Resource \<Rightarrow> rat option \<times> rat option" where
  "as_counts (Res_user u) = (roomCount u, mediaCount u)"
| "as_counts _ = (None, None)"

fun as_title :: "Resource \<Rightarrow> string option" where
  "as_title (Res_room r) = Some (rm_title r)"
| "as_title _ = None"

fun as_code :: "Resource \<Rightarrow> string option" where
  "as_code (Res_room r) = Some (rm_code r)"
| "as_code _ = None"

fun status_name :: "room_status \<Rightarrow> string" where
  "status_name OPEN_ROOM = ''OPEN''"
| "status_name HOST_DISCONNECTED = ''HOST_DISCONNECTED''"
| "status_name CLOSED_STATUS = ''CLOSED''"

fun as_status :: "Resource \<Rightarrow> string option" where
  "as_status (Res_room r) = Some (status_name (rm_status r))"
| "as_status (Res_media m) = Some (md_status m)"
| "as_status (Res_user u) = None"

fun as_owner :: "Resource \<Rightarrow> string option" where
  "as_owner (Res_room r) = Some (mr_ownerName r)"
| "as_owner (Res_media m) = Some (mm_ownerName m)"
| "as_owner (Res_user u) = None"

fun as_filename :: "Resource \<Rightarrow> string option" where
  "as_filename (Res_media m) = Some (originalFilename m)"
| "as_filename _ = None"

fun as_mime :: "Resource \<Rightarrow> string option" where
  "as_mime (Res_media m) = Some (mimeType m)"
| "as_mime _ = None"

fun as_size :: "Resource \<Rightarrow> rat option" where
  "as_size (Res_media m) = Some (md_sizeBytes m)"
| "as_size _ = None"

fun created :: "Resource \<Rightarrow> rat" where
  "created (Res_user u) = us_createdAtMs u"
| "created (Res_room r) = rm_createdAtMs r"
| "created (Res_media m) = mm_createdAtMs m"

text \<open>\<open>bytes\<close> of \<open>undefined\<close>: the comparison is false and the quotient is not a number.\<close>

definition bytes_of :: "rat option \<Rightarrow> string" where
  "bytes_of v = (case v of None \<Rightarrow> ''NaN MB'' | Some x \<Rightarrow> bytes x)"

definition row_label :: "Section \<Rightarrow> Resource \<Rightarrow> string option" where
  "row_label s item =
     (if s = Users then as_username item else if s = Rooms then as_title item else as_filename item)"

definition room_closed :: "Resource \<Rightarrow> bool" where
  "room_closed item \<longleftrightarrow> as_status item = Some ''CLOSED''"

section \<open>What can be clicked\<close>

text \<open>\<open>Ask\<close> opens the confirmation of an action: its path, its method, its title and its text.\<close>

datatype admin_click =
    Nav_to Section
  | Show_section Section
  | Reload_click
  | Dismiss_success
  | Abort_click
  | Open_editor Editor
  | Choose_file
  | Ask string string string string
  | Page_number nat
  | Close_editor
  | Submit_click

fun section_label :: "Section \<Rightarrow> string" where
  "section_label Overview = ''Overview''"
| "section_label Users = ''Users''"
| "section_label Rooms = ''Rooms''"
| "section_label Medias = ''Films''"

fun section_description :: "Section \<Rightarrow> string" where
  "section_description Overview = ''Accounts, rooms and films at a glance.''"
| "section_description Users = ''You assign the accounts and manage the access of every viewer.''"
| "section_description Rooms = ''See all rooms, maintain their data and their state.''"
| "section_description Medias = ''Manage all films, the library and the storage.''"

definition kind_word :: "Section \<Rightarrow> string" where
  "kind_word s = (if s = Users then ''user'' else if s = Rooms then ''room'' else ''film'')"

section \<open>Rows\<close>

definition room_path :: "Resource \<Rightarrow> string" where
  "room_path item = ''/api/v1/admin/rooms/'' @ item_id item @ ''/'' @ (if room_closed item then ''reopen'' else ''close'')"

definition room_question :: "Resource \<Rightarrow> string option \<Rightarrow> admin_click" where
  "room_question item label =
     Ask (room_path item) ''POST''
       (if room_closed item then ''Reopen the room'' else ''Close the room'')
       (if room_closed item then ''Reopen ['' @ tmpl label @ '']: the host and the members can enter again.''
        else ''Close ['' @ tmpl label @ '']: all viewers are disconnected, guests have to be invited again.'')"

definition delete_question :: "Section \<Rightarrow> Resource \<Rightarrow> string option \<Rightarrow> admin_click" where
  "delete_question s item label =
     Ask (delete_path s item) ''DELETE'' (''Delete '' @ kind_word s)
       (''Delete ['' @ tmpl label @ '']? '' @
        (if s = Users then ''The rooms and films of the user have to be dealt with first.''
         else if s = Rooms then ''Close the room first. Members, invitations and chat are deleted.''
         else ''A film in use has to be stopped first. The file is deleted as well.'') @ '' This cannot be undone.'')"

definition row_cells :: "runtime \<Rightarrow> Section \<Rightarrow> Resource \<Rightarrow> admin_click ui list" where
  "row_cells lc s item =
     [Label (child (if s = Users then as_nickname item else row_label s item)),
      Label (if s = Users then ''@'' @ tmpl (as_username item) else if s = Rooms then child (as_code item) else child (as_mime item))] @
     (if s = Users then [Label (if as_role item = Some SUPER_ADMIN then ''Super administrator'' else ''User''),
                         Label (if as_disabled item then ''Disabled'' else ''Active'')]
      else [Label (child (as_owner item))]) @
     (if s = Users then [Label (child (map_option (rt_number lc) (fst (as_counts item))) @ '' rooms, '' @
                                child (map_option (rt_number lc) (snd (as_counts item))) @ '' films'')]
      else if s = Rooms then [Label (if room_closed item then ''Closed'' else if as_status item = Some ''OPEN'' then ''Open'' else ''Waiting for the host'')]
      else [Label (if as_status item = Some ''READY'' then ''Playable'' else child (as_status item)), Label (bytes_of (as_size item))]) @
     [Label (rt_date lc (created item))]"

definition row_buttons :: "bool \<Rightarrow> Section \<Rightarrow> Resource \<Rightarrow> admin_click ui list" where
  "row_buttons acting s item =
     [Button (''Edit '' @ tmpl (row_label s item)) False (Open_editor \<lparr>ed_kind = s, ed_item = Some item\<rparr>)] @
     only_if (s = Rooms) (Button (if room_closed item then ''Open'' else ''Close'') acting (room_question item (row_label s item))) @
     [Label (if s = Users \<and> as_role item = Some SUPER_ADMIN then ''A super administrator cannot be deleted'' else ''Delete''),
      Button (''Delete '' @ tmpl (row_label s item)) (acting \<or> s = Users \<and> as_role item = Some SUPER_ADMIN)
        (delete_question s item (row_label s item))]"

definition admin_row :: "runtime \<Rightarrow> bool \<Rightarrow> Section \<Rightarrow> Resource \<Rightarrow> admin_click ui" where
  "admin_row lc acting s item = Group (item_id item) (row_cells lc s item @ row_buttons acting s item)"

definition column_titles :: "Section \<Rightarrow> string list" where
  "column_titles s =
     (if s = Users then [''User'', ''Role and state'', ''Resources'', ''Created'', ''Actions'']
      else if s = Rooms then [''Room'', ''Host'', ''State'', ''Created'', ''Actions'']
      else [''Film'', ''Owner'', ''State, size'', ''Created'', ''Actions''])"

section \<open>The page\<close>

definition admin_nav :: "admin_click ui" where
  "admin_nav =
     Group ''Administration''
       (map (\<lambda>(k, s). Button (section_label s) False (Nav_to s)) sections @ [Link ''Back to the home page'' ''/''])"

definition stats_card :: "string \<Rightarrow> string option \<Rightarrow> string \<Rightarrow> admin_click ui" where
  "stats_card label v detail =
     Group label [Label label, (case v of None \<Rightarrow> Skeleton 1 | Some t \<Rightarrow> Label t), Label detail]"

definition stats_cards :: "Stats option \<Rightarrow> admin_click ui list" where
  "stats_cards st =
     [stats_card ''Users'' (map_option (show_nat \<circ> st_users) st)
        (show_nat (case st of None \<Rightarrow> 0 | Some x \<Rightarrow> st_disabledUsers x) @ '' accounts disabled''),
      stats_card ''Rooms'' (map_option (show_nat \<circ> st_rooms) st)
        (show_nat (case st of None \<Rightarrow> 0 | Some x \<Rightarrow> st_openRooms x) @ '' rooms open''),
      stats_card ''Films'' (map_option (show_nat \<circ> st_media) st) ''including unfinished uploads'',
      stats_card ''Total size'' (map_option (\<lambda>x. bytes (of_nat (st_storageBytes x))) st) ''by the records of the library'']"

definition overview :: "Stats option \<Rightarrow> admin_click ui list" where
  "overview st =
     stats_cards st @
     [Button ''Create a user'' False (Open_editor \<lparr>ed_kind = Users, ed_item = None\<rparr>),
      Button ''All rooms'' False (Show_section Rooms),
      Button ''The library'' False (Show_section Medias)]"

definition search_hint :: "Section \<Rightarrow> string" where
  "search_hint s =
     (if s = Users then ''Search names'' else if s = Rooms then ''Search titles and codes'' else ''Search films'')"

definition add_button :: "Admin \<Rightarrow> admin_click ui" where
  "add_button a =
     (if am_section a = Medias then Picker ''Upload a film'' (am_uploadProgress a \<noteq> []) Choose_file
      else Button (if am_section a = Users then ''Create a user'' else ''Create a room'') False
             (Open_editor \<lparr>ed_kind = am_section a, ed_item = None\<rparr>))"

definition pages_total :: "nat \<Rightarrow> nat" where
  "pages_total n = max 1 (nat \<lceil>of_nat n / (20 :: rat)\<rceil>)"

definition rows_shown :: "runtime \<Rightarrow> Admin \<Rightarrow> admin_click ui list" where
  "rows_shown lc a =
     (if am_busy a then [Skeleton 4]
      else if items (am_data a) = [] then
        [Label (if am_search a \<noteq> [] then ''Nothing matches'' else ''Nothing here yet''),
         Label (if am_search a \<noteq> [] then ''Try another word'' else ''Add the first one with the button above'')]
      else map Label (column_titles (am_section a)) @ map (admin_row lc (am_acting a) (am_section a)) (items (am_data a)))"

definition resources :: "runtime \<Rightarrow> Admin \<Rightarrow> admin_click ui list" where
  "resources lc a =
     [Field (search_hint (am_section a)) (am_queryText a) False, add_button a,
      Label (show_nat (pd_total (am_data a)) @ '' records'' @
             (if am_section a = Medias then ''; uploads belong to you'' else []))] @
     rows_shown lc a @
     map (\<lambda>n. Button (show_nat n) (am_busy a) (Page_number n)) [1..<Suc (pages_total (pd_total (am_data a)))]"

definition alerts :: "Admin \<Rightarrow> admin_click ui list" where
  "alerts a =
     map (\<lambda>m. Note m None) (take 1 (filter (\<lambda>m. m \<noteq> []) [child (am_error a), child (am_loadError a)])) @
     (case am_success a of
        No_success \<Rightarrow> []
      | Action_done \<Rightarrow> [Note ''Done'' (Some Dismiss_success)]
      | Upload_done \<Rightarrow> [Note ''The film is uploaded'' (Some Dismiss_success)]
      | Saved \<Rightarrow> [Note ''Saved'' (Some Dismiss_success)]) @
     (if am_uploadProgress a = [] then []
      else [Group ''progress'' [Label (am_uploadProgress a), Button ''Cancel the upload'' False Abort_click]])"

section \<open>The editor\<close>

text \<open>The state of \<open>ResourceEditor\<close>: the values of its fields, and the switch of a user's account.\<close>

record EditorForm =
  ef_username :: string
  ef_nickname :: string
  ef_password :: string
  ef_disabled :: bool
  ef_title :: string
  ef_filename :: string

definition newForm :: "Editor \<Rightarrow> EditorForm" where
  "newForm ed =
     \<lparr>ef_username = child (Option.bind (ed_item ed) as_username), ef_nickname = child (Option.bind (ed_item ed) as_nickname),
      ef_password = [], ef_disabled = (case ed_item ed of None \<Rightarrow> False | Some item \<Rightarrow> as_disabled item),
      ef_title = child (Option.bind (ed_item ed) as_title), ef_filename = child (Option.bind (ed_item ed) as_filename)\<rparr>"

datatype form_event =
    Type_username string
  | Type_nickname string
  | Type_password string
  | Switch_disabled bool
  | Type_title string
  | Type_filename string

definition is_super :: "Editor \<Rightarrow> bool" where
  "is_super ed \<longleftrightarrow> Option.bind (ed_item ed) as_role = Some SUPER_ADMIN"

text \<open>The switch is there for an existing user, and disabled for a super administrator.\<close>

fun form_step :: "Editor \<Rightarrow> form_event \<Rightarrow> EditorForm \<Rightarrow> EditorForm" where
  "form_step ed (Type_username t) f = f\<lparr>ef_username := t\<rparr>"
| "form_step ed (Type_nickname t) f = f\<lparr>ef_nickname := t\<rparr>"
| "form_step ed (Type_password t) f = f\<lparr>ef_password := t\<rparr>"
| "form_step ed (Switch_disabled b) f = (if ed_item ed = None \<or> is_super ed then f else f\<lparr>ef_disabled := b\<rparr>)"
| "form_step ed (Type_title t) f = f\<lparr>ef_title := t\<rparr>"
| "form_step ed (Type_filename t) f = f\<lparr>ef_filename := t\<rparr>"

definition editor_body :: "Editor \<Rightarrow> EditorForm \<Rightarrow> json" where
  "editor_body ed f =
     (if ed_kind ed = Users then
        JObj ([(''username'', JStr (ef_username f)), (''nickname'', JStr (ef_nickname f)), (''disabled'', JBool (ef_disabled f))] @
              (if ef_password f = [] then [] else [(''password'', JStr (ef_password f))]))
      else if ed_kind ed = Rooms then JObj [(''title'', JStr (ef_title f))]
      else JObj [(''originalFilename'', JStr (ef_filename f))])"

text \<open>The request: its path and its method.\<close>

definition editor_request :: "Editor \<Rightarrow> string \<times> string" where
  "editor_request ed =
     (''/api/v1/admin/'' @ section_path (ed_kind ed) @ (case ed_item ed of None \<Rightarrow> [] | Some item \<Rightarrow> ''/'' @ item_id item),
      case ed_item ed of None \<Rightarrow> ''POST'' | Some _ \<Rightarrow> ''PATCH'')"

definition editor_fields :: "Editor \<Rightarrow> EditorForm \<Rightarrow> admin_click ui list" where
  "editor_fields ed f =
     (if ed_kind ed = Users then
        [Field ''User name'' (ef_username f) False, Field ''Nickname'' (ef_nickname f) False,
         Field (if ed_item ed = None then ''First password'' else ''New password'') (ef_password f) False] @
        (if ed_item ed = None then []
         else [Field ''Disabled'' (if ef_disabled f then ''on'' else ''off'') (is_super ed),
               Label ''The account has to sign in again; changing your own ends this session.''])
      else if ed_kind ed = Rooms then [Field ''Title'' (ef_title f) False]
      else [Field ''Film name'' (ef_filename f) False])"

definition editor_view :: "bool \<Rightarrow> string option \<Rightarrow> Editor \<Rightarrow> EditorForm \<Rightarrow> admin_click ui list" where
  "editor_view busy err ed f =
     editor_fields ed f @ only_if (child err \<noteq> []) (Note (child err) None) @
     [Button ''Cancel'' busy Close_editor,
      Button (if ed_item ed = None then ''Create'' else ''Save'') False Submit_click]"

definition modal :: "Admin \<Rightarrow> bool \<Rightarrow> EditorForm \<Rightarrow> admin_click ui list" where
  "modal a busy f =
     (case am_editor a of
        None \<Rightarrow> []
      | Some ed \<Rightarrow>
          [Group ((if ed_item ed = None then ''Create '' else ''Edit '') @ kind_word (ed_kind ed))
             (only_if (\<not> am_acting a) (Button ''Close'' False Close_editor) @ editor_view busy (am_editorError a) ed f)])"

section \<open>The whole page\<close>

definition admin_view :: "runtime \<Rightarrow> Admin \<Rightarrow> bool \<Rightarrow> EditorForm \<Rightarrow> admin_click ui list" where
  "admin_view lc a busy f =
     [admin_nav, Label (section_label (am_section a)), Label (section_description (am_section a)),
      Button ''Reload'' False Reload_click] @
     alerts a @
     (if am_section a = Overview then overview (am_stats a) else resources lc a) @
     modal a busy f"

definition admin_allowed :: "Identity option \<Rightarrow> bool" where
  "admin_allowed i \<longleftrightarrow> (case i of None \<Rightarrow> False | Some x \<Rightarrow> \<not> id_guest x \<and> id_role x = Some SUPER_ADMIN)"

definition admin_page :: "runtime \<Rightarrow> bool \<Rightarrow> Identity option \<Rightarrow> Admin \<Rightarrow> bool \<Rightarrow> EditorForm \<Rightarrow> admin_click ui list" where
  "admin_page lc loading i a busy f =
     (if loading then [Skeleton 1]
      else if i = None then [Link ''redirect'' ''/login'']
      else if \<not> admin_allowed i then
        [Label ''Administrators only'', Label ''Only super administrators may enter.'', Link ''Back'' ''/'']
      else admin_view lc a busy f)"

section \<open>Using the page\<close>

text \<open>The page with its open confirmations, each with the value of \<open>acting\<close> it was opened with, and the
  editor's own state.\<close>

record Console =
  co_admin :: Admin
  co_dialogs :: "(bool \<times> string \<times> string) list"
  co_form :: EditorForm
  co_busy :: bool

definition admin_do :: "admin_event \<Rightarrow> Console \<Rightarrow> Console" where
  "admin_do ev s = s\<lparr>co_admin := commits (admin_step ev (co_admin s))\<rparr>"

fun click_step :: "admin_click \<Rightarrow> Console \<Rightarrow> Console" where
  "click_step (Nav_to x) s = admin_do (Nav_click x) s"
| "click_step (Show_section x) s = admin_do (Select_section x) s"
| "click_step Reload_click s = admin_do Refresh_click s"
| "click_step Dismiss_success s = admin_do Dismiss s"
| "click_step Abort_click s = s"
| "click_step (Open_editor ed) s = (admin_do (Edit (Some ed)) s)\<lparr>co_form := newForm ed, co_busy := False\<rparr>"
| "click_step Choose_file s = s"
| "click_step (Ask path meth title detail) s = s\<lparr>co_dialogs := co_dialogs s @ [(am_acting (co_admin s), path, meth)]\<rparr>"
| "click_step (Page_number n) s = admin_do (Turn_page n) s"
| "click_step Close_editor s = admin_do (Edit None) s"
| "click_step Submit_click s = (admin_do (Submit (co_busy s)) s)\<lparr>co_busy := True\<rparr>"

text \<open>What happens without a click on the page: answers, the address bar, typing, the file dialogue, and
  the confirmations.\<close>

fun from_outside :: "admin_event \<Rightarrow> bool" where
  "from_outside (Nav_click s) = False"
| "from_outside (Action_click acting b p m) = False"
| "from_outside (Edit ed) = False"
| "from_outside (Submit b) = False"
| "from_outside (Submit_answer own r) = False"
| "from_outside ev = True"

inductive console_env :: "Console \<Rightarrow> Console \<Rightarrow> bool" where
  env_event: "from_outside ev \<Longrightarrow> honest_answer ev \<Longrightarrow> console_env s (admin_do ev s)"
| env_confirm: "(acting, path, meth) \<in> set (co_dialogs s) \<Longrightarrow>
     console_env s (admin_do (Action_click acting yes path meth) (s\<lparr>co_dialogs := remove1 (acting, path, meth) (co_dialogs s)\<rparr>))"
| env_typing: "am_editor (co_admin s) = Some ed \<Longrightarrow> console_env s (s\<lparr>co_form := form_step ed ev (co_form s)\<rparr>)"
| env_saved: "console_env s ((admin_do (Submit_answer own r) s)\<lparr>co_busy := False\<rparr>)"

definition console_click :: "Console \<Rightarrow> admin_click \<Rightarrow> Console \<Rightarrow> bool" where
  "console_click s c s' \<longleftrightarrow> s' = click_step c s"

definition console_init :: "Console \<Rightarrow> bool" where
  "console_init s \<longleftrightarrow> co_admin s = commits newAdmin \<and> co_dialogs s = []"

text \<open>The identity is the one the page is opened with: a change of it while the page is in use is left out.\<close>

definition console_view :: "runtime \<Rightarrow> bool \<Rightarrow> Identity option \<Rightarrow> Console \<Rightarrow> admin_click ui list" where
  "console_view lc loading i s = admin_page lc loading i (co_admin s) (co_busy s) (co_form s)"

text \<open>The requests a row may lead to.\<close>

definition row_action :: "Section \<Rightarrow> Resource \<Rightarrow> string \<Rightarrow> string \<Rightarrow> bool" where
  "row_action s item path meth \<longleftrightarrow>
     meth = ''DELETE'' \<and> path = delete_path s item \<and> \<not> (s = Users \<and> as_role item = Some SUPER_ADMIN) \<or>
     meth = ''POST'' \<and> s = Rooms \<and> path = room_path item"

fun admin_permitted :: "bool \<Rightarrow> Identity option \<Rightarrow> Console \<Rightarrow> admin_click \<Rightarrow> bool" where
  "admin_permitted loading i s (Ask path meth title detail) =
     (\<not> loading \<and> admin_allowed i \<and> \<not> am_busy (co_admin s) \<and> \<not> am_acting (co_admin s) \<and> am_section (co_admin s) \<noteq> Overview \<and>
      (\<exists>item \<in> set (items (am_data (co_admin s))). row_action (am_section (co_admin s)) item path meth))"
| "admin_permitted loading i s c = (\<not> loading \<and> admin_allowed i)"

lemma offered_alerts: "set (offered (alerts a)) \<subseteq> {Dismiss_success, Abort_click}"
  by (auto simp: alerts_def split: success.splits)

lemma offered_nav: "set (offers admin_nav) = Nav_to ` {Overview, Users, Rooms, Medias}"
  by (simp add: admin_nav_def sections_def)

lemma offered_cards: "offered (stats_cards st) = []"
  by (cases st) (simp_all add: stats_cards_def stats_card_def)

lemma offered_cells: "offered (row_cells lc s item) = []"
  by (simp add: row_cells_def)

lemma offered_fields: "offered (editor_fields ed f) = []"
  by (simp add: editor_fields_def)

lemma offered_labels [simp]: "offered (map Label xs) = []"
  by (induction xs) simp_all

lemma offered_modal: "set (offered (modal a busy f)) \<subseteq> {Close_editor, Submit_click}"
  by (auto simp: modal_def editor_view_def offered_fields split: option.splits)

lemma offered_row:
  "Ask path meth title detail \<in> set (offers (admin_row lc acting s item)) \<Longrightarrow> \<not> acting \<and> row_action s item path meth"
  by (auto simp: admin_row_def offered_cells row_buttons_def room_question_def delete_question_def row_action_def split: if_splits)

lemma offered_resources:
  assumes "Ask path meth title detail \<in> set (offered (resources lc a))"
  shows "\<not> am_busy a \<and> \<not> am_acting a \<and> (\<exists>item \<in> set (items (am_data a)). row_action (am_section a) item path meth)"
  using assms offered_row
  by (fastforce simp: resources_def add_button_def rows_shown_def split: if_splits)

lemma admin_offers_permitted:
  assumes "c \<in> set (offered (console_view lc loading i s))"
  shows "admin_permitted loading i s c"
proof (cases "loading \<or> \<not> admin_allowed i")
  case True
  then show ?thesis using assms by (auto simp: console_view_def admin_page_def admin_allowed_def split: if_splits)
next
  case False
  then have in_view: "c \<in> set (offered (admin_view lc (co_admin s) (co_busy s) (co_form s)))"
    using assms by (auto simp: console_view_def admin_page_def admin_allowed_def split: if_splits)
  show ?thesis
  proof (cases c)
    case (Ask path meth title detail)
    then have "Ask path meth title detail \<in> set (offered (resources lc (co_admin s)))" "am_section (co_admin s) \<noteq> Overview"
      using in_view offered_alerts [of "co_admin s"] offered_modal [of "co_admin s" "co_busy s" "co_form s"]
      by (auto simp: admin_view_def offered_nav overview_def offered_cards split: if_splits)
    then show ?thesis using Ask False offered_resources by simp
  qed (use False in simp_all)
qed

lemma commits_out: "am_out (commits a) = am_out a"
  by (simp add: commits_def admin_commit_def section_effect_def admin_load_effect_def Let_def)

lemma acts_step:
  assumes "Act path meth \<in> set (am_out (admin_step ev a))"
  shows "Act path meth \<in> set (am_out a) \<or> ev = Action_click False True path meth"
  using assms
  by (cases ev) (auto simp: admin_commit_def section_effect_def admin_load_effect_def reload_def stats_answer_def page_answer_def
      load_failed_def load_done_def action_def action_answer_def beginUpload_def upload_settled_def submit_def submit_answer_def Let_def
      split: if_splits sum.splits option.splits)

lemma admin_do_reachable:
  "admin_reachable (co_admin s) \<Longrightarrow> honest_answer ev \<Longrightarrow> admin_reachable (co_admin (admin_do ev s))"
  by (simp add: admin_do_def) (rule reachable_step, assumption, rule admin_trans)

definition console_good :: "Console \<Rightarrow> bool" where
  "console_good s \<longleftrightarrow> admin_reachable (co_admin s)"

text \<open>The requests of actions, and the confirmations still open.\<close>

definition admin_asks :: "Console \<Rightarrow> (string \<times> string) set" where
  "admin_asks s = {(path, meth). Act path meth \<in> set (am_out (co_admin s))} \<union> snd ` set (co_dialogs s)"

fun admin_asked :: "admin_click \<Rightarrow> (string \<times> string) option" where
  "admin_asked (Ask path meth title detail) = Some (path, meth)"
| "admin_asked _ = None"

lemma asks_do:
  assumes "\<And>path meth. ev = Action_click False True path meth \<Longrightarrow> (path, meth) \<in> A"
  shows "admin_asks (admin_do ev s) \<subseteq> admin_asks s \<union> A"
proof -
  have "(path, meth) \<in> admin_asks s \<union> A" if "Act path meth \<in> set (am_out (co_admin (admin_do ev s)))" for path meth
  proof -
    have "Act path meth \<in> set (am_out (admin_step ev (co_admin s)))"
      using that by (simp add: admin_do_def commits_out del: admin_step.simps)
    from acts_step [OF this] show ?thesis using assms by (auto simp: admin_asks_def)
  qed
  moreover have "co_dialogs (admin_do ev s) = co_dialogs s" by (simp add: admin_do_def)
  ultimately show ?thesis by (auto simp: admin_asks_def)
qed

lemma asks_do_plain: "(\<And>b path meth. ev \<noteq> Action_click False b path meth) \<Longrightarrow> admin_asks (admin_do ev s) \<subseteq> admin_asks s"
  using asks_do [of ev "{}" s] by auto

lemma asks_fields [simp]: "admin_asks (s\<lparr>co_form := f\<rparr>) = admin_asks s" "admin_asks (s\<lparr>co_busy := b\<rparr>) = admin_asks s"
  by (simp_all add: admin_asks_def)

lemma asks_click: "admin_asks (click_step c s) \<subseteq> admin_asks s \<union> set_option (admin_asked c)"
proof (cases c)
  case (Ask path meth title detail)
  then show ?thesis by (auto simp: admin_asks_def)
qed (simp_all add: asks_do_plain)

interpretation admin_ui: traced_ui "console_view lc loading i" console_init console_env console_click console_good
    "admin_permitted loading i" admin_asks admin_asked
  for lc loading i
proof unfold_locales
  show "console_good s" if "console_init s" for s
    using that by (simp add: console_init_def console_good_def reachable_init admin_init_def)
  show "console_good s'" if good: "console_good s" and env: "console_env s s'" for s s'
    using env
  proof (cases rule: console_env.cases)
    case (env_confirm acting path meth yes)
    have "admin_reachable (co_admin (s\<lparr>co_dialogs := remove1 (acting, path, meth) (co_dialogs s)\<rparr>))"
      using good by (simp add: console_good_def)
    then show ?thesis unfolding console_good_def env_confirm(1) by (rule admin_do_reachable) simp
  qed (use good in \<open>simp_all add: console_good_def admin_do_reachable\<close>)
  show "console_good s'" if good: "console_good s" and click: "console_click s c s'" for s c s'
    using good click by (cases c) (simp_all add: console_good_def console_click_def admin_do_reachable)
  show "admin_permitted loading i s c" if "c \<in> set (offered (console_view lc loading i s))" for s c
    using that by (rule admin_offers_permitted)
  show "admin_asks s = {}" if "console_init s" for s
  proof -
    have "am_out newAdmin = []" by (simp add: newAdmin_def)
    then show ?thesis using that by (simp add: console_init_def admin_asks_def commits_out)
  qed
  show "admin_asks s' \<subseteq> admin_asks s" if "console_env s s'" for s s'
    using that
  proof (cases rule: console_env.cases)
    case (env_event ev)
    then show ?thesis by (cases ev) (simp_all add: asks_do_plain)
  next
    case (env_confirm acting path meth yes)
    let ?t = "s\<lparr>co_dialogs := remove1 (acting, path, meth) (co_dialogs s)\<rparr>"
    have "admin_asks ?t \<subseteq> admin_asks s" using set_remove1_subset [of "(acting, path, meth)" "co_dialogs s"] by (auto simp: admin_asks_def)
    moreover have "(path, meth) \<in> admin_asks s" using env_confirm(2) by (force simp: admin_asks_def)
    ultimately show ?thesis
      unfolding env_confirm(1) using asks_do [of "Action_click acting yes path meth" "{(path, meth)}" ?t] by fastforce
  qed (simp_all add: asks_do_plain)
  show "admin_asks s' \<subseteq> admin_asks s \<union> set_option (admin_asked c)" if "console_click s c s'" for s c s'
    using that asks_click by (simp add: console_click_def)
qed

text \<open>
  C32. What administrators do to resources is what a row offered: however the page is used, every
  confirmed request that leaves it was asked for by a button of a row shown at that moment to a super
  administrator, on a page that was neither loading nor carrying out another action; its path names the
  section and the resource of that row; and no super administrator's account is ever deleted from the list.
\<close>

theorem admin_requests_offered:
  assumes "used (console_view lc loading i) console_init console_env console_click h s"
    and "Act path meth \<in> set (am_out (co_admin s))"
  shows "\<exists>t title detail. (t, Ask path meth title detail) \<in> set h \<and> admin_allowed i \<and>
           \<not> am_busy (co_admin t) \<and> \<not> am_acting (co_admin t) \<and>
           (\<exists>item \<in> set (items (am_data (co_admin t))). row_action (am_section (co_admin t)) item path meth)"
proof -
  have "(path, meth) \<in> admin_asks s" using assms(2) by (simp add: admin_asks_def)
  from admin_ui.used_asked_permitted [OF assms(1) this]
  obtain t c where c: "(t, c) \<in> set h" "admin_asked c = Some (path, meth)" "admin_permitted loading i t c" by blast
  then obtain title detail where "c = Ask path meth title detail" by (cases c) simp_all
  with c show ?thesis by auto
qed

datatype move = Outside admin_event | Click admin_click | Confirm bool bool string string

fun play :: "move list \<Rightarrow> (Console \<times> admin_click) list \<times> Console \<Rightarrow> (Console \<times> admin_click) list \<times> Console" where
  "play [] hs = hs"
| "play (Outside ev # ms) (h, s) = play ms (h, admin_do ev s)"
| "play (Click c # ms) (h, s) = play ms (h @ [(s, c)], click_step c s)"
| "play (Confirm yes acting path meth # ms) (h, s) =
     play ms (h, admin_do (Action_click acting yes path meth) (s\<lparr>co_dialogs := remove1 (acting, path, meth) (co_dialogs s)\<rparr>))"

fun playable :: "runtime \<Rightarrow> Identity option \<Rightarrow> move list \<Rightarrow> Console \<Rightarrow> bool" where
  "playable lc i [] s = True"
| "playable lc i (Outside ev # ms) s = (from_outside ev \<and> honest_answer ev \<and> playable lc i ms (admin_do ev s))"
| "playable lc i (Click c # ms) s = (c \<in> set (offered (console_view lc False i s)) \<and> playable lc i ms (click_step c s))"
| "playable lc i (Confirm yes acting path meth # ms) s =
     ((acting, path, meth) \<in> set (co_dialogs s) \<and>
      playable lc i ms (admin_do (Action_click acting yes path meth) (s\<lparr>co_dialogs := remove1 (acting, path, meth) (co_dialogs s)\<rparr>)))"

lemma play_used:
  "used (console_view lc False i) console_init console_env console_click h s \<Longrightarrow> playable lc i ms s \<Longrightarrow>
   used (console_view lc False i) console_init console_env console_click (fst (play ms (h, s))) (snd (play ms (h, s)))"
proof (induction ms "(h, s)" arbitrary: h s rule: play.induct)
  case (2 ev ms h s)
  then show ?case by (auto intro: used_env env_event)
next
  case (3 c ms h s)
  have "used (console_view lc False i) console_init console_env console_click (h @ [(s, c)]) (click_step c s)"
    by (rule used_click [OF 3(2)]) (use 3(3) in \<open>simp_all add: console_click_def\<close>)
  then show ?case using 3(1,3) by simp
next
  case (4 yes acting path meth ms h s)
  then show ?case by (auto intro: used_env env_confirm)
qed simp

definition demo_admin_user :: Identity where
  "demo_admin_user = \<lparr>id_role = Some SUPER_ADMIN, id_username = Some ''root'', id_id = ''u'', id_nickname = ''Root'', id_roomId = None, id_guest = False\<rparr>"

definition demo_runtime :: runtime where
  "demo_runtime = \<lparr>rt_date = (\<lambda>_. ''today''), rt_number = (\<lambda>_. ''1'')\<rparr>"

definition demo_console :: Console where
  "demo_console = \<lparr>co_admin = commits newAdmin, co_dialogs = [],
     co_form = newForm \<lparr>ed_kind = Users, ed_item = None\<rparr>, co_busy = False\<rparr>"

definition demo_moves :: "move list" where
  "demo_moves = [Outside (Permit True), Click (Nav_to Rooms), Outside (Stats_answer 3 rooms_query (Inr demo_stats)),
     Outside (Page_answer 3 rooms_query (Inr demo_rooms)),
     Click (Ask ''/api/v1/admin/rooms/r/close'' ''POST'' ''Close the room''
       ''Close [t]: all viewers are disconnected, guests have to be invited again.''),
     Confirm True False ''/api/v1/admin/rooms/r/close'' ''POST'']"

theorem admin_requests_offered_witness:
  "am_out (co_admin (snd (play demo_moves ([], demo_console)))) = [Act ''/api/v1/admin/rooms/r/close'' ''POST''] \<and>
   (\<exists>t title detail. (t, Ask ''/api/v1/admin/rooms/r/close'' ''POST'' title detail) \<in> set (fst (play demo_moves ([], demo_console))))"
proof -
  have "console_init demo_console" by (simp add: console_init_def demo_console_def)
  then have "used (console_view demo_runtime False (Some demo_admin_user)) console_init console_env console_click [] demo_console"
    by (rule used_init)
  moreover have "playable demo_runtime (Some demo_admin_user) demo_moves demo_console" by code_simp
  ultimately have u: "used (console_view demo_runtime False (Some demo_admin_user)) console_init console_env console_click
      (fst (play demo_moves ([], demo_console))) (snd (play demo_moves ([], demo_console)))"
    by (rule play_used)
  have out: "am_out (co_admin (snd (play demo_moves ([], demo_console)))) = [Act ''/api/v1/admin/rooms/r/close'' ''POST'']"
    by code_simp
  then have "Act ''/api/v1/admin/rooms/r/close'' ''POST'' \<in> set (am_out (co_admin (snd (play demo_moves ([], demo_console)))))" by simp
  from admin_requests_offered [OF u this] out show ?thesis by blast
qed

section \<open>Rows of the right kind\<close>

text \<open>The server answers a query with resources of the kind that was asked for.\<close>

fun typed_answer :: "admin_event \<Rightarrow> bool" where
  "typed_answer (Page_answer i q (Inr d)) = (\<forall>item \<in> set (items d). kind_of item = q_section q)"
| "typed_answer ev = True"

inductive typed_trans :: "Admin \<Rightarrow> admin_event \<Rightarrow> Admin \<Rightarrow> bool" where
  typed_trans: "admin_trans a ev a' \<Longrightarrow> typed_answer ev \<Longrightarrow> typed_trans a ev a'"

abbreviation typed_reachable :: "Admin \<Rightarrow> bool" where
  "typed_reachable \<equiv> reachable admin_init typed_trans"

fun rows_of :: "query option \<Rightarrow> Resource list \<Rightarrow> bool" where
  "rows_of None xs = (xs = [])"
| "rows_of (Some q) xs = (\<forall>item \<in> set xs. kind_of item = q_section q)"

definition rows_typed :: "Admin \<Rightarrow> bool" where
  "rows_typed a \<longleftrightarrow> rows_of (am_dataFor a) (items (am_data a))"

lemma typed_is_reachable: "typed_reachable a \<Longrightarrow> admin_reachable a"
  by (induction rule: reachable.induct) (auto intro: reachable_init reachable_step elim: typed_trans.cases)

lemma commits_data: "am_data (commits a) = am_data a" "am_dataFor (commits a) = am_dataFor a"
  by (simp_all add: commits_def admin_commit_def section_effect_def admin_load_effect_def Let_def)

lemma rows_typed_commits: "rows_typed (commits a) = rows_typed a"
  by (simp add: rows_typed_def commits_data)

lemma rows_typed_same: "rows_typed a \<Longrightarrow> am_data b = am_data a \<Longrightarrow> am_dataFor b = am_dataFor a \<Longrightarrow> rows_typed b"
  by (simp add: rows_typed_def)

lemma rows_typed_answer:
  assumes "rows_typed a" and "typed_answer (Page_answer i q r)"
  shows "rows_typed (page_answer i q r a)"
proof (cases r)
  case (Inr d)
  then show ?thesis using assms by (simp add: page_answer_def load_done_def rows_typed_def Let_def)
qed (use assms(1) in \<open>simp add: page_answer_def load_failed_def rows_typed_def Let_def\<close>)

lemma data_kept:
  assumes "\<And>i q r. ev \<noteq> Page_answer i q r"
  shows "am_data (admin_step ev a) = am_data a \<and> am_dataFor (admin_step ev a) = am_dataFor a"
proof (cases ev)
  case (Page_answer i q r)
  then show ?thesis using assms by blast
qed (simp_all add: admin_commit_def section_effect_def admin_load_effect_def reload_def stats_answer_def
      load_failed_def load_done_def action_def action_answer_def beginUpload_def upload_settled_def submit_def submit_answer_def
      Let_def split: sum.splits option.splits)

lemma rows_typed_step:
  assumes "rows_typed a" and "typed_answer ev"
  shows "rows_typed (admin_step ev a)"
proof (cases "\<exists>i q r. ev = Page_answer i q r")
  case True
  then show ?thesis using assms rows_typed_answer by auto
next
  case False
  then show ?thesis using data_kept [of ev a] rows_typed_same [OF assms(1)] by blast
qed

interpretation typed_inv: invariant_system admin_init typed_trans rows_typed
proof unfold_locales
  show "admin_init a \<Longrightarrow> rows_typed a" for a
    by (simp add: admin_init_def rows_typed_commits) (simp add: newAdmin_def rows_typed_def)
  show "rows_typed a \<Longrightarrow> typed_trans a ev a' \<Longrightarrow> rows_typed a'" for a ev a'
    by (auto elim!: typed_trans.cases admin_transE simp: rows_typed_commits rows_typed_step simp del: admin_step.simps)
qed

text \<open>
  C33. The casts of the rows are sound unless a load has failed: if the server answers every query with
  resources of the kind asked for, then every row that is shown on a permitted page which is not loading is of the
  kind of the section it was asked for; and unless the error of a failed load is set, that is the selected section, so
  the row is of the kind its section treats it as: its label and its owner or name are there, and the
  button that deletes it addresses the kind of resource it is.
\<close>

theorem rows_are_typed:
  assumes "typed_reachable a" and "am_allowed a" and "\<not> am_busy a" and "am_section a \<noteq> Overview"
    and "item \<in> set (items (am_data a))"
  shows "(\<exists>q. am_dataFor a = Some q \<and> kind_of item = q_section q) \<and>
         (am_loadError a = None \<longrightarrow>
            am_dataFor a = Some (query_of a) \<and> kind_of item = am_section a \<and> row_label (am_section a) item \<noteq> None \<and>
            (am_section a = Users \<longrightarrow> as_role item \<noteq> None \<and> as_nickname item \<noteq> None) \<and>
            (am_section a \<noteq> Users \<longrightarrow> as_owner item \<noteq> None \<and> as_status item \<noteq> None) \<and>
            delete_path (am_section a) item = ''/api/v1/admin/'' @ section_path (kind_of item) @ ''/'' @ item_id item)"
proof -
  have typed: "rows_typed a" by (rule typed_inv.inv_reachable [OF assms(1)])
  have "am_dataFor a = Some (query_of a) \<and> kind_of item = am_section a" if "am_loadError a = None"
    using shown_answers [OF typed_is_reachable [OF assms(1)] assms(2,3) that assms(4)] typed assms(5)
    by (simp add: rows_typed_def query_of_def)
  moreover have "\<exists>q. am_dataFor a = Some q \<and> kind_of item = q_section q"
    using typed assms(5) by (cases "am_dataFor a") (auto simp: rows_typed_def)
  ultimately show ?thesis by (cases item) (auto simp: row_label_def delete_path_def)
qed

lemma typed_run: "typed_reachable a \<Longrightarrow> list_all honest_answer evs \<Longrightarrow> list_all typed_answer evs \<Longrightarrow> typed_reachable (admin_run evs a)"
  by (induction evs a rule: admin_run.induct)
    (auto intro: reachable_step typed_trans admin_trans simp del: honest_answer.simps typed_answer.simps admin_step.simps)

theorem rows_are_typed_witness: "kind_of (hd (items (am_data demo_admin))) = Rooms"
proof -
  have "list_all honest_answer demo_admin_events" by (simp add: demo_admin_events_def demo_rooms_def)
  moreover have "list_all typed_answer demo_admin_events" by (simp add: demo_admin_events_def demo_rooms_def rooms_query_def)
  ultimately have "typed_reachable demo_admin"
    unfolding demo_admin_def by (intro typed_run reachable_init) (auto simp: admin_init_def)
  then show ?thesis using rows_are_typed [of demo_admin] demo_admin_facts by (simp add: demo_rooms_def)
qed

section \<open>What the editor saves\<close>

lemma super_disabled: "is_super ed \<Longrightarrow> ef_disabled (fold (form_step ed) evs f) = ef_disabled f"
proof (induction evs arbitrary: f)
  case (Cons ev evs)
  then show ?case by (cases ev) simp_all
qed simp

text \<open>
  What the editor saves: a new resource is posted to the collection of its kind and an existing one
  patched at its own path; of a user's password nothing is sent unless something was typed, so saving
  without typing keeps it; whatever is done to the form, the account of a super administrator is saved
  as enabled or disabled as it was; and a form that nobody has touched saves the user's data unchanged.
\<close>

theorem editor_saves:
  "editor_request ed = (case ed_item ed of
       None \<Rightarrow> (''/api/v1/admin/'' @ section_path (ed_kind ed), ''POST'')
     | Some item \<Rightarrow> (''/api/v1/admin/'' @ section_path (ed_kind ed) @ ''/'' @ item_id item, ''PATCH'')) \<and>
   (ed_kind ed = Users \<longrightarrow>
      jget ''password'' (editor_body ed f) = (if ef_password f = [] then None else Some (JStr (ef_password f)))) \<and>
   (ed_kind ed = Users \<and> is_super ed \<longrightarrow>
      jget ''disabled'' (editor_body ed (fold (form_step ed) evs (newForm ed))) = Some (JBool (ef_disabled (newForm ed)))) \<and>
   (ed = \<lparr>ed_kind = Users, ed_item = Some (Res_user u)\<rparr> \<longrightarrow>
      editor_body ed (newForm ed) =
        JObj [(''username'', JStr (us_username u)), (''nickname'', JStr (us_nickname u)), (''disabled'', JBool (us_disabled u))])"
  using super_disabled [of ed evs "newForm ed"]
  by (auto simp: editor_request_def editor_body_def newForm_def child_def split: option.splits)

definition demo_super :: Editor where
  "demo_super = \<lparr>ed_kind = Users, ed_item = Some (Res_user \<lparr>us_id = ''u'', us_username = ''root'', us_nickname = ''Root'',
     us_role = SUPER_ADMIN, us_disabled = False, us_createdAtMs = 0, roomCount = None, mediaCount = None\<rparr>)\<rparr>"

theorem editor_saves_witness:
  "jget ''disabled'' (editor_body demo_super (fold (form_step demo_super) [Switch_disabled True] (newForm demo_super))) = Some (JBool False)"
proof -
  have "is_super demo_super" "ed_kind demo_super = Users" "\<not> ef_disabled (newForm demo_super)" by code_simp+
  then show ?thesis using editor_saves [of demo_super _ "[Switch_disabled True]"] by simp
qed

end
