(* ===== verification/Session.thy ===== *)
theory Session
  imports Types ApiClient
begin

text \<open>
  Who is signed in: \<open>web/src/auth/AuthContext.tsx\<close>, the sign-in page \<open>web/src/pages/AuthPage.tsx\<close>, the
  invitation page \<open>web/src/pages/InvitePage.tsx\<close> and the sign-out button of \<open>web/src/components/Layout.tsx\<close>.
  The provider lives as long as the application; of each page there is one mounted instance. Requests
  are answered in any order; a form may be submitted again while an answer is outstanding, since only its
  button says otherwise. What a call of \<open>refresh\<close> is awaited for is kept with the call.
\<close>

section \<open>Percent encoding\<close>

text \<open>\<open>encodeURIComponent\<close> on UTF-8 text: letters, digits and the nine marks stay, every other byte is
  escaped with two upper-case digits.\<close>

definition unreserved :: "char \<Rightarrow> bool" where
  "unreserved c \<longleftrightarrow>
     (let n = of_char c :: nat
      in 48 \<le> n \<and> n \<le> 57 \<or> 65 \<le> n \<and> n \<le> 90 \<or> 97 \<le> n \<and> n \<le> 122 \<or>
         n \<in> {45, 95, 46, 33, 126, 42, 39, 40, 41})"

definition hexdigit :: "nat \<Rightarrow> char" where
  "hexdigit d = char_of (if d < 10 then 48 + d else 55 + d)"

definition escape :: "char \<Rightarrow> string" where
  "escape c = [CHR ''%'', hexdigit ((of_char c :: nat) div 16), hexdigit ((of_char c :: nat) mod 16)]"

definition encode_char :: "char \<Rightarrow> string" where
  "encode_char c = (if unreserved c then [c] else escape c)"

definition encodeURIComponent :: "string \<Rightarrow> string" where
  "encodeURIComponent s = concat (map encode_char s)"

text \<open>Well-formed UTF-8: what a JavaScript string without lone surrogates is as bytes.\<close>

function utf8 :: "string \<Rightarrow> bool" where
  "utf8 [] = True"
| "utf8 (c # cs) =
     (let n = utf8_tail (of_char c)
      in n \<le> length cs \<and> utf8_ok (of_char c) (map of_char (take n cs)) \<and> utf8 (drop n cs))"
  by pat_completeness auto
termination by (relation "measure length") auto

section \<open>The session\<close>

datatype form_error = No_text | Message string | Failed_text | Undefined_text

text \<open>What awaits a call of \<open>refresh\<close>: nothing, the sign-in page, or the invitation page with the answer
  to the join, whose \<open>code\<close> is read afterwards (\<^term>\<open>None\<close>: the answer was empty).\<close>

datatype after_refresh = Nothing_after | Login_after | Join_after "string option"

datatype session_request =
    Get_me
  | Post_logout
  | Post_login string string
  | Get_info string
  | Post_join string "string option"

record InviteInfo =
  roomCode :: string
  roomTitle :: string

text \<open>\<open>au_pending\<close> are the calls of \<open>refresh\<close> that wait for their answer, \<open>au_logouts\<close>, \<open>ap_calls\<close>, \<open>iv_joins\<close> and
  \<open>iv_asked\<close> the other requests that do; \<open>ss_nav\<close> are the navigations and \<open>ss_out\<close> the requests made.\<close>

record Session =
  au_identity :: "Identity option"
  au_loading :: bool
  au_next :: nat
  au_pending :: "(nat \<times> after_refresh) list"
  au_logouts :: nat
  ap_error :: form_error
  ap_busy :: bool
  ap_calls :: nat
  iv_token :: "string option"
  iv_asked :: nat
  iv_info :: "InviteInfo option"
  iv_error :: form_error
  iv_joining :: bool
  iv_joins :: nat
  ss_nav :: "string list"
  ss_out :: "session_request list"

definition newSession_state :: Session where
  "newSession_state = \<lparr>au_identity = None, au_loading = True, au_next = 0, au_pending = [], au_logouts = 0,
     ap_error = No_text, ap_busy = False, ap_calls = 0, iv_token = None, iv_asked = 0, iv_info = None,
     iv_error = No_text, iv_joining = False, iv_joins = 0, ss_nav = [], ss_out = []\<rparr>"

definition ask :: "session_request \<Rightarrow> Session \<Rightarrow> Session" where
  "ask q s = s\<lparr>ss_out := ss_out s @ [q]\<rparr>"

definition nav :: "string \<Rightarrow> Session \<Rightarrow> Session" where
  "nav p s = s\<lparr>ss_nav := ss_nav s @ [p]\<rparr>"

section \<open>AuthContext\<close>

definition refresh :: "after_refresh \<Rightarrow> Session \<Rightarrow> Session" where
  "refresh aft s = ask Get_me (s\<lparr>au_next := Suc (au_next s), au_pending := au_pending s @ [(au_next s, aft)]\<rparr>)"

text \<open>The provider's effect runs once.\<close>

definition provider_mount :: "Session \<Rightarrow> Session" where
  "provider_mount s = refresh Nothing_after s"

text \<open>What goes on after the \<open>await\<close>, on either page.\<close>

fun after :: "after_refresh \<Rightarrow> Session \<Rightarrow> Session" where
  "after Nothing_after s = s"
| "after Login_after s = (nav ''/'' s)\<lparr>ap_busy := False\<rparr>"
| "after (Join_after (Some code)) s = (nav (''/room/'' @ code) s)\<lparr>iv_joining := False\<rparr>"
| "after (Join_after None) s = s\<lparr>iv_error := Undefined_text, iv_joining := False\<rparr>"

text \<open>The answer to call \<open>k\<close>: the identity, or \<^term>\<open>None\<close> if the request failed.\<close>

definition me_answer :: "nat \<Rightarrow> Identity option \<Rightarrow> Session \<Rightarrow> Session" where
  "me_answer k i s =
     (case map_of (au_pending s) k of
        None \<Rightarrow> s
      | Some aft \<Rightarrow>
          after aft (s\<lparr>au_identity := i, au_loading := False, au_pending := filter (\<lambda>x. fst x \<noteq> k) (au_pending s)\<rparr>))"

definition logout :: "Session \<Rightarrow> Session" where
  "logout s = ask Post_logout (s\<lparr>au_logouts := Suc (au_logouts s)\<rparr>)"

text \<open>A refused sign-out is an unhandled rejection: nothing happens.\<close>

definition logout_answer :: "bool \<Rightarrow> Session \<Rightarrow> Session" where
  "logout_answer accepted s =
     (if au_logouts s = 0 then s
      else let s1 = s\<lparr>au_logouts := au_logouts s - 1\<rparr>
           in if accepted then nav ''/login'' (s1\<lparr>au_identity := None\<rparr>) else s1)"

section \<open>AuthPage\<close>

definition submit_login :: "string \<Rightarrow> string \<Rightarrow> Session \<Rightarrow> Session" where
  "submit_login username password s =
     ask (Post_login username password) (s\<lparr>ap_busy := True, ap_error := No_text, ap_calls := Suc (ap_calls s)\<rparr>)"

text \<open>\<open>Inl None\<close> is something thrown that is not an \<open>Error\<close>.\<close>

definition login_answer :: "string option + unit \<Rightarrow> Session \<Rightarrow> Session" where
  "login_answer r s =
     (if ap_calls s = 0 then s
      else let s1 = s\<lparr>ap_calls := ap_calls s - 1\<rparr>
           in case r of
                Inl e \<Rightarrow> s1\<lparr>ap_error := (case e of Some m \<Rightarrow> Message m | None \<Rightarrow> Failed_text), ap_busy := False\<rparr>
              | Inr _ \<Rightarrow> refresh Login_after s1)"

section \<open>InvitePage\<close>

text \<open>The effect on the token of the route.\<close>

definition info_effect :: "string \<Rightarrow> Session \<Rightarrow> Session" where
  "info_effect token s =
     (if iv_token s = Some token then s
      else ask (Get_info (''/api/v1/invites/'' @ encodeURIComponent token @ ''/info''))
             (s\<lparr>iv_token := Some token, iv_asked := Suc (iv_asked s)\<rparr>))"

definition info_answer :: "string + InviteInfo \<Rightarrow> Session \<Rightarrow> Session" where
  "info_answer r s =
     (if iv_asked s = 0 then s
      else let s1 = s\<lparr>iv_asked := iv_asked s - 1\<rparr>
           in case r of Inl m \<Rightarrow> s1\<lparr>iv_error := Message m\<rparr> | Inr i \<Rightarrow> s1\<lparr>iv_info := Some i\<rparr>)"

text \<open>The nickname field is only there for a visitor without identity.\<close>

definition nickname_of :: "string \<Rightarrow> Session \<Rightarrow> string option" where
  "nickname_of typed s = (if au_identity s = None then Some typed else None)"

text \<open>The form can only be submitted once the invitation's description is there; the step does not ask for
  it, so it allows a little more than the page.\<close>

definition join_room :: "string \<Rightarrow> Session \<Rightarrow> Session" where
  "join_room typed s =
     (case iv_token s of
        None \<Rightarrow> s
      | Some token \<Rightarrow>
          ask (Post_join (''/api/v1/invites/'' @ encodeURIComponent token @ ''/join'') (nickname_of typed s))
            (s\<lparr>iv_joining := True, iv_joins := Suc (iv_joins s)\<rparr>))"

definition join_answer :: "string + string option \<Rightarrow> Session \<Rightarrow> Session" where
  "join_answer r s =
     (if iv_joins s = 0 then s
      else let s1 = s\<lparr>iv_joins := iv_joins s - 1\<rparr>
           in case r of
                Inl m \<Rightarrow> s1\<lparr>iv_error := Message m, iv_joining := False\<rparr>
              | Inr room \<Rightarrow> refresh (Join_after room) s1)"

section \<open>Steps\<close>

datatype session_event =
    Me_answer nat "Identity option"
  | Logout
  | Logout_answer bool
  | Submit_login string string
  | Login_answer "string option + unit"
  | Invite_token string
  | Info_answer "string + InviteInfo"
  | Join_room string
  | Join_answer "string + string option"

fun session_step :: "session_event \<Rightarrow> Session \<Rightarrow> Session" where
  "session_step (Me_answer k i) s = me_answer k i s"
| "session_step Logout s = logout s"
| "session_step (Logout_answer ok) s = logout_answer ok s"
| "session_step (Submit_login u p) s = submit_login u p s"
| "session_step (Login_answer r) s = login_answer r s"
| "session_step (Invite_token t) s = info_effect t s"
| "session_step (Info_answer r) s = info_answer r s"
| "session_step (Join_room n) s = join_room n s"
| "session_step (Join_answer r) s = join_answer r s"

inductive session_trans :: "Session \<Rightarrow> session_event \<Rightarrow> Session \<Rightarrow> bool" where
  session_trans: "session_trans s ev (session_step ev s)"

definition session_init :: "Session \<Rightarrow> bool" where
  "session_init s \<longleftrightarrow> s = provider_mount newSession_state"

abbreviation session_reachable :: "Session \<Rightarrow> bool" where
  "session_reachable \<equiv> reachable session_init session_trans"

lemma session_reachable_run: "session_reachable s \<Longrightarrow> session_reachable (fold session_step evs s)"
  by (induction evs arbitrary: s) (auto intro: reachable_step session_trans simp del: session_step.simps)

section \<open>The token of an invitation\<close>

lemma of_char_less: "(of_char c :: nat) < 256"
  by (metis of_char_mod_256 mod_less_divisor zero_less_numeral)

lemma of_char_div: "(of_char c :: nat) div 16 < 16"
  using of_char_less [of c] by (intro less_mult_imp_div_less) simp

lemma hexval_hexdigit: "d < 16 \<Longrightarrow> hexval (hexdigit d) = Some d"
  by (simp add: hexval_def hexdigit_def Let_def)

lemma read_escape_escape: "read_escape (escape c @ r) = Some (of_char c, r)"
  by (simp add: escape_def hexval_hexdigit of_char_div)

lemma encode_append: "encodeURIComponent (xs @ ys) = encodeURIComponent xs @ encodeURIComponent ys"
  by (simp add: encodeURIComponent_def)

lemma encode_Cons: "encodeURIComponent (c # cs) = encode_char c @ encodeURIComponent cs"
  by (simp add: encodeURIComponent_def)

lemma read_escapes_encode:
  "\<forall>c \<in> set xs. \<not> unreserved c \<Longrightarrow> read_escapes (length xs) (encodeURIComponent xs @ r) = Some (map of_char xs, r)"
  by (induction xs) (simp_all add: encodeURIComponent_def encode_char_def read_escape_escape)

lemma unreserved_ascii: "unreserved c \<Longrightarrow> (of_char c :: nat) < 128 \<and> c \<noteq> CHR ''%''"
  by (auto simp: unreserved_def Let_def)

lemma decode_escape:
  assumes "\<not> unreserved c" and "utf8_ok (of_char c) (map of_char xs)" and "length xs = utf8_tail (of_char c)"
  shows "decodeURIComponent (encode_char c @ encodeURIComponent xs @ r) = map_option (\<lambda>t. c # xs @ t) (decodeURIComponent r)"
proof -
  have "\<not> unreserved x" if "x \<in> set xs" for x
    using assms(2) that unreserved_ascii [of x] by (auto simp: utf8_ok_def list_all_iff)
  then have tail: "read_escapes (utf8_tail (of_char c)) (encodeURIComponent xs @ r) = Some (map of_char xs, r)"
    using read_escapes_encode [of xs r] assms(3) by simp
  obtain h l where e: "escape c = CHR ''%'' # h # [l]" by (simp add: escape_def)
  have head: "read_escape (CHR ''%'' # h # l # encodeURIComponent xs @ r) = Some (of_char c, encodeURIComponent xs @ r)"
    using read_escape_escape [of c "encodeURIComponent xs @ r"] by (simp only: e append.simps)
  have "decodeURIComponent (CHR ''%'' # h # l # encodeURIComponent xs @ r) =
        map_option (\<lambda>t. map char_of ((of_char c :: nat) # map of_char xs) @ t) (decodeURIComponent r)"
    using assms(2) by (subst decodeURIComponent.simps(2)) (simp only: head tail option.case prod.case simp_thms if_True if_False)
  then show ?thesis using assms(1) e by (simp add: encode_char_def comp_def)
qed

lemma decode_encode: "utf8 s \<Longrightarrow> decodeURIComponent (encodeURIComponent s) = Some s"
proof (induction s rule: utf8.induct)
  case (2 c cs)
  let ?n = "utf8_tail (of_char c)"
  have ok: "?n \<le> length cs" "utf8_ok (of_char c) (map of_char (take ?n cs))" "utf8 (drop ?n cs)"
    using 2(2) by (simp_all add: Let_def)
  have IH: "decodeURIComponent (encodeURIComponent (drop ?n cs)) = Some (drop ?n cs)" using 2(1) ok(3) by simp
  show ?case
  proof (cases "unreserved c")
    case True
    then have "?n = 0" "c \<noteq> CHR ''%''" using unreserved_ascii by (auto simp: utf8_tail_def)
    then show ?thesis using IH True by (simp add: encode_Cons encode_char_def)
  next
    case False
    have "encodeURIComponent cs = encodeURIComponent (take ?n cs) @ encodeURIComponent (drop ?n cs)"
      by (simp flip: encode_append)
    then show ?thesis using decode_escape [OF False ok(2)] ok(1) IH by (simp add: encode_Cons)
  qed
qed (simp add: encodeURIComponent_def)

lemma encode_chars: "c \<in> set (encodeURIComponent s) \<Longrightarrow> unreserved c \<or> c = CHR ''%''"
proof -
  have "unreserved (hexdigit d)" if "d < 16" for d using that by (simp add: unreserved_def hexdigit_def Let_def)
  moreover have "(of_char x :: nat) div 16 < 16" for x by (rule of_char_div)
  moreover assume "c \<in> set (encodeURIComponent s)"
  ultimately show ?thesis by (auto simp: encodeURIComponent_def encode_char_def escape_def split: if_splits)
qed

text \<open>
  C24. The token of an invitation reaches the server unchanged: what the page puts into the path stays one
  segment of it (no slash, question mark or number sign), and decoding the segment gives the token of the
  link back, for every well-formed text.
\<close>

theorem invite_token_roundtrip:
  assumes "utf8 token" and "iv_token s = Some token"
  shows "\<exists>seg. ss_out (join_room n s) = ss_out s @ [Post_join (''/api/v1/invites/'' @ seg @ ''/join'') (nickname_of n s)] \<and>
               set seg \<inter> set ''/?#'' = {} \<and> decodeURIComponent seg = Some token"
proof (intro exI conjI)
  let ?seg = "encodeURIComponent token"
  show "ss_out (join_room n s) = ss_out s @ [Post_join (''/api/v1/invites/'' @ ?seg @ ''/join'') (nickname_of n s)]"
    by (simp add: join_room_def ask_def assms(2))
  show "set ?seg \<inter> set ''/?#'' = {}" using encode_chars [of _ token] by (fastforce simp: unreserved_def Let_def)
  show "decodeURIComponent ?seg = Some token" by (rule decode_encode [OF assms(1)])
qed

theorem invite_token_roundtrip_witness:
  "\<exists>seg. ss_out (join_room ''Ada'' (newSession_state\<lparr>iv_token := Some ''a/b?c''\<rparr>)) =
           [Post_join (''/api/v1/invites/'' @ seg @ ''/join'') (Some ''Ada'')] \<and>
         set seg \<inter> set ''/?#'' = {} \<and> decodeURIComponent seg = Some ''a/b?c''"
proof -
  have "utf8 ''a/b?c''" by code_simp
  then show ?thesis
    using invite_token_roundtrip [of "''a/b?c''" "newSession_state\<lparr>iv_token := Some ''a/b?c''\<rparr>" "''Ada''"]
    by (simp add: newSession_state_def nickname_of_def)
qed

section \<open>Indicators\<close>

text \<open>The calls are numbered apart, and an indicator is on only while a request that will put it out is
  outstanding.\<close>

definition session_ok :: "Session \<Rightarrow> bool" where
  "session_ok s \<longleftrightarrow>
     distinct (map fst (au_pending s)) \<and> (\<forall>x \<in> set (au_pending s). fst x < au_next s) \<and>
     (au_loading s \<longrightarrow> au_pending s \<noteq> []) \<and>
     (ap_busy s \<longrightarrow> 0 < ap_calls s \<or> Login_after \<in> snd ` set (au_pending s)) \<and>
     (iv_joining s \<longrightarrow> 0 < iv_joins s \<or> (\<exists>r. Join_after r \<in> snd ` set (au_pending s)))"

lemma session_ok_ask [simp]: "session_ok (ask q s) = session_ok s"
  by (simp add: session_ok_def ask_def)

lemma session_ok_refresh:
  assumes "distinct (map fst (au_pending s)) \<and> (\<forall>x \<in> set (au_pending s). fst x < au_next s)"
    and "ap_busy s \<longrightarrow> aft = Login_after \<or> 0 < ap_calls s \<or> Login_after \<in> snd ` set (au_pending s)"
    and "iv_joining s \<longrightarrow> (\<exists>r. aft = Join_after r) \<or> 0 < iv_joins s \<or> (\<exists>r. Join_after r \<in> snd ` set (au_pending s))"
  shows "session_ok (refresh aft s)"
  using assms by (auto simp: session_ok_def refresh_def ask_def less_Suc_eq)

lemma after_join:
  "after (Join_after r) s =
     (case r of Some code \<Rightarrow> (nav (''/room/'' @ code) s)\<lparr>iv_joining := False\<rparr>
      | None \<Rightarrow> s\<lparr>iv_error := Undefined_text, iv_joining := False\<rparr>)"
  by (cases r) simp_all

lemma session_ok_after:
  assumes "distinct (map fst (au_pending s)) \<and> (\<forall>x \<in> set (au_pending s). fst x < au_next s)" and "\<not> au_loading s"
    and "ap_busy s \<longrightarrow> 0 < ap_calls s \<or> aft = Login_after \<or> Login_after \<in> snd ` set (au_pending s)"
    and "iv_joining s \<longrightarrow> 0 < iv_joins s \<or> (\<exists>r. aft = Join_after r) \<or> (\<exists>r. Join_after r \<in> snd ` set (au_pending s))"
  shows "session_ok (after aft s)"
  using assms by (cases aft) (simp_all add: session_ok_def nav_def after_join split: option.splits)

lemma session_ok_answer:
  assumes "session_ok s"
  shows "session_ok (me_answer k i s)"
proof (cases "map_of (au_pending s) k")
  case None
  then show ?thesis using assms by (simp add: me_answer_def)
next
  case (Some aft)
  let ?p = "filter (\<lambda>x. fst x \<noteq> k) (au_pending s)"
  have d: "distinct (map fst (au_pending s))" using assms by (simp add: session_ok_def)
  have others: "v = aft \<or> v \<in> snd ` set ?p" if v: "v \<in> snd ` set (au_pending s)" for v
  proof -
    obtain j where j: "(j, v) \<in> set (au_pending s)" using v by auto
    show ?thesis
    proof (cases "j = k")
      case True
      then show ?thesis using map_of_is_SomeI [OF d j] Some by simp
    next
      case False
      then have "(j, v) \<in> set ?p" using j by simp
      then show ?thesis by (metis image_eqI snd_conv)
    qed
  qed
  define q where "q = ?p"
  have busy: "ap_busy s \<longrightarrow> 0 < ap_calls s \<or> aft = Login_after \<or> Login_after \<in> snd ` set q"
    using assms others [of Login_after] unfolding session_ok_def q_def by blast
  have joining: "iv_joining s \<longrightarrow> 0 < iv_joins s \<or> (\<exists>r. aft = Join_after r) \<or> (\<exists>r. Join_after r \<in> snd ` set q)"
    using assms others unfolding session_ok_def q_def by metis
  have "distinct (map fst q) \<and> (\<forall>x \<in> set q. fst x < au_next s)"
    using assms by (simp add: session_ok_def distinct_map_filter q_def)
  then have "session_ok (after aft (s\<lparr>au_identity := i, au_loading := False, au_pending := q\<rparr>))"
    using busy joining by (intro session_ok_after) simp_all
  then show ?thesis using Some by (simp add: me_answer_def q_def)
qed

lemma session_ok_step:
  assumes "session_ok s"
  shows "session_ok (session_step ev s)"
proof (cases ev)
  case (Login_answer r)
  show ?thesis
  proof (cases r)
    case (Inr u)
    have "session_ok (refresh Login_after (s\<lparr>ap_calls := ap_calls s - 1\<rparr>))"
      by (rule session_ok_refresh) (use assms in \<open>simp_all add: session_ok_def\<close>)
    then show ?thesis using Login_answer Inr assms by (simp add: login_answer_def)
  qed (use Login_answer assms in \<open>auto simp: login_answer_def session_ok_def Let_def\<close>)
next
  case (Join_answer r)
  show ?thesis
  proof (cases r)
    case (Inr u)
    have "session_ok (refresh (Join_after u) (s\<lparr>iv_joins := iv_joins s - 1\<rparr>))"
      by (rule session_ok_refresh) (use assms in \<open>simp_all add: session_ok_def\<close>)
    then show ?thesis using Join_answer Inr assms by (simp add: join_answer_def)
  qed (use Join_answer assms in \<open>auto simp: join_answer_def session_ok_def Let_def\<close>)
qed (use assms in \<open>simp_all add: session_ok_answer\<close>,
     simp_all add: session_ok_def logout_def logout_answer_def submit_login_def info_effect_def info_answer_def join_room_def
       nav_def ask_def Let_def split: sum.splits option.splits)

interpretation session_inv: invariant_system session_init session_trans session_ok
proof unfold_locales
  show "session_ok s" if "session_init s" for s
    using that by (simp add: session_init_def provider_mount_def newSession_state_def refresh_def ask_def session_ok_def)
  show "session_ok s'" if "session_ok s" "session_trans s ev s'" for s ev s'
    using that session_ok_step by (auto elim: session_trans.cases)
qed

text \<open>
  No indicator of the session is left on: whatever is submitted, however often and however the answers
  are ordered, once every request has been answered the application is not loading, neither form shows
  that it is busy, and no call of \<open>refresh\<close> is counted twice.
\<close>

theorem indicators_end:
  assumes "session_reachable s"
  shows "(au_pending s = [] \<longrightarrow> \<not> au_loading s) \<and>
         (au_pending s = [] \<and> ap_calls s = 0 \<longrightarrow> \<not> ap_busy s) \<and>
         (au_pending s = [] \<and> iv_joins s = 0 \<longrightarrow> \<not> iv_joining s) \<and>
         distinct (map fst (au_pending s))"
  using session_inv.inv_reachable [OF assms] by (auto simp: session_ok_def)

definition demo_me :: Identity where
  "demo_me = \<lparr>id_role = Some USER, id_username = Some ''ada'', id_id = ''u1'', id_nickname = ''Ada'', id_roomId = None, id_guest = False\<rparr>"

theorem indicators_end_witness:
  "\<not> ap_busy (fold session_step [Submit_login ''ada'' ''p'', Me_answer 0 None, Login_answer (Inr ()), Me_answer 1 (Some demo_me)]
     (provider_mount newSession_state))"
proof -
  let ?s = "fold session_step [Submit_login ''ada'' ''p'', Me_answer 0 None, Login_answer (Inr ()), Me_answer 1 (Some demo_me)]
     (provider_mount newSession_state)"
  have "session_reachable ?s" by (intro session_reachable_run reachable_init) (simp add: session_init_def)
  moreover have "au_pending ?s = []" "ap_calls ?s = 0" by code_simp+
  ultimately show ?thesis using indicators_end by blast
qed

section \<open>Signing in and out\<close>

lemma next_is_new: "session_ok s \<Longrightarrow> map_of (au_pending s @ [(au_next s, aft)]) (au_next s) = Some aft"
  by (auto simp: session_ok_def map_add_def map_of_eq_None_iff split: option.splits dest!: map_of_SomeD)

lemma others_stay: "session_ok s \<Longrightarrow> filter (\<lambda>x. fst x \<noteq> au_next s) (au_pending s) = au_pending s"
  by (auto simp: session_ok_def intro!: filter_True)

text \<open>What an accepted sign-in leaves behind, once its own call of \<open>refresh\<close> is answered.\<close>

definition sign_in :: "string \<Rightarrow> string \<Rightarrow> Identity \<Rightarrow> Session \<Rightarrow> Session" where
  "sign_in u p i s = fold session_step [Submit_login u p, Login_answer (Inr ()), Me_answer (au_next s) (Some i)] s"

lemma sign_in_eq:
  assumes "session_ok s"
  shows "sign_in u p i s = s\<lparr>au_identity := Some i, au_loading := False, au_next := Suc (au_next s), ap_error := No_text,
    ap_busy := False, ss_nav := ss_nav s @ [''/''], ss_out := ss_out s @ [Post_login u p, Get_me]\<rparr>"
  using next_is_new [OF assms, of Login_after] others_stay [OF assms]
  by (simp add: sign_in_def submit_login_def login_answer_def refresh_def me_answer_def ask_def nav_def)

text \<open>
  C22. Signing in and joining work: from every reachable session, an accepted sign-in whose call of
  \<open>refresh\<close> is answered with an identity leaves that identity in force, ends loading, clears the error and
  the busy sign and goes to the home page; a refused one shows why, is no longer busy, changes neither the identity
  nor the page and asks nothing more. With an invitation open, an accepted joining goes to its room with the identity
  that was answered, while a refused one shows why and changes neither the identity nor the page.
\<close>

theorem sign_in_and_join:
  assumes "session_reachable s"
  shows "(let t = sign_in u p i s
          in au_identity t = Some i \<and> \<not> au_loading t \<and> \<not> ap_busy t \<and> ap_error t = No_text \<and> ss_nav t = ss_nav s @ [''/'']) \<and>
         (let t = fold session_step [Submit_login u p, Login_answer (Inl er)] s
          in ap_error t = (case er of Some msg \<Rightarrow> Message msg | None \<Rightarrow> Failed_text) \<and> \<not> ap_busy t \<and>
             au_identity t = au_identity s \<and> ss_nav t = ss_nav s \<and> ss_out t = ss_out s @ [Post_login u p]) \<and>
         (iv_token s \<noteq> None \<longrightarrow>
           (let t = fold session_step [Join_room n, Join_answer (Inr (Some code)), Me_answer (au_next s) (Some i)] s
            in au_identity t = Some i \<and> \<not> au_loading t \<and> \<not> iv_joining t \<and> ss_nav t = ss_nav s @ [''/room/'' @ code]) \<and>
           (let t = fold session_step [Join_room n, Join_answer (Inl m)] s
            in au_identity t = au_identity s \<and> iv_error t = Message m \<and> \<not> iv_joining t \<and> ss_nav t = ss_nav s))"
proof -
  have ok: "session_ok s" by (rule session_inv.inv_reachable [OF assms])
  have refused: "fold session_step [Submit_login u p, Login_answer (Inl er)] s =
      s\<lparr>ap_error := (case er of Some msg \<Rightarrow> Message msg | None \<Rightarrow> Failed_text), ap_busy := False, ss_out := ss_out s @ [Post_login u p]\<rparr>"
    by (simp add: submit_login_def login_answer_def ask_def)
  have joined: "let t = fold session_step [Join_room n, Join_answer (Inr (Some code)), Me_answer (au_next s) (Some i)] s
      in au_identity t = Some i \<and> \<not> au_loading t \<and> \<not> iv_joining t \<and> ss_nav t = ss_nav s @ [''/room/'' @ code]"
    if "iv_token s = Some token" for token
    using next_is_new [OF ok, of "Join_after (Some code)"]
    by (simp add: join_room_def that join_answer_def refresh_def me_answer_def ask_def nav_def)
  have turned_away: "let t = fold session_step [Join_room n, Join_answer (Inl m)] s
      in au_identity t = au_identity s \<and> iv_error t = Message m \<and> \<not> iv_joining t \<and> ss_nav t = ss_nav s"
    if "iv_token s = Some token" for token
    by (simp add: join_room_def that join_answer_def ask_def)
  have "iv_token s \<noteq> None \<Longrightarrow> \<exists>token. iv_token s = Some token" by blast
  then show ?thesis
    apply (intro conjI impI)
    subgoal by (simp add: sign_in_eq [OF ok])
    subgoal by (subst refused) simp
    using joined turned_away by blast+
qed

theorem sign_in_and_join_witness:
  "(let s = session_step (Invite_token ''t'') (provider_mount newSession_state)
    in au_identity (fold session_step [Join_room ''Ada'', Join_answer (Inr (Some ''ROOM'')), Me_answer (au_next s) (Some demo_me)] s) = Some demo_me) \<and>
   ap_error (fold session_step [Submit_login ''ada'' ''q'', Login_answer (Inl (Some ''no''))] (provider_mount newSession_state)) = Message ''no''"
proof
  let ?s = "fold session_step [Invite_token ''t''] (provider_mount newSession_state)"
  have "session_reachable ?s" by (intro session_reachable_run reachable_init) (simp add: session_init_def)
  moreover have "iv_token ?s \<noteq> None" by code_simp
  ultimately show "let s = session_step (Invite_token ''t'') (provider_mount newSession_state)
    in au_identity (fold session_step [Join_room ''Ada'', Join_answer (Inr (Some ''ROOM'')), Me_answer (au_next s) (Some demo_me)] s) = Some demo_me"
    using sign_in_and_join [of ?s _ _ demo_me _ "''Ada''" "''ROOM''"] by (simp add: Let_def del: session_step.simps)
next
  have "session_reachable (provider_mount newSession_state)" by (rule reachable_init) (simp add: session_init_def)
  from sign_in_and_join [OF this, of "''ada''" "''q''" demo_me "Some ''no''"]
  show "ap_error (fold session_step [Submit_login ''ada'' ''q'', Login_answer (Inl (Some ''no''))] (provider_mount newSession_state)) = Message ''no''"
    by (simp add: Let_def del: session_step.simps)
qed

text \<open>
  C23. An answer that comes late signs the user out again: while the provider's first question who is
  signed in is still unanswered, a user may sign in and be recognised; when the first question, asked
  before the sign-in, is then answered with a refusal, nobody is signed in any more, although the server
  has accepted the sign-in and nothing was signed out.
\<close>

theorem late_refusal_signs_out:
  assumes "session_reachable s" and "(k, Nothing_after) \<in> set (au_pending s)"
  shows "au_identity (sign_in u p i s) = Some i \<and>
         (let t = session_step (Me_answer k None) (sign_in u p i s)
          in au_identity t = None \<and> \<not> au_loading t \<and> Post_logout \<notin> set (drop (length (ss_out s)) (ss_out t)))"
proof -
  have ok: "session_ok s" by (rule session_inv.inv_reachable [OF assms(1)])
  then have "map_of (au_pending s) k = Some Nothing_after" using assms(2) by (simp add: session_ok_def)
  then show ?thesis by (simp add: sign_in_eq [OF ok] me_answer_def)
qed

theorem late_refusal_signs_out_witness:
  "au_identity (session_step (Me_answer 0 None) (sign_in ''ada'' ''p'' demo_me (provider_mount newSession_state))) = None"
proof -
  have "session_reachable (provider_mount newSession_state)" by (rule reachable_init) (simp add: session_init_def)
  moreover have "(0, Nothing_after) \<in> set (au_pending (provider_mount newSession_state))" by code_simp
  ultimately show ?thesis using late_refusal_signs_out [of _ 0 "''ada''" "''p''" demo_me] by (simp add: Let_def)
qed

end
