(* ===== verification/ChatComposer.thy ===== *)
theory ChatComposer
  imports JS_Prelude
begin

text \<open>
  The draft shared by the two chat inputs, \<open>web/src/realtime/useChatComposer.ts\<close>. The hook's state
  (\<open>draft\<close>, \<open>sending\<close>, \<open>error\<close>) belongs to the mounted page; a \<open>session\<close> is an object made anew for
  every connection, with a flag and a counter that the callbacks change in place. A callback closes
  over the values of the render it was made in: the view below. Text is a list of UTF-16 code units.
\<close>

type_synonym js_string = "nat list"

text \<open>\<open>String.prototype.trim\<close> removes white space and line terminators; only whether anything is left
  matters here.\<close>

definition white_space :: "nat \<Rightarrow> bool" where
  "white_space u \<longleftrightarrow> u \<in> {9, 10, 11, 12, 13, 32, 160, 5760, 8232, 8233, 8239, 8287, 12288, 65279} \<or> 8192 \<le> u \<and> u \<le> 8202"

definition blank :: "js_string \<Rightarrow> bool" where
  "blank s \<longleftrightarrow> list_all white_space s"

record session =
  ss_pending :: bool
  ss_revision :: nat

record view =
  vw_draft :: js_string
  vw_connected :: bool
  vw_session :: nat

text \<open>\<open>sends\<close> are the messages handed to \<open>ws.send\<close>, by session; \<open>inflight\<close> those not yet answered, with
  the revision the callback remembered.\<close>

record Composer =
  draft :: js_string
  sending :: bool
  cp_error :: "js_string option"
  connected :: bool
  current :: nat
  sessions :: "nat \<Rightarrow> session"
  inflight :: "(nat \<times> nat) list"
  sends :: "(nat \<times> js_string) list"

definition newSession :: session where
  "newSession = \<lparr>ss_pending = False, ss_revision = 0\<rparr>"

definition newComposer :: "bool \<Rightarrow> Composer" where
  "newComposer c = \<lparr>draft = [], sending = False, cp_error = None, connected = c, current = 0,
     sessions = (\<lambda>_. newSession), inflight = [], sends = []\<rparr>"

text \<open>A new connection: the next render makes a new session current, and the effect empties the form.\<close>

definition new_connection :: "Composer \<Rightarrow> Composer" where
  "new_connection c = c\<lparr>current := Suc (current c), draft := [], cp_error := None, sending := False\<rparr>"

definition view_of :: "Composer \<Rightarrow> view" where
  "view_of c = \<lparr>vw_draft = draft c, vw_connected = connected c, vw_session = current c\<rparr>"

definition onDraftChange :: "view \<Rightarrow> js_string \<Rightarrow> Composer \<Rightarrow> Composer" where
  "onDraftChange v value c =
     c\<lparr>sessions := (sessions c)(vw_session v :=
         (sessions c (vw_session v))\<lparr>ss_revision := Suc (ss_revision (sessions c (vw_session v)))\<rparr>),
       draft := value, cp_error := None\<rparr>"

definition onSend :: "view \<Rightarrow> Composer \<Rightarrow> Composer" where
  "onSend v c =
     (let s = vw_session v in
      if \<not> vw_connected v \<or> blank (vw_draft v) \<or> ss_pending (sessions c s) \<or> current c \<noteq> s then c
      else c\<lparr>sessions := (sessions c)(s := (sessions c s)\<lparr>ss_pending := True\<rparr>),
             sending := True, cp_error := None,
             inflight := inflight c @ [(s, ss_revision (sessions c s))],
             sends := sends c @ [(s, vw_draft v)]\<rparr>)"

text \<open>The rest of \<open>onSend\<close>, when \<open>ws.send\<close> settles: \<open>None\<close> for the acknowledgement, or the message of
  the error; then \<open>finally\<close>.\<close>

definition send_settled :: "nat \<Rightarrow> nat \<Rightarrow> js_string option \<Rightarrow> Composer \<Rightarrow> Composer" where
  "send_settled s r outcome c =
     (if (s, r) \<notin> set (inflight c) then c
      else
        let c0 = c\<lparr>inflight := remove1 (s, r) (inflight c)\<rparr>;
            c1 = (case outcome of
                    None \<Rightarrow> if current c0 = s \<and> r = ss_revision (sessions c0 s) then c0\<lparr>draft := []\<rparr> else c0
                  | Some msg \<Rightarrow> if current c0 = s then c0\<lparr>cp_error := Some msg\<rparr> else c0);
            c2 = c1\<lparr>sessions := (sessions c1)(s := (sessions c1 s)\<lparr>ss_pending := False\<rparr>)\<rparr>
        in if current c2 = s then c2\<lparr>sending := False\<rparr> else c2)"

datatype composer_event =
    Reconnect
  | Connection bool
  | Type view js_string
  | SendClick view
  | Settled nat nat "js_string option"

fun composer_step :: "composer_event \<Rightarrow> Composer \<Rightarrow> Composer" where
  "composer_step Reconnect c = new_connection c"
| "composer_step (Connection b) c = c\<lparr>connected := b\<rparr>"
| "composer_step (Type v t) c = onDraftChange v t c"
| "composer_step (SendClick v) c = onSend v c"
| "composer_step (Settled s r out) c = send_settled s r out c"

text \<open>A view is one the hook rendered: its session is the current one or an older one.\<close>

fun rendered :: "composer_event \<Rightarrow> Composer \<Rightarrow> bool" where
  "rendered (Type v t) c = (vw_session v \<le> current c)"
| "rendered (SendClick v) c = (vw_session v \<le> current c)"
| "rendered ev c = True"

inductive composer_trans :: "Composer \<Rightarrow> composer_event \<Rightarrow> Composer \<Rightarrow> bool" where
  composer_trans: "rendered ev c \<Longrightarrow> composer_trans c ev (composer_step ev c)"

inductive_cases composer_transE: "composer_trans c ev c'"

definition composer_init :: "Composer \<Rightarrow> bool" where
  "composer_init c \<longleftrightarrow> (\<exists>b. c = newComposer b)"

abbreviation composer_reachable :: "Composer \<Rightarrow> bool" where
  "composer_reachable \<equiv> reachable composer_init composer_trans"

section \<open>One message at a time\<close>

text \<open>A session is marked as sending exactly while one of its messages is under way; the indicator
  shows the current session; revisions remembered are not from the future.\<close>

definition composer_ok :: "Composer \<Rightarrow> bool" where
  "composer_ok c \<longleftrightarrow>
     (\<forall>s. length (filter (\<lambda>x. fst x = s) (inflight c)) = (if ss_pending (sessions c s) then 1 else 0)) \<and>
     sending c = ss_pending (sessions c (current c)) \<and>
     (\<forall>s. current c < s \<longrightarrow> sessions c s = newSession) \<and>
     (\<forall>x \<in> set (inflight c). snd x \<le> ss_revision (sessions c (fst x)))"

lemma under_way: "(s, r) \<in> set xs \<Longrightarrow> 0 < length (filter (\<lambda>x. fst x = s) xs)"
  by (force simp: filter_empty_conv)

lemma filter_remove1_fst:
  "(s, r) \<in> set xs \<Longrightarrow> length (filter (\<lambda>x. fst x = t) (remove1 (s, r) xs)) =
     length (filter (\<lambda>x. fst x = t) xs) - (if s = t then 1 else 0)"
proof (induction xs)
  case (Cons x xs)
  then show ?case using under_way [of s r xs] by auto
qed simp

lemma composer_ok_send: "composer_ok c \<Longrightarrow> composer_ok (onSend v c)"
  by (auto simp: composer_ok_def onSend_def Let_def)

lemma composer_ok_draft: "composer_ok c \<Longrightarrow> vw_session v \<le> current c \<Longrightarrow> composer_ok (onDraftChange v t c)"
  by (auto simp: composer_ok_def onDraftChange_def le_Suc_eq)

lemma composer_ok_settled:
  assumes "composer_ok c"
  shows "composer_ok (send_settled s r out c)"
proof (cases "(s, r) \<in> set (inflight c)")
  case True
  have one: "length (filter (\<lambda>x. fst x = s) (inflight c)) = 1"
  proof -
    have "filter (\<lambda>x. fst x = s) (inflight c) \<noteq> []" using under_way [OF True] by simp
    then show ?thesis using assms by (auto simp: composer_ok_def split: if_splits)
  qed
  define c' where "c' = send_settled s r out c"
  have f: "inflight c' = remove1 (s, r) (inflight c)" "current c' = current c"
    "sessions c' = (sessions c)(s := (sessions c s)\<lparr>ss_pending := False\<rparr>)"
    "sending c' = (if current c = s then False else sending c)"
    using True by (simp_all add: c'_def send_settled_def Let_def split: option.splits)
  have len: "length (filter (\<lambda>x. fst x = t) (inflight c)) = (if ss_pending (sessions c t) then 1 else 0)" for t
    using assms by (simp add: composer_ok_def)
  have pend: "ss_pending (sessions c s)" using len [of s] unfolding one by presburger
  have later: "sessions c t = newSession" if "current c < t" for t
    using assms that by (simp add: composer_ok_def)
  have cur: "s \<le> current c"
  proof (rule ccontr)
    assume "\<not> s \<le> current c"
    with later [of s] pend show False by (simp add: newSession_def)
  qed
  have "length (filter (\<lambda>x. fst x = t) (inflight c')) = (if ss_pending (sessions c' t) then 1 else 0)" for t
    using len [of t] pend by (simp add: f filter_remove1_fst [OF True])
  moreover have "\<forall>x \<in> set (inflight c'). snd x \<le> ss_revision (sessions c' (fst x))"
  proof
    fix x
    assume "x \<in> set (inflight c')"
    then have "x \<in> set (inflight c)" unfolding f by (meson set_remove1_subset subsetD)
    then have "snd x \<le> ss_revision (sessions c (fst x))" using assms by (simp add: composer_ok_def)
    then show "snd x \<le> ss_revision (sessions c' (fst x))" by (auto simp: f)
  qed
  moreover have "sending c' = ss_pending (sessions c' (current c'))" "\<forall>t. current c' < t \<longrightarrow> sessions c' t = newSession"
    using assms cur later by (simp_all add: composer_ok_def f)
  ultimately show ?thesis by (simp add: composer_ok_def c'_def)
qed (simp add: send_settled_def assms)

interpretation composer: invariant_system composer_init composer_trans composer_ok
proof unfold_locales
  show "composer_init c \<Longrightarrow> composer_ok c" for c
    by (auto simp: composer_init_def composer_ok_def newComposer_def newSession_def)
  show "composer_ok c \<Longrightarrow> composer_trans c ev c' \<Longrightarrow> composer_ok c'" for c ev c'
  proof (erule composer_transE)
    assume ok: "composer_ok c" and c': "c' = composer_step ev c" and r: "rendered ev c"
    show "composer_ok c'"
    proof (cases ev)
      case Reconnect
      have "composer_ok (new_connection c)" using ok by (auto simp: composer_ok_def new_connection_def newSession_def)
      then show ?thesis by (simp add: c' Reconnect)
    next
      case (Connection b)
      then show ?thesis using ok by (simp add: c' composer_ok_def)
    qed (use ok r in \<open>simp_all add: c' composer_ok_send composer_ok_draft composer_ok_settled\<close>)
  qed
qed

text \<open>
  One message at a time: in every reachable state at most one message of a session is under way,
  and the sending indicator is on exactly while one of the current session is.
\<close>

theorem one_send_at_a_time:
  assumes "composer_reachable c"
  shows "length (filter (\<lambda>x. fst x = s) (inflight c)) \<le> 1 \<and>
         sending c = (length (filter (\<lambda>x. fst x = current c) (inflight c)) = 1)"
  using composer.inv_reachable [OF assms] by (auto simp: composer_ok_def)

definition demo_view :: view where
  "demo_view = \<lparr>vw_draft = [104, 105], vw_connected = True, vw_session = 0\<rparr>"

definition demo_sent :: Composer where
  "demo_sent = composer_step (SendClick demo_view) (newComposer True)"

lemma demo_sent_reachable: "composer_reachable (composer_step (SendClick demo_view) demo_sent)"
proof -
  have "composer_reachable (newComposer True)" by (rule reachable_init) (auto simp: composer_init_def)
  then have "composer_reachable demo_sent"
    unfolding demo_sent_def by (rule reachable_step) (rule composer_trans, simp add: demo_view_def)
  then show ?thesis by (rule reachable_step) (rule composer_trans, simp add: demo_view_def)
qed

theorem one_send_at_a_time_witness:
  "length (filter (\<lambda>x. fst x = 0) (inflight (composer_step (SendClick demo_view) demo_sent))) \<le> 1"
  using one_send_at_a_time [OF demo_sent_reachable] by blast

text \<open>
  A late answer does not touch what came after it: when a message of another session is answered,
  or when the user typed since the message was sent, the draft stays as it is, whatever the answer;
  and a failed message is never taken out of the form.
\<close>

theorem draft_survives:
  assumes "current c \<noteq> s \<or> r \<noteq> ss_revision (sessions c s) \<or> out \<noteq> None"
  shows "draft (send_settled s r out c) = draft c"
  using assms by (auto simp: send_settled_def Let_def split: option.splits)

theorem draft_survives_witness:
  "draft (send_settled 0 0 None (onDraftChange demo_view [111] demo_sent)) = [111]"
proof -
  have "draft (send_settled 0 0 None (onDraftChange demo_view [111] demo_sent)) = draft (onDraftChange demo_view [111] demo_sent)"
    by (rule draft_survives) (simp add: onDraftChange_def demo_sent_def demo_view_def onSend_def newComposer_def
        newSession_def blank_def white_space_def)
  then show ?thesis by (simp add: onDraftChange_def)
qed

text \<open>
  What is sent is what the user saw: every message handed to the connection was the draft of the
  view in which it was sent, not blank, and for the session that was current at that moment.
\<close>

theorem sends_only_current:
  assumes "sends (composer_step ev c) \<noteq> sends c"
  shows "\<exists>v. ev = SendClick v \<and> sends (composer_step ev c) = sends c @ [(current c, vw_draft v)] \<and>
           \<not> blank (vw_draft v) \<and> vw_connected v \<and> vw_session v = current c"
proof (cases ev)
  case (Settled s r out)
  with assms show ?thesis by (auto simp: send_settled_def Let_def split: option.splits if_splits)
qed (use assms in \<open>auto simp: onSend_def onDraftChange_def new_connection_def Let_def split: if_splits\<close>)

theorem sends_only_current_witness: "vw_session demo_view = current (newComposer True)"
proof -
  have "sends (composer_step (SendClick demo_view) (newComposer True)) \<noteq> sends (newComposer True)"
    by (simp add: demo_view_def onSend_def newComposer_def newSession_def blank_def white_space_def)
  from sends_only_current [OF this] show ?thesis by auto
qed

end
