(* ===== verification/AppShell.thy ===== *)
theory AppShell
  imports AdminView Session ChatComposer
begin

text \<open>
  The parts around and between the pages: the header of every page, \<open>web/src/components/Layout.tsx\<close>; the
  confirmation \<open>components/confirmAction.tsx\<close>; the chat form \<open>components/ChatComposer.tsx\<close>; the sign-in and
  the invitation forms, \<open>pages/AuthPage.tsx\<close> and \<open>pages/InvitePage.tsx\<close>; and the routes of \<open>App.tsx\<close>, whose
  matching of a path is a parameter.
\<close>

section \<open>The header\<close>

datatype shell_click = Sign_out | Submit_form

definition layout_header :: "Identity option \<Rightarrow> shell_click ui list" where
  "layout_header identity =
     Link ''home'' ''/'' #
     (case identity of
        None \<Rightarrow> [Label ''Together at any distance'']
      | Some i \<Rightarrow>
          (if id_role i = Some SUPER_ADMIN \<and> \<not> id_guest i then [Link ''Administration'' ''/admin''] else []) @
          [Label (take 1 (id_nickname i)), Label (id_nickname i @ (if id_guest i then '' (guest)'' else [])),
           Button ''Sign out'' False Sign_out])"

text \<open>
  The door and the lock agree: the link to the administration is shown to exactly those whom the
  administration page lets in once the identity is known, and exactly those whose page loads anything;
  everybody else is shown a refusal there, or sent to the sign-in page, and is offered nothing to click.
\<close>

theorem admin_entry_agrees:
  "(Link ''Administration'' ''/admin'' \<in> set (layout_header i)) = admin_allowed i \<and>
   (\<not> admin_allowed i \<longrightarrow> offered (admin_page lc False i a busy f) = [] \<and>
      admin_page lc False i a busy f =
        (if i = None then [Link ''redirect'' ''/login'']
         else [Label ''Administrators only'', Label ''Only super administrators may enter.'', Link ''Back'' ''/''])) \<and>
   (admin_allowed i \<longrightarrow> admin_page lc False i a busy f = admin_view lc a busy f) \<and>
   (\<not> admin_allowed i \<and> am_allowed a = admin_allowed i \<longrightarrow> am_asked (admin_load_effect a a) = am_asked a)"
  by (cases i) (auto simp: layout_header_def admin_allowed_def admin_page_def admin_load_effect_def)

theorem admin_entry_agrees_witness: "offered (admin_page demo_runtime False (Some demo_me) newAdmin False (newForm demo_super)) = []"
proof -
  have "\<not> admin_allowed (Some demo_me)" by (simp add: admin_allowed_def demo_me_def)
  then show ?thesis using admin_entry_agrees [of "Some demo_me"] by blast
qed

section \<open>Confirmations\<close>

text \<open>The callbacks of the modal; the promise takes the first call of \<open>resolve\<close> and ignores the others.\<close>

datatype modal_call = On_confirm | On_cancel | On_close

definition resolve :: "bool \<Rightarrow> bool option \<Rightarrow> bool option" where
  "resolve v p = (case p of None \<Rightarrow> Some v | Some _ \<Rightarrow> p)"

fun modal_step :: "modal_call \<Rightarrow> bool option \<Rightarrow> bool option" where
  "modal_step On_confirm p = resolve True p"
| "modal_step On_cancel p = resolve False p"
| "modal_step On_close p = resolve False p"

definition confirmAction :: "modal_call list \<Rightarrow> bool option" where
  "confirmAction calls = fold modal_step calls None"

lemma modal_steps_settled: "fold modal_step calls (Some b) = Some b"
proof (induction calls)
  case (Cons c calls)
  then show ?case by (cases c) (simp_all add: resolve_def)
qed simp

text \<open>
  A confirmation answers once, by the first callback: it answers yes exactly if confirming came first,
  though the dialogue closes afterwards, and every other way of closing it answers no.
\<close>

theorem confirm_once:
  "confirmAction (c # calls) = Some (c = On_confirm) \<and> confirmAction [] = None"
  by (cases c) (simp_all add: confirmAction_def resolve_def modal_steps_settled)

section \<open>The chat form\<close>

record ComposerView =
  cv_error :: "js_string option"
  cv_placeholder :: string
  cv_value :: js_string
  cv_inputDisabled :: bool
  cv_sendDisabled :: bool
  cv_loading :: bool

definition composer_form :: "bool \<Rightarrow> Composer \<Rightarrow> ComposerView" where
  "composer_form inPlayer c =
     \<lparr>cv_error = (if cp_error c = Some [] then None else cp_error c),
      cv_placeholder = (if \<not> connected c then ''Waiting for the connection'' else if inPlayer then ''Say something to the room'' else ''Send a message''),
      cv_value = draft c, cv_inputDisabled = (\<not> connected c), cv_sendDisabled = (\<not> connected c \<or> blank (draft c)),
      cv_loading = sending c\<rparr>"

text \<open>A key in the form: it never reaches the player's shortcuts; \<open>Enter\<close> that confirms a candidate of an
  input method is prevented from submitting.\<close>

definition prevented :: "string \<Rightarrow> bool \<Rightarrow> nat \<Rightarrow> bool" where
  "prevented key isComposing keyCode \<longleftrightarrow> key = ''Enter'' \<and> (isComposing \<or> keyCode = 229)"

text \<open>The browser submits the form on \<open>Enter\<close> in its field unless that is prevented or the button is disabled.\<close>

definition key_down :: "bool \<Rightarrow> string \<Rightarrow> bool \<Rightarrow> nat \<Rightarrow> Composer \<Rightarrow> Composer" where
  "key_down inPlayer key isComposing keyCode c =
     (if key = ''Enter'' \<and> \<not> prevented key isComposing keyCode \<and> \<not> cv_sendDisabled (composer_form inPlayer c)
      then onSend (view_of c) c else c)"

text \<open>
  The send button tells the truth: in every reachable state a click on it sends exactly the draft that
  is shown if the button is enabled and not loading, and sends nothing otherwise; in the player and beside it
  alike. The enter key does the same, except while a candidate of an input method is being confirmed, when
  it sends nothing.
\<close>

theorem send_button_agrees:
  assumes "composer_reachable c"
  shows "(if \<not> cv_sendDisabled (composer_form p c) \<and> \<not> cv_loading (composer_form p c)
          then sends (onSend (view_of c) c) = sends c @ [(current c, cv_value (composer_form p c))]
          else onSend (view_of c) c = c) \<and>
         key_down p ''Enter'' isComposing keyCode c = (if isComposing \<or> keyCode = 229 then c else onSend (view_of c) c) \<and>
         (key \<noteq> ''Enter'' \<longrightarrow> key_down p key isComposing keyCode c = c)"
proof -
  have "sending c = ss_pending (sessions c (current c))"
    using composer.inv_reachable [OF assms] by (simp add: composer_ok_def)
  then show ?thesis by (auto simp: composer_form_def onSend_def view_of_def key_down_def prevented_def Let_def)
qed

theorem send_button_agrees_witness: "onSend (view_of demo_sent) demo_sent = demo_sent"
proof -
  have "composer_reachable (newComposer True)" by (rule reachable_init) (auto simp: composer_init_def)
  then have r: "composer_reachable demo_sent"
    unfolding demo_sent_def by (rule reachable_step) (rule composer_trans, simp add: demo_view_def)
  have "cv_loading (composer_form True demo_sent)"
    by (simp add: composer_form_def demo_sent_def demo_view_def onSend_def newComposer_def newSession_def blank_def white_space_def)
  then show ?thesis using send_button_agrees [OF r, of True] by simp
qed

section \<open>The forms\<close>

definition form_text :: "form_error \<Rightarrow> string" where
  "form_text e = (case e of No_text \<Rightarrow> [] | Message m \<Rightarrow> m | Failed_text \<Rightarrow> ''Failed'' | Undefined_text \<Rightarrow> ''undefined has no properties'')"

definition auth_view :: "string \<Rightarrow> string \<Rightarrow> Session \<Rightarrow> shell_click ui list" where
  "auth_view username password s =
     [Label ''Sign in'', Field ''User name'' username False, Field ''Password'' password False] @
     only_if (form_text (ap_error s) \<noteq> []) (Note (form_text (ap_error s)) None) @
     [Button ''Sign in'' False Submit_form]"

definition invite_view :: "string \<Rightarrow> Session \<Rightarrow> shell_click ui list" where
  "invite_view typed s =
     [Label ''A ticket kept for you'', Label (case iv_info s of None \<Rightarrow> ''Checking the invitation'' | Some i \<Rightarrow> roomTitle i)] @
     (case iv_info s of None \<Rightarrow> [] | Some i \<Rightarrow> [Label (''Room code '' @ roomCode i)]) @
     only_if (au_identity s = None) (Field ''Nickname'' typed False) @
     only_if (form_text (iv_error s) \<noteq> []) (Note (form_text (iv_error s)) None) @
     [Button (case au_identity s of None \<Rightarrow> ''Enter'' | Some i \<Rightarrow> ''Join as '' @ id_nickname i) (iv_info s = None) Submit_form]"

text \<open>
  The invitation asks a visitor for a nickname exactly when a nickname is sent, and can be accepted with
  the button only after the room it leads to has been shown.
\<close>

lemma invite_view_agrees:
  "(Field ''Nickname'' typed False \<in> set (invite_view typed s)) = (nickname_of typed s = Some typed)"
  "(Submit_form \<in> set (offered (invite_view typed s))) = (iv_info s \<noteq> None)"
  by (auto simp: invite_view_def nickname_of_def only_if_def split: option.splits)

section \<open>Routes\<close>

datatype route = Home_route | Login_route | To_login | Admin_route | Join_route | Room_route | To_home

definition routes :: "(string \<times> route) list" where
  "routes = [(''/'', Home_route), (''/login'', Login_route), (''/register'', To_login), (''/admin'', Admin_route),
             (''/join/:token'', Join_route), (''/room/:code'', Room_route), (''*'', To_home)]"

text \<open>The route of a path; \<open>matches\<close> says whether a pattern matches it.\<close>

definition route_of :: "(string \<Rightarrow> string \<Rightarrow> bool) \<Rightarrow> string \<Rightarrow> route option" where
  "route_of matches path = map_option snd (List.find (\<lambda>(p, r). matches p path) routes)"

end
