(* ===== verification/HomePage.thy ===== *)
theory HomePage
  imports Session "HOL-Library.Sublist"
begin

text \<open>
  The home page, \<open>web/src/pages/HomePage.tsx\<close>: the rooms and films of the user, creating a room, deleting
  and uploading a film, and the test of the object store. A load asks two questions at once
  (\<open>Promise.all\<close>): it succeeds when both are answered and fails with the first that fails. Loads are
  numbered; answers come in any order. The upload itself is theory \<open>Upload\<close>; here it is what starts it,
  cancels it and follows it. The folding of upper and lower case is a parameter of the search.
\<close>

section \<open>State\<close>

datatype health = No_health | Checking | Health_text string | Health_timeout

text \<open>A load that is under way and what was answered; \<open>Some None\<close> is an answer without data.\<close>

record HomeLoad =
  hl_id :: nat
  hl_rooms :: "Room list option option"
  hl_media :: "Media list option option"

datatype home_request =
    Get_rooms nat
  | Get_media nat
  | Post_room string rat
  | Confirm_removal string
  | Delete_media string
  | Start_upload nat
  | Abort_upload nat
  | Reset_file
  | Get_health
  | Go string

text \<open>\<open>hm_controller\<close> is the upload whose \<open>AbortController\<close> is current; \<open>hm_confirms\<close>, \<open>hm_deletes\<close>,
  \<open>hm_creates\<close> and \<open>hm_checks\<close> are questions without an answer; \<open>hm_finished\<close> and \<open>hm_loaded\<close> record the
  uploads that have ended and the loads that have succeeded, with their answers.\<close>

record Home =
  hm_identity :: "Identity option"
  hm_loading :: bool
  hm_rooms :: "Room list"
  hm_media :: "Media list"
  hm_error :: form_error
  hm_uploading :: string
  hm_busy :: bool
  hm_creating :: bool
  hm_listing :: bool
  hm_search :: string
  hm_controller :: "nat option"
  hm_uploads :: nat
  hm_storageHealth :: health
  hm_checkingStorage :: bool
  hm_checks :: nat
  hm_creates :: nat
  hm_confirms :: "string list"
  hm_deletes :: "string list"
  hm_loads :: "HomeLoad list"
  hm_nextLoad :: nat
  hm_finished :: "nat list"
  hm_loaded :: "(nat \<times> Room list \<times> Media list) list"
  hm_out :: "home_request list"

definition newHome :: Home where
  "newHome = \<lparr>hm_identity = None, hm_loading = True, hm_rooms = [], hm_media = [], hm_error = No_text, hm_uploading = [],
     hm_busy = False, hm_creating = False, hm_listing = True, hm_search = [], hm_controller = None, hm_uploads = 0,
     hm_storageHealth = No_health, hm_checkingStorage = False, hm_checks = 0, hm_creates = 0, hm_confirms = [],
     hm_deletes = [], hm_loads = [], hm_nextLoad = 0, hm_finished = [], hm_loaded = [], hm_out = []\<rparr>"

definition home_emit :: "home_request list \<Rightarrow> Home \<Rightarrow> Home" where
  "home_emit qs h = h\<lparr>hm_out := hm_out h @ qs\<rparr>"

section \<open>Loading the lists\<close>

definition load :: "Home \<Rightarrow> Home" where
  "load h =
     home_emit [Get_rooms (hm_nextLoad h), Get_media (hm_nextLoad h)]
       (h\<lparr>hm_loads := hm_loads h @ [\<lparr>hl_id = hm_nextLoad h, hl_rooms = None, hl_media = None\<rparr>],
          hm_nextLoad := Suc (hm_nextLoad h)\<rparr>)"

definition drop_load :: "nat \<Rightarrow> HomeLoad list \<Rightarrow> HomeLoad list" where
  "drop_load k ls = filter (\<lambda>l. hl_id l \<noteq> k) ls"

definition find_load :: "nat \<Rightarrow> Home \<Rightarrow> HomeLoad option" where
  "find_load k h = List.find (\<lambda>l. hl_id l = k) (hm_loads h)"

text \<open>One of the two questions of a load was answered; \<open>part\<close> puts the answer where it belongs. The
  load is over with the second answer.\<close>

definition load_part :: "nat \<Rightarrow> (HomeLoad \<Rightarrow> HomeLoad) \<Rightarrow> Home \<Rightarrow> Home" where
  "load_part k part h =
     (case find_load k h of
        None \<Rightarrow> h
      | Some l \<Rightarrow>
          (case (hl_rooms (part l), hl_media (part l)) of
             (Some r, Some m) \<Rightarrow>
               let rs = (case r of Some xs \<Rightarrow> xs | None \<Rightarrow> []); ms = (case m of Some xs \<Rightarrow> xs | None \<Rightarrow> [])
               in h\<lparr>hm_rooms := rs, hm_media := ms, hm_listing := False, hm_loads := drop_load k (hm_loads h),
                    hm_loaded := hm_loaded h @ [(k, rs, ms)]\<rparr>
           | _ \<Rightarrow> h\<lparr>hm_loads := map (\<lambda>x. if hl_id x = k then part x else x) (hm_loads h)\<rparr>))"

definition home_load_failed :: "nat \<Rightarrow> string \<Rightarrow> Home \<Rightarrow> Home" where
  "home_load_failed k m h =
     (case find_load k h of
        None \<Rightarrow> h
      | Some l \<Rightarrow> h\<lparr>hm_error := Message m, hm_listing := False, hm_loads := drop_load k (hm_loads h)\<rparr>)"

definition rooms_answer :: "nat \<Rightarrow> string + Room list option \<Rightarrow> Home \<Rightarrow> Home" where
  "rooms_answer k r h =
     (case r of Inl m \<Rightarrow> home_load_failed k m h | Inr x \<Rightarrow> load_part k (hl_rooms_update (\<lambda>_. Some x)) h)"

definition media_answer :: "nat \<Rightarrow> string + Media list option \<Rightarrow> Home \<Rightarrow> Home" where
  "media_answer k r h =
     (case r of Inl m \<Rightarrow> home_load_failed k m h | Inr x \<Rightarrow> load_part k (hl_media_update (\<lambda>_. Some x)) h)"

text \<open>The effect on who is signed in; it runs whenever the identity or the loading flag has changed.\<close>

definition auth_effect :: "Identity option \<Rightarrow> bool \<Rightarrow> Home \<Rightarrow> Home" where
  "auth_effect i l h =
     (let h1 = h\<lparr>hm_identity := i, hm_loading := l\<rparr>
      in case i of
           None \<Rightarrow> if l then h1 else home_emit [Go ''/login''] h1
         | Some x \<Rightarrow> if id_guest x then h1 else load h1)"

section \<open>Rooms and films\<close>

definition create :: "string \<Rightarrow> rat \<Rightarrow> Home \<Rightarrow> Home" where
  "create title maxM h =
     home_emit [Post_room title maxM] (h\<lparr>hm_creating := True, hm_error := No_text, hm_creates := Suc (hm_creates h)\<rparr>)"

text \<open>The code of the room that was answered is read at once.\<close>

definition create_answer :: "string + string option \<Rightarrow> Home \<Rightarrow> Home" where
  "create_answer r h =
     (if hm_creates h = 0 then h
      else let h1 = h\<lparr>hm_creates := hm_creates h - 1, hm_creating := False\<rparr>
           in case r of
                Inl m \<Rightarrow> h1\<lparr>hm_error := Message m\<rparr>
              | Inr None \<Rightarrow> h1\<lparr>hm_error := Undefined_text\<rparr>
              | Inr (Some code) \<Rightarrow> home_emit [Go (''/room/'' @ code)] h1)"

definition removeMedia :: "string \<Rightarrow> Home \<Rightarrow> Home" where
  "removeMedia i h = home_emit [Confirm_removal i] (h\<lparr>hm_confirms := hm_confirms h @ [i]\<rparr>)"

definition removal_confirmed :: "string \<Rightarrow> bool \<Rightarrow> Home \<Rightarrow> Home" where
  "removal_confirmed i yes h =
     (if i \<notin> set (hm_confirms h) then h
      else let h1 = h\<lparr>hm_confirms := remove1 i (hm_confirms h)\<rparr>
           in if yes then home_emit [Delete_media i] (h1\<lparr>hm_deletes := hm_deletes h1 @ [i]\<rparr>) else h1)"

definition delete_answer :: "string \<Rightarrow> string option \<Rightarrow> Home \<Rightarrow> Home" where
  "delete_answer i r h =
     (if i \<notin> set (hm_deletes h) then h
      else let h1 = h\<lparr>hm_deletes := remove1 i (hm_deletes h)\<rparr>
           in case r of None \<Rightarrow> load h1 | Some m \<Rightarrow> h1\<lparr>hm_error := Message m\<rparr>)"

text \<open>\<open>String.prototype.includes\<close>, and the films that are shown.\<close>

fun str_includes :: "string \<Rightarrow> string \<Rightarrow> bool" where
  "str_includes [] n = (n = [])"
| "str_includes (c # cs) n = (take (length n) (c # cs) = n \<or> str_includes cs n)"

definition filteredMedia :: "(string \<Rightarrow> string) \<Rightarrow> Home \<Rightarrow> Media list" where
  "filteredMedia lower h = filter (\<lambda>m. str_includes (lower (originalFilename m)) (lower (hm_search h))) (hm_media h)"

section \<open>Uploading\<close>

definition upload :: "bool \<Rightarrow> Home \<Rightarrow> Home" where
  "upload file h =
     (if \<not> file \<or> hm_controller h \<noteq> None then h
      else home_emit [Start_upload (hm_uploads h)]
             (h\<lparr>hm_controller := Some (hm_uploads h), hm_uploads := Suc (hm_uploads h), hm_busy := True, hm_error := No_text\<rparr>))"

text \<open>The upload has ended: \<^term>\<open>None\<close>, or the message of what it threw.\<close>

definition upload_ended :: "string option \<Rightarrow> Home \<Rightarrow> Home" where
  "upload_ended r h =
     (case hm_controller h of
        None \<Rightarrow> h
      | Some n \<Rightarrow>
          let h1 = (case r of None \<Rightarrow> h | Some m \<Rightarrow> h\<lparr>hm_error := Message m, hm_uploading := []\<rparr>)
          in load (home_emit [Reset_file] (h1\<lparr>hm_controller := None, hm_busy := False, hm_finished := hm_finished h @ [n]\<rparr>)))"

text \<open>The cancel button and the cleanup of the page.\<close>

definition abort_current :: "Home \<Rightarrow> Home" where
  "abort_current h = (case hm_controller h of None \<Rightarrow> h | Some n \<Rightarrow> home_emit [Abort_upload n] h)"

section \<open>The object store\<close>

definition checkStorage :: "Home \<Rightarrow> Home" where
  "checkStorage h =
     home_emit [Get_health] (h\<lparr>hm_checkingStorage := True, hm_storageHealth := Checking, hm_checks := Suc (hm_checks h)\<rparr>)"

text \<open>The message of the answer; or the name and the message of what was thrown.\<close>

definition storage_answer :: "(string \<times> string) + string \<Rightarrow> Home \<Rightarrow> Home" where
  "storage_answer r h =
     (if hm_checks h = 0 then h
      else h\<lparr>hm_checks := hm_checks h - 1, hm_checkingStorage := False,
             hm_storageHealth := (case r of
                 Inr m \<Rightarrow> Health_text m
               | Inl (name, m) \<Rightarrow> if name = ''TimeoutError'' then Health_timeout else Health_text m)\<rparr>)"

section \<open>Steps\<close>

datatype home_event =
    Auth_changed "Identity option" bool
  | Rooms_answer nat "string + Room list option"
  | Media_answer nat "string + Media list option"
  | Create string rat
  | Create_answer "string + string option"
  | Remove string
  | Removal_confirmed string bool
  | Delete_answer string "string option"
  | Upload_chosen bool
  | Upload_text string
  | Upload_ended "string option"
  | Upload_cancelled
  | Check_storage
  | Storage_answer "(string \<times> string) + string"
  | Search_typed string
  | Error_closed

fun home_step :: "home_event \<Rightarrow> Home \<Rightarrow> Home" where
  "home_step (Auth_changed i l) h = auth_effect i l h"
| "home_step (Rooms_answer k r) h = rooms_answer k r h"
| "home_step (Media_answer k r) h = media_answer k r h"
| "home_step (Create t n) h = create t n h"
| "home_step (Create_answer r) h = create_answer r h"
| "home_step (Remove i) h = removeMedia i h"
| "home_step (Removal_confirmed i yes) h = removal_confirmed i yes h"
| "home_step (Delete_answer i r) h = delete_answer i r h"
| "home_step (Upload_chosen f) h = upload f h"
| "home_step (Upload_text t) h = (if hm_controller h = None then h else h\<lparr>hm_uploading := t\<rparr>)"
| "home_step (Upload_ended r) h = upload_ended r h"
| "home_step Upload_cancelled h = abort_current h"
| "home_step Check_storage h = checkStorage h"
| "home_step (Storage_answer r) h = storage_answer r h"
| "home_step (Search_typed t) h = h\<lparr>hm_search := t\<rparr>"
| "home_step Error_closed h = h\<lparr>hm_error := No_text\<rparr>"

inductive home_trans :: "Home \<Rightarrow> home_event \<Rightarrow> Home \<Rightarrow> bool" where
  home_trans: "home_trans h ev (home_step ev h)"

definition home_init :: "Home \<Rightarrow> bool" where
  "home_init h \<longleftrightarrow> h = newHome"

abbreviation home_reachable :: "Home \<Rightarrow> bool" where
  "home_reachable \<equiv> reachable home_init home_trans"

lemma home_reachable_run: "home_reachable h \<Longrightarrow> home_reachable (fold home_step evs h)"
  by (induction evs arbitrary: h) (auto intro: reachable_step home_trans simp del: home_step.simps)

section \<open>The lists\<close>

lemma str_includes_iff: "str_includes s n \<longleftrightarrow> (\<exists>a b. s = a @ n @ b)"
proof (induction s n rule: str_includes.induct)
  case (2 c cs n)
  have "take (length n) (c # cs) = n \<longleftrightarrow> (\<exists>b. c # cs = n @ b)"
    by (metis append_eq_conv_conj append_take_drop_id)
  moreover have "(\<exists>a b. c # cs = a @ n @ b) \<longleftrightarrow> (\<exists>b. c # cs = n @ b) \<or> (\<exists>a b. cs = a @ n @ b)"
    by (auto simp: Cons_eq_append_conv)
  ultimately show ?case using 2 by simp
qed simp

text \<open>
  What is shown: the films of the last load in their order, those whose name contains what was typed,
  without regard to case; all of them while nothing is typed.
\<close>

theorem filteredMedia_shows:
  "(m \<in> set (filteredMedia lower h)) =
     (m \<in> set (hm_media h) \<and> (\<exists>a b. lower (originalFilename m) = a @ lower (hm_search h) @ b)) \<and>
   subseq (filteredMedia lower h) (hm_media h) \<and>
   (lower (hm_search h) = [] \<longrightarrow> filteredMedia lower h = hm_media h)"
proof (intro conjI)
  show "(m \<in> set (filteredMedia lower h)) =
     (m \<in> set (hm_media h) \<and> (\<exists>a b. lower (originalFilename m) = a @ lower (hm_search h) @ b))"
    by (simp add: filteredMedia_def str_includes_iff)
  show "lower (hm_search h) = [] \<longrightarrow> filteredMedia lower h = hm_media h"
    by (simp add: filteredMedia_def str_includes_iff exI [of _ "[]"])
qed (simp add: filteredMedia_def)

section \<open>Invariant\<close>

text \<open>Loads are numbered apart and each still lacks an answer; the lists are those of the last load that
  succeeded; uploads run one after the other; an indicator is on only while something is outstanding.\<close>

definition loads_ok :: "Home \<Rightarrow> bool" where
  "loads_ok h \<longleftrightarrow>
     distinct (map hl_id (hm_loads h)) \<and> (\<forall>l \<in> set (hm_loads h). hl_id l < hm_nextLoad h) \<and>
     (\<forall>l \<in> set (hm_loads h). hl_rooms l = None \<or> hl_media l = None) \<and>
     (hm_listing h \<longrightarrow> length (hm_loads h) = hm_nextLoad h)"

definition shown_ok :: "Home \<Rightarrow> bool" where
  "shown_ok h \<longleftrightarrow>
     (hm_rooms h, hm_media h) = (if hm_loaded h = [] then ([], []) else snd (last (hm_loaded h)))"

definition uploads_ok :: "Home \<Rightarrow> bool" where
  "uploads_ok h \<longleftrightarrow>
     [0..<hm_uploads h] = hm_finished h @ (case hm_controller h of None \<Rightarrow> [] | Some n \<Rightarrow> [n]) \<and>
     hm_busy h = (hm_controller h \<noteq> None) \<and>
     filter (\<lambda>q. \<exists>n. q = Start_upload n) (hm_out h) = map Start_upload [0..<hm_uploads h]"

definition waits_ok :: "Home \<Rightarrow> bool" where
  "waits_ok h \<longleftrightarrow> (hm_creating h \<longrightarrow> 0 < hm_creates h) \<and> (hm_checkingStorage h \<longrightarrow> 0 < hm_checks h)"

definition home_ok :: "Home \<Rightarrow> bool" where
  "home_ok h \<longleftrightarrow> loads_ok h \<and> shown_ok h \<and> uploads_ok h \<and> waits_ok h"

named_theorems home_defs

lemmas home_parts [home_defs] =
  loads_ok_def shown_ok_def uploads_ok_def waits_ok_def home_emit_def

text \<open>Steps that touch one part of the state leave the other parts of the invariant alone.\<close>

lemma ok_emit:
  "loads_ok (home_emit qs h) = loads_ok h" "shown_ok (home_emit qs h) = shown_ok h" "waits_ok (home_emit qs h) = waits_ok h"
  "\<forall>q \<in> set qs. \<forall>n. q \<noteq> Start_upload n \<Longrightarrow> uploads_ok (home_emit qs h) = uploads_ok h"
  by (auto simp: home_defs filter_empty_conv)

lemma home_ok_emit: "\<forall>q \<in> set qs. \<forall>n. q \<noteq> Start_upload n \<Longrightarrow> home_ok (home_emit qs h) = home_ok h"
  by (simp add: home_ok_def ok_emit)

lemma home_ok_load:
  assumes "home_ok h"
  shows "home_ok (load h)"
proof -
  let ?h = "h\<lparr>hm_loads := hm_loads h @ [\<lparr>hl_id = hm_nextLoad h, hl_rooms = None, hl_media = None\<rparr>],
               hm_nextLoad := Suc (hm_nextLoad h)\<rparr>"
  have "loads_ok ?h" using assms by (auto simp: home_ok_def loads_ok_def less_Suc_eq)
  then have "home_ok ?h" using assms by (simp add: home_ok_def shown_ok_def uploads_ok_def waits_ok_def)
  then show ?thesis by (simp add: load_def home_ok_emit)
qed

lemma find_load_Some: "find_load k h = Some l \<Longrightarrow> l \<in> set (hm_loads h) \<and> hl_id l = k"
  by (auto simp: find_load_def find_Some_iff)

lemma loads_ok_drop:
  assumes "loads_ok h"
  shows "distinct (map hl_id (drop_load k (hm_loads h))) \<and> (\<forall>l \<in> set (drop_load k (hm_loads h)). hl_id l < hm_nextLoad h) \<and>
         (\<forall>l \<in> set (drop_load k (hm_loads h)). hl_rooms l = None \<or> hl_media l = None)"
  using assms by (simp add: loads_ok_def drop_load_def distinct_map_filter)

lemma home_ok_failed: "home_ok h \<Longrightarrow> home_ok (home_load_failed k m h)"
  using loads_ok_drop [of h k]
  by (simp add: home_load_failed_def home_ok_def split: option.splits)
    (simp add: loads_ok_def shown_ok_def uploads_ok_def waits_ok_def)

lemma home_ok_part:
  assumes "home_ok h" and "\<And>l. hl_id (part l) = hl_id l"
  shows "home_ok (load_part k part h)"
proof (cases "find_load k h")
  case None
  then show ?thesis using assms by (simp add: load_part_def)
next
  case (Some l)
  have lk: "l \<in> set (hm_loads h)" "hl_id l = k" using find_load_Some [OF Some] by auto
  have ok: "loads_ok h" using assms(1) by (simp add: home_ok_def)
  show ?thesis
  proof (cases "hl_rooms (part l) \<noteq> None \<and> hl_media (part l) \<noteq> None")
    case True
    then obtain r m where rm: "hl_rooms (part l) = Some r" "hl_media (part l) = Some m" by auto
    show ?thesis using assms(1) loads_ok_drop [OF ok, of k]
      by (simp add: load_part_def Some rm Let_def home_ok_def)
        (simp add: loads_ok_def shown_ok_def uploads_ok_def waits_ok_def)
  next
    case False
    let ?ls = "map (\<lambda>x. if hl_id x = k then part x else x) (hm_loads h)"
    have ids: "hl_id \<circ> (\<lambda>x. if hl_id x = k then part x else x) = hl_id" by (auto simp: assms(2))
    have "inj_on hl_id (set (hm_loads h))" using ok by (simp add: loads_ok_def distinct_map)
    then have same: "x = l" if "x \<in> set (hm_loads h)" "hl_id x = k" for x
      using lk that by (auto dest: inj_onD)
    have "load_part k part h = h\<lparr>hm_loads := ?ls\<rparr>"
      using False by (auto simp: load_part_def Some split: option.splits)
    moreover have "loads_ok (h\<lparr>hm_loads := ?ls\<rparr>)"
      using ok False same by (auto simp: loads_ok_def assms(2) ids split: if_splits)
    ultimately show ?thesis using assms(1) by (simp add: home_ok_def shown_ok_def uploads_ok_def waits_ok_def)
  qed
qed

lemma home_ok_answers: "home_ok h \<Longrightarrow> home_ok (rooms_answer k r h)" "home_ok h \<Longrightarrow> home_ok (media_answer k r' h)"
  by (simp_all add: rooms_answer_def media_answer_def home_ok_failed home_ok_part split: sum.splits)

lemma home_ok_upload:
  assumes "home_ok h"
  shows "home_ok (upload f h)"
proof -
  have "uploads_ok (upload f h)"
    using assms by (auto simp: home_ok_def uploads_ok_def upload_def home_emit_def)
  moreover have "loads_ok (upload f h)" "shown_ok (upload f h)" "waits_ok (upload f h)"
    using assms by (simp_all add: home_ok_def upload_def ok_emit) (simp_all add: loads_ok_def shown_ok_def waits_ok_def)
  ultimately show ?thesis by (simp add: home_ok_def)
qed

lemma home_ok_ended:
  assumes "home_ok h"
  shows "home_ok (upload_ended r h)"
proof (cases "hm_controller h")
  case None
  then show ?thesis using assms by (simp add: upload_ended_def)
next
  case (Some n)
  let ?g = "case r of None \<Rightarrow> h | Some m \<Rightarrow> h\<lparr>hm_error := Message m, hm_uploading := []\<rparr>"
  have "home_ok (?g\<lparr>hm_controller := None, hm_busy := False, hm_finished := hm_finished h @ [n]\<rparr>)"
    using assms Some
    by (cases r) (simp_all add: home_ok_def loads_ok_def shown_ok_def waits_ok_def uploads_ok_def)
  then show ?thesis by (simp add: upload_ended_def Some Let_def home_ok_load home_ok_emit)
qed

lemma home_ok_plain:
  assumes "home_ok h"
    and "hm_loads g = hm_loads h" "hm_nextLoad g = hm_nextLoad h" "hm_listing g = hm_listing h" "hm_rooms g = hm_rooms h"
      "hm_media g = hm_media h" "hm_loaded g = hm_loaded h" "hm_uploads g = hm_uploads h" "hm_finished g = hm_finished h"
      "hm_controller g = hm_controller h" "hm_busy g = hm_busy h" "hm_out g = hm_out h"
    and "waits_ok g"
  shows "home_ok g"
  using assms by (simp add: home_ok_def loads_ok_def shown_ok_def uploads_ok_def)

lemma home_ok_step:
  assumes "home_ok h"
  shows "home_ok (home_step ev h)"
proof -
  note plain = home_ok_plain [OF assms]
  have w: "waits_ok h" using assms by (simp add: home_ok_def)
  show ?thesis
  proof (cases ev)
    case (Auth_changed i l)
    have "home_ok (h\<lparr>hm_identity := i, hm_loading := l\<rparr>)" using w by (intro plain) (simp_all add: waits_ok_def)
    then show ?thesis using Auth_changed 
      by (cases i; cases l) (simp_all add: auth_effect_def Let_def home_ok_emit home_ok_load)
  next
    case (Delete_answer i r)
    have "home_ok (h\<lparr>hm_deletes := remove1 i (hm_deletes h)\<rparr>)" using w by (intro plain) (simp_all add: waits_ok_def)
    moreover have "home_ok (h\<lparr>hm_deletes := remove1 i (hm_deletes h), hm_error := Message m\<rparr>)" for m
      using w by (intro plain) (simp_all add: waits_ok_def)
    ultimately show ?thesis using Delete_answer assms by (simp add: delete_answer_def Let_def home_ok_load split: option.splits)
  qed (use assms w in \<open>simp_all add: home_ok_answers home_ok_upload home_ok_ended abort_current_def home_ok_emit
       create_def create_answer_def removeMedia_def removal_confirmed_def checkStorage_def storage_answer_def Let_def
       split: option.splits sum.splits\<close>,
      (intro conjI allI impI plain; simp add: waits_ok_def)+)
qed

interpretation home_inv: invariant_system home_init home_trans home_ok
proof unfold_locales
  show "home_ok h" if "home_init h" for h
    using that by (simp add: home_init_def newHome_def home_ok_def loads_ok_def shown_ok_def uploads_ok_def waits_ok_def)
  show "home_ok h'" if "home_ok h" "home_trans h ev h'" for h ev h'
    using that home_ok_step by (auto elim: home_trans.cases)
qed

section \<open>Properties\<close>

text \<open>
  What the home page shows and does stays in order, however questions and answers are interleaved:
  rooms and films are always the two answers of one and the same load, never a mixture; uploads run
  strictly one after the other, and the page says it is uploading exactly while one runs; and no sign of
  waiting stays on when there is nothing left to wait for.
\<close>

theorem home_in_order:
  assumes "home_reachable h"
  shows "(if hm_loaded h = [] then hm_rooms h = [] \<and> hm_media h = [] else \<exists>k. last (hm_loaded h) = (k, hm_rooms h, hm_media h)) \<and>
         filter (\<lambda>q. \<exists>n. q = Start_upload n) (hm_out h) =
           map Start_upload (hm_finished h @ (case hm_controller h of None \<Rightarrow> [] | Some n \<Rightarrow> [n])) \<and>
         hm_busy h = (hm_controller h \<noteq> None) \<and>
         (hm_loads h = [] \<and> 0 < hm_nextLoad h \<longrightarrow> \<not> hm_listing h) \<and>
         (hm_creates h = 0 \<longrightarrow> \<not> hm_creating h) \<and> (hm_checks h = 0 \<longrightarrow> \<not> hm_checkingStorage h)"
proof -
  have ok: "loads_ok h" "shown_ok h" "uploads_ok h" "waits_ok h"
    using home_inv.inv_reachable [OF assms] by (simp_all add: home_ok_def)
  have "\<exists>k. last (hm_loaded h) = (k, hm_rooms h, hm_media h)" if "hm_loaded h \<noteq> []"
    using ok(2) that by (cases "last (hm_loaded h)") (simp add: shown_ok_def)
  then show ?thesis using ok by (auto simp: loads_ok_def shown_ok_def uploads_ok_def waits_ok_def)
qed

definition demo_user :: Identity where
  "demo_user = \<lparr>id_role = Some USER, id_username = Some ''ada'', id_id = ''u1'', id_nickname = ''Ada'', id_roomId = None, id_guest = False\<rparr>"

definition demo_film :: Media where
  "demo_film = \<lparr>md_id = ''m1'', originalFilename = ''a.mp4'', mimeType = ''video/mp4'', md_sizeBytes = 9, md_durationMs = None, md_status = ''READY''\<rparr>"

definition demo_home :: Home where
  "demo_home = fold home_step [Auth_changed (Some demo_user) False, Upload_chosen True, Upload_chosen True,
     Media_answer 0 (Inr (Some [demo_film])), Rooms_answer 0 (Inr None), Upload_ended None] newHome"

lemma demo_home_reachable: "home_reachable demo_home"
  unfolding demo_home_def by (intro home_reachable_run reachable_init) (simp add: home_init_def)

theorem home_in_order_witness:
  "filter (\<lambda>q. \<exists>n. q = Start_upload n) (hm_out demo_home) = [Start_upload 0] \<and> \<not> hm_busy demo_home"
proof -
  have "hm_finished demo_home = [0]" "hm_controller demo_home = None" by code_simp+
  then show ?thesis using home_in_order [OF demo_home_reachable] by simp
qed

lemma find_append_home:
  "List.find P (xs @ ys) = (case List.find P xs of None \<Rightarrow> List.find P ys | Some x \<Rightarrow> Some x)"
  by (induction xs) auto

lemma find_next_load: "home_ok h \<Longrightarrow> find_load (hm_nextLoad h) (load h) = Some \<lparr>hl_id = hm_nextLoad h, hl_rooms = None, hl_media = None\<rparr>"
proof -
  assume "home_ok h"
  then have "List.find (\<lambda>l. hl_id l = hm_nextLoad h) (hm_loads h) = None"
    by (auto simp: home_ok_def loads_ok_def find_None_iff)
  then show ?thesis by (simp add: find_load_def load_def home_emit_def find_append_home)
qed

text \<open>A load both of whose questions are answered, in either order.\<close>

definition or_empty :: "'a list option \<Rightarrow> 'a list" where
  "or_empty x = (case x of Some xs \<Rightarrow> xs | None \<Rightarrow> [])"

definition loaded_with :: "nat \<Rightarrow> Room list option \<Rightarrow> Media list option \<Rightarrow> Home \<Rightarrow> Home" where
  "loaded_with k r m h = h\<lparr>hm_rooms := or_empty r, hm_media := or_empty m, hm_listing := False,
     hm_loads := drop_load k (hm_loads h), hm_loaded := hm_loaded h @ [(k, or_empty r, or_empty m)]\<rparr>"

definition untouched :: "nat \<Rightarrow> Home \<Rightarrow> bool" where
  "untouched k h \<longleftrightarrow> find_load k h = Some \<lparr>hl_id = k, hl_rooms = None, hl_media = None\<rparr>"

lemma find_map_part:
  assumes "\<And>x. hl_id (part x) = hl_id x"
  shows "List.find (\<lambda>l. hl_id l = k) (map (\<lambda>x. if hl_id x = k then part x else x) ls) =
         map_option part (List.find (\<lambda>l. hl_id l = k) ls)"
  by (induction ls) (simp_all add: assms)

lemma drop_map_part:
  assumes "\<And>x. hl_id (part x) = hl_id x"
  shows "drop_load k (map (\<lambda>x. if hl_id x = k then part x else x) ls) = drop_load k ls"
  by (induction ls) (simp_all add: drop_load_def assms)

lemma load_completes:
  assumes "untouched k h"
  shows "media_answer k (Inr m) (rooms_answer k (Inr r) h) = loaded_with k r m h"
    and "rooms_answer k (Inr r) (media_answer k (Inr m) h) = loaded_with k r m h"
  using assms
  by (simp_all add: untouched_def find_load_def media_answer_def rooms_answer_def load_part_def find_map_part drop_map_part
      loaded_with_def or_empty_def Let_def)

lemma load_fails:
  assumes "untouched k h"
  shows "rooms_answer k (Inl e) h = h\<lparr>hm_error := Message e, hm_listing := False, hm_loads := drop_load k (hm_loads h)\<rparr>"
    and "media_answer k (Inl e) h = h\<lparr>hm_error := Message e, hm_listing := False, hm_loads := drop_load k (hm_loads h)\<rparr>"
  using assms by (simp_all add: untouched_def rooms_answer_def media_answer_def home_load_failed_def)

lemma find_dropped [simp]: "List.find (\<lambda>l. hl_id l = k) (drop_load k ls) = None"
  by (induction ls) (auto simp: drop_load_def)

lemma find_other: "j \<noteq> k \<Longrightarrow> List.find (\<lambda>l. hl_id l = j) (drop_load k ls) = List.find (\<lambda>l. hl_id l = j) ls"
  by (induction ls) (auto simp: drop_load_def)

lemma untouched_load: "home_ok h \<Longrightarrow> untouched (hm_nextLoad h) (load h)"
  by (simp add: untouched_def find_next_load)

text \<open>
  Loading the lists: of a load that a reachable page starts, the order of the two answers does not
  matter; when both succeed the lists are exactly what was answered (nothing, for an empty answer); when
  one fails the lists stay, the error is shown, the skeleton goes, and the answer that is still to come
  changes nothing any more.
\<close>

theorem home_load_result:
  assumes "home_reachable h" and "k = hm_nextLoad h"
  shows "media_answer k (Inr m) (rooms_answer k (Inr r) (load h)) = rooms_answer k (Inr r) (media_answer k (Inr m) (load h)) \<and>
         (let g = media_answer k (Inr m) (rooms_answer k (Inr r) (load h))
          in hm_rooms g = or_empty r \<and> hm_media g = or_empty m \<and> \<not> hm_listing g \<and> hm_error g = hm_error h) \<and>
         (let g = rooms_answer k (Inl e) (load h)
          in hm_rooms g = hm_rooms h \<and> hm_media g = hm_media h \<and> \<not> hm_listing g \<and> hm_error g = Message e \<and>
             media_answer k x g = g)"
proof -
  have ok: "home_ok h" by (rule home_inv.inv_reachable [OF assms(1)])
  note u = untouched_load [OF ok]
  have plain: "hm_error (load h) = hm_error h" "hm_rooms (load h) = hm_rooms h" "hm_media (load h) = hm_media h"
    by (simp_all add: load_def home_emit_def)
  have "media_answer k x (rooms_answer k (Inl e) (load h)) = rooms_answer k (Inl e) (load h)"
    using load_fails(1) [OF u, of e] by (simp add: assms(2) media_answer_def home_load_failed_def load_part_def find_load_def split: sum.splits)
  then show ?thesis
    using load_completes [OF u, where m = m and r = r] load_fails(1) [OF u, of e] by (simp add: assms(2) loaded_with_def plain)
qed

theorem home_load_result_witness:
  "hm_media (media_answer 2 (Inr (Some [])) (rooms_answer 2 (Inr None) (load demo_home))) = []"
proof -
  have "2 = hm_nextLoad demo_home" by code_simp
  then show ?thesis
    using home_load_result [OF demo_home_reachable, of 2 "Some []" None] unfolding Let_def or_empty_def option.case by blast
qed

text \<open>
  C25. A deleted film comes back: when a load is still unanswered while a film is deleted and the lists are
  loaded again, the older load's answer, given before the deletion, replaces the newer one; the film is
  shown although the server has deleted it and the page had already shown the list without it.
\<close>

theorem deleted_film_reappears:
  assumes "home_reachable h" and "untouched k h" and "k \<noteq> hm_nextLoad h"
    and "film \<in> set old" and "md_id film \<notin> md_id ` set new"
  shows "let k' = hm_nextLoad h;
             g1 = fold home_step [Remove (md_id film), Removal_confirmed (md_id film) True, Delete_answer (md_id film) None,
                    Rooms_answer k' (Inr r'), Media_answer k' (Inr (Some new))] h;
             g2 = fold home_step [Rooms_answer k (Inr r), Media_answer k (Inr (Some old))] g1
         in film \<notin> set (hm_media g1) \<and> film \<in> set (hm_media g2)"
proof -
  let ?i = "md_id film" and ?k' = "hm_nextLoad h"
  define g where "g = fold home_step [Remove ?i, Removal_confirmed ?i True] h"
  have ok: "home_ok g"
    unfolding g_def by (rule home_inv.inv_reachable) (rule home_reachable_run [OF assms(1)])
  have g: "hm_nextLoad g = ?k'" "hm_loads g = hm_loads h" "?i \<in> set (hm_deletes g)"
    by (simp_all add: g_def removeMedia_def removal_confirmed_def home_emit_def Let_def)
  let ?d = "g\<lparr>hm_deletes := remove1 ?i (hm_deletes g)\<rparr>"
  have okd: "home_ok ?d" using ok by (rule home_ok_plain) (use ok in \<open>simp_all add: home_ok_def waits_ok_def\<close>)
  have del: "home_step (Delete_answer ?i None) g = load ?d" using g(3) by (simp add: delete_answer_def)
  have u: "untouched ?k' (load ?d)" using untouched_load [OF okd] g(1) by simp
  let ?g1 = "loaded_with ?k' r' (Some new) (load ?d)"
  have "find_load k ?g1 = find_load k h"
    using assms(2,3) by (simp add: find_load_def loaded_with_def find_other untouched_def load_def home_emit_def g)
      (simp add: find_append_home)
  then have u1: "untouched k ?g1" using assms(2) by (simp add: untouched_def)
  have "film \<notin> set (hm_media ?g1)" using assms(5) by (auto simp: loaded_with_def or_empty_def)
  moreover have "film \<in> set (hm_media (loaded_with k r (Some old) ?g1))" using assms(4) by (simp add: loaded_with_def or_empty_def)
  ultimately show ?thesis
    using load_completes(1) [OF u, where m = "Some new" and r = r'] load_completes(1) [OF u1, where m = "Some old" and r = r] del
    by (simp add: Let_def g_def)
qed

theorem deleted_film_reappears_witness:
  "demo_film \<in> set (hm_media (fold home_step [Remove ''m1'', Removal_confirmed ''m1'' True, Delete_answer ''m1'' None,
     Rooms_answer 2 (Inr None), Media_answer 2 (Inr (Some [])), Rooms_answer 1 (Inr None), Media_answer 1 (Inr (Some [demo_film]))] demo_home))"
proof -
  have "untouched 1 demo_home" "hm_nextLoad demo_home = 2" "md_id demo_film = ''m1''" by code_simp+
  then show ?thesis
    using deleted_film_reappears [OF demo_home_reachable, of 1 demo_film "[demo_film]" "[]" None None]
    by (simp add: Let_def del: home_step.simps)
qed

end
