(* ===== verification/HomeView.thy ===== *)
theory HomeView
  imports HomePage UI Format
begin

text \<open>
  What the home page shows and offers, the part of \<open>web/src/pages/HomePage.tsx\<close> behind \<open>return\<close>: the figures
  at the top, the form for a room, the upload and the test of the object store, the rooms and the films.
  How the runtime writes a number is a parameter, and so is the folding of case in the search.
\<close>

section \<open>What can be clicked\<close>

datatype home_click =
    Close_error
  | Submit_room
  | Pick_upload
  | Cancel_upload
  | Check_store
  | Enter_room string
  | Delete_film string

definition roomStatusLabel :: "room_status \<Rightarrow> string" where
  "roomStatusLabel s =
     (if s = OPEN_ROOM then ''Open'' else if s = HOST_DISCONNECTED then ''Waiting for the host to return'' else ''Closed, can be reopened'')"

definition home_error :: "form_error \<Rightarrow> string" where
  "home_error e = (case e of No_text \<Rightarrow> [] | Message m \<Rightarrow> m | Failed_text \<Rightarrow> ''Failed'' | Undefined_text \<Rightarrow> ''undefined has no properties'')"

definition health_text :: "health \<Rightarrow> string" where
  "health_text x = (case x of No_health \<Rightarrow> [] | Checking \<Rightarrow> ''Checking the store'' | Health_text m \<Rightarrow> m | Health_timeout \<Rightarrow> ''The check timed out'')"

section \<open>The parts of the page\<close>

text \<open>The fields of the form for a room are the browser's own: they are shown as they are at first.\<close>

definition emptyLibrary :: "string \<Rightarrow> string \<Rightarrow> home_click ui" where
  "emptyLibrary title description = Group ''empty'' [Label title, Label description]"

definition home_head :: "Home \<Rightarrow> home_click ui list" where
  "home_head h =
     [Label (padStart2 (show_nat (length (hm_rooms h)))), Label ''My rooms'',
      Label (padStart2 (show_nat (length (hm_media h)))), Label ''Films''] @
     only_if (home_error (hm_error h) \<noteq> []) (Note (home_error (hm_error h)) (Some Close_error))"

definition create_form :: "Home \<Rightarrow> home_click ui list" where
  "create_form h =
     [Group ''create'' [Field ''Title'' [] False, Field ''At most'' ''8'' False, Button ''Create and enter'' False Submit_room]]"

definition upload_panel :: "Home \<Rightarrow> home_click ui list" where
  "upload_panel h =
     [Picker ''Choose a film to upload'' False Pick_upload] @
     only_if (hm_uploading h \<noteq> []) (Label (hm_uploading h)) @
     [if hm_busy h then Button ''Cancel the upload'' False Cancel_upload else Button ''Check the store'' False Check_store] @
     only_if (health_text (hm_storageHealth h) \<noteq> []) (Label (health_text (hm_storageHealth h)))"

definition room_card :: "(rat \<Rightarrow> string) \<Rightarrow> Room \<Rightarrow> home_click ui" where
  "room_card num r =
     Group (rm_id r)
       [Label (roomStatusLabel (rm_status r)), Button (rm_title r) False (Enter_room (''/room/'' @ rm_code r)),
        Label (rm_code r), Label (''at most '' @ num (maxMembers r))]"

definition rooms_section :: "(rat \<Rightarrow> string) \<Rightarrow> Home \<Rightarrow> home_click ui list" where
  "rooms_section num h =
     [Label (show_nat (length (hm_rooms h)) @ '' rooms'')] @
     (if hm_listing h then [Skeleton 3] else map (room_card num) (hm_rooms h)) @
     only_if (\<not> hm_listing h \<and> hm_rooms h = [])
       (emptyLibrary ''The first film night starts here'' ''Create a room above and send the invitation to friends.'')"

definition film_card :: "Media \<Rightarrow> home_click ui" where
  "film_card m =
     Group (md_id m)
       [Label (if md_status m = ''READY'' then ''Ready'' else md_status m), Label (originalFilename m), Label (megabytes (md_sizeBytes m)),
        Button ''Delete the film'' False (Delete_film (md_id m))]"

definition films_section :: "(string \<Rightarrow> string) \<Rightarrow> Home \<Rightarrow> home_click ui list" where
  "films_section lower h =
     [Label (show_nat (length (hm_media h)) @ '' films''), Field ''Search films'' (hm_search h) False] @
     (if hm_listing h then [Skeleton 4] else map film_card (filteredMedia lower h)) @
     only_if (\<not> hm_listing h \<and> filteredMedia lower h = [])
       (emptyLibrary (if hm_search h \<noteq> [] then ''No film matches'' else ''Your films will be here'')
          (if hm_search h \<noteq> [] then ''Try another word.'' else ''Upload the first film and start a shared screening.''))"

definition home_view :: "(rat \<Rightarrow> string) \<Rightarrow> (string \<Rightarrow> string) \<Rightarrow> Home \<Rightarrow> home_click ui list" where
  "home_view num lower h =
     (if hm_loading h then []
      else case hm_identity h of
             None \<Rightarrow> []
           | Some i \<Rightarrow>
               if id_guest i then [Label ''Your guest session is still valid'', Label ''Return to the room by the invitation, or sign out and sign in.'']
               else home_head h @ create_form h @ upload_panel h @ rooms_section num h @ films_section lower h)"

section \<open>Using the page\<close>

definition member :: "Home \<Rightarrow> bool" where
  "member h \<longleftrightarrow> \<not> hm_loading h \<and> (\<exists>i. hm_identity h = Some i \<and> \<not> id_guest i)"

fun home_permitted :: "(string \<Rightarrow> string) \<Rightarrow> Home \<Rightarrow> home_click \<Rightarrow> bool" where
  "home_permitted lower h (Enter_room p) = (member h \<and> (\<exists>r \<in> set (hm_rooms h). p = ''/room/'' @ rm_code r))"
| "home_permitted lower h (Delete_film i) = (member h \<and> (\<exists>m \<in> set (filteredMedia lower h). i = md_id m))"
| "home_permitted lower h Cancel_upload = (member h \<and> hm_busy h)"
| "home_permitted lower h Check_store = (member h \<and> \<not> hm_busy h)"
| "home_permitted lower h c = member h"

lemma home_offers:
  assumes "c \<in> set (offered (home_view num lower h))"
  shows "home_permitted lower h c"
proof -
  have m: "member h"
    using assms by (auto simp: home_view_def member_def split: if_splits option.splits)
  then show ?thesis
    using assms
    by (cases c) (auto simp: home_view_def member_def home_head_def create_form_def upload_panel_def rooms_section_def
        films_section_def room_card_def film_card_def emptyLibrary_def split: if_splits)
qed

text \<open>A click, as a step of the page; submitting the form and choosing a file come with their data, and
  entering a room is a navigation.\<close>

fun home_clicked :: "Home \<Rightarrow> home_click \<Rightarrow> Home \<Rightarrow> bool" where
  "home_clicked h Close_error h' = (h' = home_step Error_closed h)"
| "home_clicked h Submit_room h' = (\<exists>title n. h' = home_step (Create title n) h)"
| "home_clicked h Pick_upload h' = (\<exists>file. h' = home_step (Upload_chosen file) h)"
| "home_clicked h Cancel_upload h' = (h' = home_step Upload_cancelled h)"
| "home_clicked h Check_store h' = (h' = home_step Check_storage h)"
| "home_clicked h (Enter_room p) h' = (h' = home_emit [Go p] h)"
| "home_clicked h (Delete_film i) h' = (h' = home_step (Remove i) h)"

fun home_outside :: "home_event \<Rightarrow> bool" where
  "home_outside (Create t n) = False"
| "home_outside (Remove i) = False"
| "home_outside (Upload_chosen f) = False"
| "home_outside Upload_cancelled = False"
| "home_outside Check_storage = False"
| "home_outside Error_closed = False"
| "home_outside ev = True"

inductive home_env :: "Home \<Rightarrow> Home \<Rightarrow> bool" where
  home_env: "home_outside ev \<Longrightarrow> home_env h (home_step ev h)"

text \<open>The films that are deleted, and the confirmations of a deletion that are open.\<close>

definition home_asks :: "Home \<Rightarrow> string set" where
  "home_asks h = {i. Delete_media i \<in> set (hm_out h)} \<union> set (hm_confirms h)"

fun home_asked :: "home_click \<Rightarrow> string option" where
  "home_asked (Delete_film i) = Some i"
| "home_asked _ = None"

lemma home_asks_step:
  assumes "\<And>i. ev \<noteq> Remove i"
  shows "home_asks (home_step ev h) \<subseteq> home_asks h"
  using assms
proof (cases ev)
  case (Removal_confirmed i yes)
  then show ?thesis using set_remove1_subset [of i "hm_confirms h"]
    by (auto simp: home_asks_def removal_confirmed_def home_emit_def Let_def)
qed (auto simp: home_asks_def auth_effect_def load_def rooms_answer_def media_answer_def load_part_def home_load_failed_def
      create_def create_answer_def delete_answer_def upload_def upload_ended_def abort_current_def checkStorage_def
      storage_answer_def home_emit_def Let_def split: option.splits sum.splits if_splits)

interpretation home_ui: traced_ui "home_view num lower" home_init home_env home_clicked home_ok "home_permitted lower" home_asks home_asked
  for num lower
proof unfold_locales
  show "home_ok h" if "home_init h" for h using that by (rule home_inv.inv_init)
  show "home_ok h'" if "home_ok h" "home_env h h'" for h h'
    using that home_ok_step by (auto elim!: home_env.cases simp del: home_step.simps)
  show "home_ok h'" if "home_ok h" "home_clicked h c h'" for h c h'
    using that home_ok_step by (cases c) (auto simp: home_ok_emit simp del: home_step.simps)
  show "home_permitted lower h c" if "c \<in> set (offered (home_view num lower h))" for h c
    using that by (rule home_offers)
  show "home_asks h = {}" if "home_init h" for h
    using that by (simp add: home_init_def newHome_def home_asks_def)
  show "home_asks h' \<subseteq> home_asks h" if "home_env h h'" for h h'
    using that home_asks_step by (auto elim!: home_env.cases simp del: home_step.simps) (metis home_outside.simps(2) subsetD)
  show "home_asks h' \<subseteq> home_asks h \<union> set_option (home_asked c)" if "home_clicked h c h'" for h c h'
  proof (cases c)
    case (Delete_film i)
    then show ?thesis using that by (auto simp: home_asks_def removeMedia_def home_emit_def)
  next
    case (Enter_room p)
    then show ?thesis using that by (auto simp: home_asks_def home_emit_def)
  qed (use that home_asks_step in \<open>auto simp del: home_step.simps\<close>)
qed

text \<open>
  The home page deletes what it showed: however it is used and whatever is typed into the search, a
  film is deleted only after the button on its card was clicked, on a page shown to a signed-in member
  and no guest, with the film in the list and its name matching what was typed at that moment.
\<close>

theorem home_deletes_shown:
  assumes "used (home_view num lower) home_init home_env home_clicked hs h" and "Delete_media i \<in> set (hm_out h)"
  shows "\<exists>t. (t, Delete_film i) \<in> set hs \<and> member t \<and>
           (\<exists>m \<in> set (hm_media t). md_id m = i \<and> (\<exists>a b. lower (originalFilename m) = a @ lower (hm_search t) @ b))"
proof -
  have "i \<in> home_asks h" using assms(2) by (simp add: home_asks_def)
  from home_ui.used_asked_permitted [OF assms(1) this]
  obtain t c where c: "(t, c) \<in> set hs" "home_asked c = Some i" "home_permitted lower t c" by blast
  then have "c = Delete_film i" by (cases c) simp_all
  with c show ?thesis by (auto simp: filteredMedia_def str_includes_iff)
qed

definition demo_shown :: Home where
  "demo_shown = fold home_step [Auth_changed (Some demo_user) False, Rooms_answer 0 (Inr None), Media_answer 0 (Inr (Some [demo_film]))] newHome"

lemma used_outside:
  "used (home_view num lower) home_init home_env home_clicked hs h \<Longrightarrow> list_all home_outside evs \<Longrightarrow>
   used (home_view num lower) home_init home_env home_clicked hs (fold home_step evs h)"
  by (induction evs arbitrary: h) (auto intro: used_env home_env simp del: home_step.simps)

theorem home_deletes_shown_witness:
  "\<exists>t m. md_id m = ''m1'' \<and> m \<in> set (hm_media t) \<and> member t \<and>
     (t, Delete_film ''m1'') \<in> set ([(demo_shown, Delete_film ''m1'')] :: (Home \<times> home_click) list)"
proof -
  let ?view = "home_view (\<lambda>_. ''8'') id"
  have "used ?view home_init home_env home_clicked [] newHome" by (rule used_init) (simp add: home_init_def)
  then have "used ?view home_init home_env home_clicked [] demo_shown"
    unfolding demo_shown_def by (rule used_outside) simp
  moreover have "Delete_film ''m1'' \<in> set (offered (?view demo_shown))" by code_simp
  ultimately have "used ?view home_init home_env home_clicked ([] @ [(demo_shown, Delete_film ''m1'')]) (home_step (Remove ''m1'') demo_shown)"
    by (rule used_click) simp
  from used_outside [OF this, of "[Removal_confirmed ''m1'' True]"]
  have u: "used ?view home_init home_env home_clicked [(demo_shown, Delete_film ''m1'')]
      (home_step (Removal_confirmed ''m1'' True) (home_step (Remove ''m1'') demo_shown))" by simp
  have "Delete_media ''m1'' \<in> set (hm_out (home_step (Removal_confirmed ''m1'' True) (home_step (Remove ''m1'') demo_shown)))"
    by code_simp
  from home_deletes_shown [OF u this] show ?thesis by blast
qed

text \<open>
  What the lists show: nothing but skeletons before the first load has ended; then a card for every room
  and for every film that matches, in their order, and the empty text exactly when there is none.
\<close>

lemma home_lists:
  "hm_listing h \<Longrightarrow> Skeleton 3 \<in> set (rooms_section num h) \<and> Skeleton 4 \<in> set (films_section lower h)"
  "\<not> hm_listing h \<Longrightarrow> offered (rooms_section num h) = map (\<lambda>r. Enter_room (''/room/'' @ rm_code r)) (hm_rooms h)"
  "\<not> hm_listing h \<Longrightarrow> offered (films_section lower h) = map (Delete_film \<circ> md_id) (filteredMedia lower h)"
proof -
  show "hm_listing h \<Longrightarrow> Skeleton 3 \<in> set (rooms_section num h) \<and> Skeleton 4 \<in> set (films_section lower h)"
    by (simp add: rooms_section_def films_section_def)
  have "offered (map (room_card num) xs) = map (\<lambda>r. Enter_room (''/room/'' @ rm_code r)) xs" for xs
    by (induction xs) (simp_all add: room_card_def)
  then show "\<not> hm_listing h \<Longrightarrow> offered (rooms_section num h) = map (\<lambda>r. Enter_room (''/room/'' @ rm_code r)) (hm_rooms h)"
    by (simp add: rooms_section_def emptyLibrary_def)
  have "offered (map film_card xs) = map (Delete_film \<circ> md_id) xs" for xs
    by (induction xs) (simp_all add: film_card_def)
  then show "\<not> hm_listing h \<Longrightarrow> offered (films_section lower h) = map (Delete_film \<circ> md_id) (filteredMedia lower h)"
    by (simp add: films_section_def emptyLibrary_def)
qed

end
