(* ===== verification/Spec2Isabelle.thy ===== *)
theory Spec2Isabelle
  imports RoomCommands RoomRoster WebSocketClient_Props RoomConnection RoomScreen Upload ApiClient VideoPlayer_Controls AppShell HomeView
begin

text \<open>
  Verification of the watch-together front end (\<open>web/src\<close>) and of the room it talks to
  (\<open>internal/rooms\<close>).

  \<^bold>\<open>The program.\<close> A room is a film watched together: the server owns the timeline (a position, the server
  time it was true at, a rate, a phase and a revision); the host's player is the physical reference, and
  every other player follows. The front end estimates the server's clock, compares the position of its
  video element with the timeline and corrects small drifts by rate and large ones by seeking; it keeps
  one realtime connection alive; it shows the chat, as a list and as broadcasts over the film; it uploads
  films; and it lets administrators manage users, rooms and films.

  \<^bold>\<open>Numbers, time and effects.\<close> JavaScript numbers are rationals, with infinities and NaN where the source
  tests for them; the rounding of the last bit is not modelled. Clocks, random numbers, identifiers, the
  JSON parser, the network's answers and what a user does are arguments or events. A component is a record
  of its fields; its methods and callbacks are functions on it; what it does to the outside is a log.
  Timers are an explicit table (theory \<open>Timers\<close>): arming gives a handle, clearing removes it, and a timer
  may run at any time from its due time on. Events arrive in any order the runtime allows; a theorem about
  reachable states holds for all of them. Recursion is structural or has a termination proof, so no fuel
  is needed.

  \<^bold>\<open>Theories and sources.\<close>
  \<^item> \<open>JS_Prelude\<close>: numbers, JSON values, reachability and the locale \<open>invariant_system\<close>, which every stateful
    component interprets on its own step relation. \<open>Timers\<close>: the timer table, with its contract as a locale.
  \<^item> \<open>PlaybackModel\<close>: \<open>realtime/protocol.ts\<close>, \<open>player/PlaybackModel.ts\<close> and the server's position of the
    timeline (\<open>internal/rooms/state.go\<close>), with their agreement.
  \<^item> \<open>ServerPlayback\<close>: \<open>internal/rooms/state.go\<close> and the part of \<open>internal/rooms/actor.go\<close> that changes the
    timeline: payloads, the commands of the playback, the samples of the host, which move the anchor rarely.
    \<open>RoomActor\<close>, \<open>_Props\<close>: the rest of \<open>actor.go\<close>, a goroutine that takes one message after the other, as a
    step relation: joining, leaving, commands, the grace period of an absent host. Its books are kept, its
    states are a history, and only the host moves it, except that a super administrator may choose the film;
    what closing and handing over forget.
  \<^item> \<open>RoomNetwork\<close>: the room and the controllers of its members together. Whoever is connected and has handled
    what the connection was told has the server's state, members are in step up to the errors of their clocks,
    and a click of the host reaches everybody. \<open>RoomRoster\<close>: the room and its members' pages, which list who is
    there; a host that comes back is listed as a member. \<open>RoomCommands\<close>: the server can decode every command a
    player sends.
  \<^item> \<open>ClockSynchronizer\<close>: \<open>player/ClockSynchronizer.ts\<close>. The sample buffer equals a reference; the
    estimate is as accurate as the asymmetry of the route; steps are bounded and converge.
  \<^item> \<open>DriftCorrector\<close>: \<open>player/DriftCorrector.ts\<close>. Hard seeks need a sustained drift and keep their
    cool-down; soft corrections are bounded, have hysteresis and converge.
  \<^item> \<open>SyncController\<close>, \<open>_Timers\<close>, \<open>_Log\<close>, \<open>_Props\<close>: \<open>player/SyncController.ts\<close> with its media events, timers,
    promises and the microtask. Timers never leak; why the host's element is ever moved; members follow;
    when playback starts; what is reported to the server; and two behaviours the source does not intend.
  \<^item> \<open>WebSocketClient\<close>, \<open>_Inv\<close>, \<open>_Props\<close>: \<open>realtime/WebSocketClient.ts\<close>. Connected or retrying, back-off,
    final closes, every promise settled exactly once.
  \<^item> \<open>RoomBroadcastStream\<close>: \<open>realtime/RoomBroadcastStream.ts\<close> and \<open>components/LiveBroadcastOverlay.tsx\<close>.
  \<^item> \<open>Types\<close>: \<open>types.ts\<close>. \<open>MediaTicket\<close>, \<open>RoomPage\<close>, \<open>RoomPage_Effects\<close>: \<open>pages/RoomPage.tsx\<close>, its signed film
    address, its messages and archive, its effects over React commits and its actions. The connection is
    used in pairs and follows the room. \<open>RoomConnection\<close>: the page and its client together; the client is at
    rest and has no listener whenever the page is not attached.
  \<^item> \<open>ChatComposer\<close>: \<open>realtime/useChatComposer.ts\<close>, one message at a time and drafts that survive.
  \<^item> \<open>VideoPlayer\<close>: \<open>player/PlayerAdapter.ts\<close> and the effects of \<open>components/VideoPlayer.tsx\<close>, composed with
    the controller: the player only takes the controller's own steps, so its invariants hold inside the
    player, and the controls command the room and nothing else. \<open>VideoPlayer_Controls\<close>: what the component asks
    of the Artplayer library, as a list of calls. The status pill and the member's mark always follow the room.
  \<^item> \<open>Upload\<close>: \<open>api/upload.ts\<close>. The four outcomes, what was sent, and success with a cooperative network.
    \<open>ApiClient\<close>: \<open>api/client.ts\<close>, cookies, the anti-forgery token and the response envelope.
  \<^item> \<open>Session\<close>: \<open>auth/AuthContext.tsx\<close>, \<open>pages/AuthPage.tsx\<close>, \<open>pages/InvitePage.tsx\<close> and signing out. Forms end,
    tokens survive their path, signing in works, and a late answer that signs the user out again.
    \<open>HomePage\<close>: \<open>pages/HomePage.tsx\<close>; lists from one load, one upload at a time, and a deleted film that comes
    back.
  \<^item> \<open>AdminPage\<close>: \<open>pages/AdminPage.tsx\<close>, what is shown is what was asked for unless an error is set, paging,
    and stale rows.
  \<^item> \<open>UI\<close>: what a page returns, as a tree of elements with what they offer to click, and two locales for the
    contract between a page and the state behind it: offered clicks are permitted ones, and every request goes
    back to one. \<open>AdminView\<close>, \<open>HomeView\<close> and \<open>RoomScreen\<close> interpret them on what the pages above return, with
    the editor of resources and the confirmations: only a super administrator acts on the rows shown, with the
    kind of resource the row has; the room offers everyone exactly what is theirs, and what leaves the room page
    was asked for by someone who may. \<open>Format\<close>: the sizes and numbers shown. \<open>RoomPanel\<close>: the preference for the
    status display, kept in the browser's storage, and the chat log, which follows new messages only until
    the list is full. \<open>AppShell\<close>: \<open>components/Layout.tsx\<close>, \<open>components/confirmAction.tsx\<close>,
    \<open>components/ChatComposer.tsx\<close>, the sign-in and invitation forms and the routes of \<open>App.tsx\<close>.

  \<^bold>\<open>Bounds from the source.\<close> Twelve clock samples; 4096 remembered identifiers; 300 chat messages; ten
  thousand parts in batches of ten; six seconds for an acknowledgement; retries capped at ten seconds
  before jitter; samples of the host refresh the anchor every fifteen seconds at most. They are the constants of
  the code and appear in the theorems. The server's 64-bit integers are \<^typ>\<open>int\<close>: decoding checks the
  bounds, and its position of the timeline wraps around as Go's sum does, so its agreement with the clients is stated
  for anchors up to \<open>2 ^ 53\<close> milliseconds.

  \<^bold>\<open>Not modelled.\<close> Styling, icons, captions on which nothing depends, and the nesting of library providers
  (\<open>main.tsx\<close>, \<open>theme.ts\<close>): there is no logic in them. How the runtime writes dates, folds case and matches
  a path to a route, and which layers the player library has, are parameters. The test page
  \<open>player-e2e/fixture.tsx\<close> is left out. Of the server only a room is modelled: what its database answers, which
  connections are full and the clock are given per step; HTTP, authentication, storage, chat, the websocket
  handler and the registry of rooms are another program.
\<close>

end
